(* ===== verification/Prelude.thy ===== *)
theory Prelude
  imports Main "HOL-Library.Word" "HOL-Library.AList" "HOL-Library.List_Lexorder"
begin

text \<open>
  The Python values the SDK computes with, and the facts about them that every component shares.

  A Python \<open>str\<close> is a list of code points (\<open>pystr\<close>), because a Python string may hold a lone
  surrogate and the SDK refuses one; \<open>bytes\<close> is a list of 8-bit words. A JSON-compatible value is
  a \<open>json\<close>; a \<open>dict\<close> is the list of its items in insertion order. A finite float is the dyadic
  number \<open>m * 2 ^ e\<close> it stands for, so \<open>is_integer\<close> and \<open>abs(x) <= n\<close> compute.
\<close>

section \<open>Strings and bytes\<close>

type_synonym pystr = "nat list"
type_synonym byte = "8 word"

text \<open>\<open>ustr\<close> reads an ASCII literal of the source as the code points it consists of.\<close>

definition ustr :: "string \<Rightarrow> pystr" where
  "ustr s = map of_char s"

lemma ustr_eq_iff [simp]: "ustr a = ustr b \<longleftrightarrow> a = b"
proof -
  have "inj (of_char :: char \<Rightarrow> nat)"
    by (rule injI) simp
  then show ?thesis
    by (simp add: ustr_def inj_map_eq_map)
qed

lemma ustr_Nil_iff [simp]: "ustr s = [] \<longleftrightarrow> s = []" "[] = ustr s \<longleftrightarrow> s = []"
  by (auto simp: ustr_def)

lemma length_ustr [simp]: "length (ustr s) = length s"
  by (simp add: ustr_def)

named_theorems eval_str \<open>evaluation of string literals\<close>

lemmas ustr_def [eval_str]

section \<open>JSON values\<close>

datatype pyfloat = PyNaN | PyInf bool | PyFin int int

datatype json =
    JNull
  | JBool bool
  | JInt int
  | JFloat pyfloat
  | JStr pystr
  | JList "json list"
  | JDict "(pystr \<times> json) list"

type_synonym jobj = "(pystr \<times> json) list"

text \<open>Python's \<open>d.get(k)\<close>: \<open>None\<close> for an absent key as for a null member.\<close>

definition dget :: "jobj \<Rightarrow> pystr \<Rightarrow> json" where
  "dget d k = (case map_of d k of None \<Rightarrow> JNull | Some v \<Rightarrow> v)"

definition has_key :: "jobj \<Rightarrow> pystr \<Rightarrow> bool" where
  "has_key d k = (map_of d k \<noteq> None)"

lemma dget_Nil [simp]: "dget [] k = JNull"
  by (simp add: dget_def)

lemma dget_Cons [simp]: "dget ((k', v) # d) k = (if k' = k then v else dget d k)"
  by (simp add: dget_def)

lemma has_key_Nil [simp]: "\<not> has_key [] k"
  by (simp add: has_key_def)

lemma has_key_Cons [simp]: "has_key ((k', v) # d) k = (k' = k \<or> has_key d k)"
  by (simp add: has_key_def)

lemma dget_absent: "\<not> has_key d k \<Longrightarrow> dget d k = JNull"
  by (simp add: has_key_def dget_def split: option.splits)

lemma dget_present_in: "dget d k \<noteq> JNull \<Longrightarrow> (k, dget d k) \<in> set d"
  by (auto simp: dget_def dest: map_of_SomeD split: option.splits)

text \<open>Python's truth value of a JSON-compatible value.\<close>

fun truthy :: "json \<Rightarrow> bool" where
  "truthy JNull = False"
| "truthy (JBool b) = b"
| "truthy (JInt n) = (n \<noteq> 0)"
| "truthy (JFloat f) = (case f of PyFin m e \<Rightarrow> m \<noteq> 0 | _ \<Rightarrow> True)"
| "truthy (JStr s) = (s \<noteq> [])"
| "truthy (JList xs) = (xs \<noteq> [])"
| "truthy (JDict d) = (d \<noteq> [])"

section \<open>Floats\<close>

text \<open>\<open>float.is_integer\<close> and \<open>int(x)\<close> of a finite float with an integral value.\<close>

fun float_is_integer :: "pyfloat \<Rightarrow> bool" where
  "float_is_integer (PyFin m e) = (0 \<le> e \<or> 2 ^ nat (- e) dvd m)"
| "float_is_integer _ = False"

fun float_is_finite :: "pyfloat \<Rightarrow> bool" where
  "float_is_finite (PyFin m e) = True"
| "float_is_finite _ = False"

fun int_of_float :: "pyfloat \<Rightarrow> int" where
  "int_of_float (PyFin m e) = (if 0 \<le> e then m * 2 ^ nat e else m div 2 ^ nat (- e))"
| "int_of_float _ = 0"

lemma float_is_integer_finite: "float_is_integer f \<Longrightarrow> float_is_finite f"
  by (cases f) auto

section \<open>Lists\<close>

text \<open>\<open>any(...)\<close> and \<open>all(...)\<close> over a list are \<open>list_ex\<close> and \<open>list_all\<close>.\<close>

lemma list_ex_map_iff: "list_ex P (map f xs) = list_ex (\<lambda>x. P (f x)) xs"
  by (induction xs) auto

lemma nth_append_last: "(xs @ [x]) ! length xs = x"
  by simp

lemma last_conv_nth_pred: "xs \<noteq> [] \<Longrightarrow> last xs = xs ! (length xs - 1)"
  by (rule last_conv_nth)

end
