(* ===== verification/Text_Encoding.thy ===== *)
theory Text_Encoding
  imports Prelude
begin

text \<open>
  UTF-8 as \<open>str.encode('utf-8')\<close> and \<open>bytes.decode('utf-8')\<close> compute it (strict: a surrogate has no
  encoding; an overlong form, a surrogate and a value past U+10FFFF have no decoding), and
  \<open>bytes.hex\<close>. \<open>utf8\<close> is the encoder on strings of Unicode scalar values; \<open>utf8_encode\<close> is the
  partial function Python offers.
\<close>

definition is_surrogate :: "nat \<Rightarrow> bool" where
  "is_surrogate c = (0xD800 \<le> c \<and> c \<le> 0xDFFF)"

definition is_scalar :: "nat \<Rightarrow> bool" where
  "is_scalar c = (c \<le> 0x10FFFF \<and> \<not> is_surrogate c)"

definition scalars :: "pystr \<Rightarrow> bool" where
  "scalars s = list_all is_scalar s"

lemma scalars_simps [simp]:
  "scalars []" "scalars (c # s) \<longleftrightarrow> is_scalar c \<and> scalars s"
  "scalars (s @ t) \<longleftrightarrow> scalars s \<and> scalars t"
  by (auto simp: scalars_def)

definition utf8_char :: "nat \<Rightarrow> nat list" where
  "utf8_char c =
     (if c < 0x80 then [c]
      else if c < 0x800 then [0xC0 + c div 64, 0x80 + c mod 64]
      else if c < 0x10000 then [0xE0 + c div 4096, 0x80 + c div 64 mod 64, 0x80 + c mod 64]
      else [0xF0 + c div 262144, 0x80 + c div 4096 mod 64, 0x80 + c div 64 mod 64, 0x80 + c mod 64])"

definition utf8_nats :: "pystr \<Rightarrow> nat list" where
  "utf8_nats s = concat (map utf8_char s)"

definition utf8 :: "pystr \<Rightarrow> byte list" where
  "utf8 s = map of_nat (utf8_nats s)"

definition utf8_encode :: "pystr \<Rightarrow> byte list option" where
  "utf8_encode s = (if scalars s then Some (utf8 s) else None)"

definition cont :: "nat \<Rightarrow> bool" where
  "cont b = (0x80 \<le> b \<and> b < 0xC0)"

fun utf8_decode_nats :: "nat list \<Rightarrow> pystr option" where
  "utf8_decode_nats [] = Some []"
| "utf8_decode_nats (a # bs) =
     (if a < 0x80 then map_option (Cons a) (utf8_decode_nats bs)
      else if 0xC0 \<le> a \<and> a < 0xE0 then
        (case bs of b # r \<Rightarrow>
           let c = (a - 0xC0) * 64 + (b - 0x80)
           in if cont b \<and> 0x80 \<le> c then map_option (Cons c) (utf8_decode_nats r) else None
         | _ \<Rightarrow> None)
      else if 0xE0 \<le> a \<and> a < 0xF0 then
        (case bs of b # b' # r \<Rightarrow>
           let c = (a - 0xE0) * 4096 + (b - 0x80) * 64 + (b' - 0x80)
           in if cont b \<and> cont b' \<and> 0x800 \<le> c \<and> is_scalar c
              then map_option (Cons c) (utf8_decode_nats r) else None
         | _ \<Rightarrow> None)
      else if 0xF0 \<le> a then
        (case bs of b # b' # b'' # r \<Rightarrow>
           let c = (a - 0xF0) * 262144 + (b - 0x80) * 4096 + (b' - 0x80) * 64 + (b'' - 0x80)
           in if cont b \<and> cont b' \<and> cont b'' \<and> 0x10000 \<le> c \<and> is_scalar c
              then map_option (Cons c) (utf8_decode_nats r) else None
         | _ \<Rightarrow> None)
      else None)"

definition utf8_decode :: "byte list \<Rightarrow> pystr option" where
  "utf8_decode bs = utf8_decode_nats (map unat bs)"

section \<open>Encoding and decoding are inverse\<close>

lemma split64: "(n::nat) = n div 64 * 64 + n mod 64"
  by simp

lemma div4096: "(c::nat) div 4096 = c div 64 div 64"
  by (simp add: div_mult2_eq)

lemma div262144: "(c::nat) div 262144 = c div 64 div 64 div 64"
  by (simp add: div_mult2_eq)

lemma decode_char_append:
  assumes "is_scalar c"
  shows "utf8_decode_nats (utf8_char c @ r) = map_option (Cons c) (utf8_decode_nats r)"
proof -
  have bound: "c \<le> 0x10FFFF"
    using assms by (simp add: is_scalar_def)
  consider "c < 0x80" | "0x80 \<le> c" "c < 0x800" | "0x800 \<le> c" "c < 0x10000" | "0x10000 \<le> c"
    by linarith
  then show ?thesis
  proof cases
    case 1
    then show ?thesis by (simp add: utf8_char_def)
  next
    case 2
    then have "c div 64 < 32" by linarith
    with 2 show ?thesis by (simp add: utf8_char_def cont_def Let_def)
  next
    case 3
    then have q: "c div 64 div 64 < 16" by linarith
    have e: "c div 64 div 64 * 4096 + c div 64 mod 64 * 64 + c mod 64 = c"
      using split64 [of c] split64 [of "c div 64"] by linarith
    from 3 q e assms show ?thesis
      by (simp add: utf8_char_def div4096 cont_def Let_def)
  next
    case 4
    have e: "c div 64 div 64 div 64 * 262144 + c div 64 div 64 mod 64 * 4096
        + c div 64 mod 64 * 64 + c mod 64 = c"
      using split64 [of c] split64 [of "c div 64"] split64 [of "c div 64 div 64"] by linarith
    from 4 e assms show ?thesis
      by (simp add: utf8_char_def div4096 div262144 cont_def Let_def)
  qed
qed

lemma decode_encode_nats: "scalars s \<Longrightarrow> utf8_decode_nats (utf8_nats s) = Some s"
  by (induction s) (simp_all add: utf8_nats_def decode_char_append)

lemma utf8_char_bytes: "is_scalar c \<Longrightarrow> list_all (\<lambda>b. b < 256) (utf8_char c)"
proof -
  assume "is_scalar c"
  then have bound: "c \<le> 0x10FFFF" by (simp add: is_scalar_def)
  have m: "x mod 64 < 128" for x :: nat
    by (rule less_trans [OF mod_less_divisor]) simp_all
  have d: "c div 262144 < 16" "c < 0x10000 \<Longrightarrow> c div 4096 < 32" "c < 0x800 \<Longrightarrow> c div 64 < 64"
    using bound by linarith+
  show ?thesis
    using d by (simp add: utf8_char_def m)
qed

lemma utf8_nats_bytes: "scalars s \<Longrightarrow> b \<in> set (utf8_nats s) \<Longrightarrow> b < 256"
  by (induction s) (auto simp: utf8_nats_def list_all_iff dest!: utf8_char_bytes)

lemma unat_of_nat_byte: "n < 256 \<Longrightarrow> unat (of_nat n :: byte) = n"
  by (simp add: unat_of_nat)

lemma utf8_decode_encode: "scalars s \<Longrightarrow> utf8_decode (utf8 s) = Some s"
proof -
  assume s: "scalars s"
  have "map (\<lambda>n. unat (of_nat n :: byte)) (utf8_nats s) = utf8_nats s"
    by (rule map_idI) (rule unat_of_nat_byte, rule utf8_nats_bytes [OF s])
  then have "map unat (utf8 s) = utf8_nats s"
    by (simp add: utf8_def comp_def)
  with s show ?thesis
    by (simp add: utf8_decode_def decode_encode_nats)
qed

lemma utf8_inj: "scalars s \<Longrightarrow> scalars t \<Longrightarrow> utf8 s = utf8 t \<Longrightarrow> s = t"
  by (metis utf8_decode_encode option.inject)

text \<open>The decoder is strict: what it reads is the encoding of scalar values and nothing else.\<close>

lemma div_mod_64:
  assumes "(c::nat) = q * 64 + r" "r < 64"
  shows "c div 64 = q" "c mod 64 = r"
  using assms by simp_all

lemma cont_sub: "cont b \<Longrightarrow> b - 0x80 < 64 \<and> 0x80 + (b - 0x80) = b"
  by (auto simp: cont_def)

lemma recombine2:
  assumes a: "0xC0 \<le> a" "a < 0xE0" and b: "cont b" and c: "c = (a - 0xC0) * 64 + (b - 0x80)" "0x80 \<le> c"
  shows "utf8_char c = [a, b]" "is_scalar c"
proof -
  note q = div_mod_64 [OF c(1) conjunct1 [OF cont_sub [OF b]]]
  have "c < 0x800" using a c(1) cont_sub [OF b] by linarith
  then show "utf8_char c = [a, b]" "is_scalar c"
    using a c(2) cont_sub [OF b] by (simp_all add: utf8_char_def q is_scalar_def is_surrogate_def)
qed

lemma recombine3:
  assumes a: "0xE0 \<le> a" "a < 0xF0" and b: "cont b" "cont b'"
    and c: "c = (a - 0xE0) * 4096 + (b - 0x80) * 64 + (b' - 0x80)" "0x800 \<le> c"
  shows "utf8_char c = [a, b, b']"
proof -
  have "c = ((a - 0xE0) * 64 + (b - 0x80)) * 64 + (b' - 0x80)"
    using c(1) by (simp add: algebra_simps)
  note q = div_mod_64 [OF this conjunct1 [OF cont_sub [OF b(2)]]]
  note q' = div_mod_64 [OF q(1) conjunct1 [OF cont_sub [OF b(1)]]]
  have "c < 0x10000" using a c(1) cont_sub [OF b(1)] cont_sub [OF b(2)] by linarith
  then show ?thesis
    using a c(2) cont_sub [OF b(1)] cont_sub [OF b(2)]
    by (simp add: utf8_char_def div4096 q(2) q')
qed

lemma recombine4:
  assumes a: "0xF0 \<le> a" and b: "cont b" "cont b'" "cont b''"
    and c: "c = (a - 0xF0) * 262144 + (b - 0x80) * 4096 + (b' - 0x80) * 64 + (b'' - 0x80)"
      "0x10000 \<le> c"
  shows "utf8_char c = [a, b, b', b'']"
proof -
  have "c = (((a - 0xF0) * 64 + (b - 0x80)) * 64 + (b' - 0x80)) * 64 + (b'' - 0x80)"
    using c(1) by (simp add: algebra_simps)
  note q = div_mod_64 [OF this conjunct1 [OF cont_sub [OF b(3)]]]
  note q' = div_mod_64 [OF q(1) conjunct1 [OF cont_sub [OF b(2)]]]
  note q'' = div_mod_64 [OF q'(1) conjunct1 [OF cont_sub [OF b(1)]]]
  show ?thesis
    using a c(2) cont_sub [OF b(1)] cont_sub [OF b(2)] cont_sub [OF b(3)]
    by (simp add: utf8_char_def div4096 div262144 q(2) q'(2) q'')
qed

lemma decode_nats_strict:
  "utf8_decode_nats bs = Some s \<Longrightarrow> scalars s \<and> utf8_nats s = bs"
proof (induction bs arbitrary: s rule: utf8_decode_nats.induct)
  case 1
  then show ?case by (simp add: utf8_nats_def)
next
  case (2 a bs)
  have nats_Cons: "utf8_nats (c # t) = utf8_char c @ utf8_nats t" for c t
    by (simp add: utf8_nats_def)
  consider "a < 0x80" | "0xC0 \<le> a" "a < 0xE0" | "0xE0 \<le> a" "a < 0xF0" | "0xF0 \<le> a"
    using "2.prems" by (force split: if_splits)
  then show ?case
  proof cases
    case 1
    with "2.prems" obtain t where "utf8_decode_nats bs = Some t" "s = a # t" by auto
    with 1 "2.IH"(1) show ?thesis
      by (simp add: nats_Cons utf8_char_def is_scalar_def is_surrogate_def)
  next
    case c2: 2
    with "2.prems" obtain b r c t where "bs = b # r" "cont b" "0x80 \<le> c"
      "c = (a - 0xC0) * 64 + (b - 0x80)" "utf8_decode_nats r = Some t" "s = c # t"
      by (auto simp: Let_def split: list.splits if_splits)
    with c2 "2.IH"(2) recombine2 [of a b c] show ?thesis
      by (simp add: nats_Cons)
  next
    case c3: 3
    with "2.prems" obtain b b' r c t where "bs = b # b' # r" "cont b" "cont b'" "0x800 \<le> c" "is_scalar c"
      "c = (a - 0xE0) * 4096 + (b - 0x80) * 64 + (b' - 0x80)" "utf8_decode_nats r = Some t" "s = c # t"
      by (auto simp: Let_def split: list.splits if_splits)
    with c3 "2.IH"(3) recombine3 [of a b b' c] show ?thesis
      by (simp add: nats_Cons)
  next
    case c4: 4
    with "2.prems" obtain b b' b'' r c t where "bs = b # b' # b'' # r" "cont b" "cont b'" "cont b''"
      "0x10000 \<le> c" "is_scalar c"
      "c = (a - 0xF0) * 262144 + (b - 0x80) * 4096 + (b' - 0x80) * 64 + (b'' - 0x80)"
      "utf8_decode_nats r = Some t" "s = c # t"
      by (auto simp: Let_def split: list.splits if_splits)
    with c4 "2.IH"(4) recombine4 [of a b b' b'' c] show ?thesis
      by (simp add: nats_Cons)
  qed
qed

lemma utf8_decode_strict:
  assumes "utf8_decode bs = Some s"
  shows "scalars s" "utf8 s = bs"
  using decode_nats_strict [of "map unat bs" s] assms
  by (auto simp: utf8_decode_def utf8_def comp_def)

section \<open>Hexadecimal digests\<close>

definition hex_digit :: "nat \<Rightarrow> nat" where
  "hex_digit n = (if n < 10 then 48 + n else 87 + n)"

definition hexlify :: "byte list \<Rightarrow> pystr" where
  "hexlify bs = concat (map (\<lambda>b. [hex_digit (unat b div 16), hex_digit (unat b mod 16)]) bs)"

lemma length_hexlify [simp]: "length (hexlify bs) = 2 * length bs"
  by (induction bs) (simp_all add: hexlify_def)

lemma hex_digit_inj: "m < 16 \<Longrightarrow> n < 16 \<Longrightarrow> hex_digit m = hex_digit n \<longleftrightarrow> m = n"
  by (auto simp: hex_digit_def)

lemma hexlify_inj: "hexlify as = hexlify bs \<Longrightarrow> as = bs"
proof (induction as arbitrary: bs)
  case Nil
  then show ?case by (cases bs) (simp_all add: hexlify_def)
next
  case (Cons a as)
  from Cons.prems obtain b bs' where bs: "bs = b # bs'"
    by (cases bs) (simp_all add: hexlify_def)
  have "unat x < 2 ^ LENGTH(8)" for x :: byte
    by (rule unsigned_less)
  then have lt: "unat x div 16 < 16" "unat x mod 16 < 16" for x :: byte
    by (simp_all add: less_mult_imp_div_less)
  from Cons.prems bs have "unat a div 16 = unat b div 16" "unat a mod 16 = unat b mod 16"
    and rest: "hexlify as = hexlify bs'"
    using hex_digit_inj lt by (simp_all add: hexlify_def)
  then have "unat a = unat b"
    by (metis div_mult_mod_eq)
  then have "a = b" by (simp only: word_unat_eq_iff)
  with bs Cons.IH [OF rest] show ?case by (simp only:)
qed

end
