(* ===== verification/Patterns.thy ===== *)
theory Patterns
  imports Text_Encoding
begin

text \<open>
  The regular expressions the SDK validates text with. Python's \<open>re.fullmatch\<close> and the anchored
  patterns pydantic compiles (\<open>^...$\<close>, the engine's \<open>$\<close> matching at the end of the text only) both ask
  whether the whole text is in the pattern's language. \<open>suffixes\<close> is the matcher (every way to match a
  prefix, giving what is left), \<open>in_lang\<close> the language; \<open>fullmatch_iff\<close> says they agree.
\<close>

datatype rx =
    Eps
  | Cls "nat \<Rightarrow> bool"
  | Seq rx rx
  | Alt rx rx
  | Many "nat \<Rightarrow> bool"

fun suffixes :: "rx \<Rightarrow> pystr \<Rightarrow> pystr list" where
  "suffixes Eps s = [s]"
| "suffixes (Cls P) s = (case s of [] \<Rightarrow> [] | c # t \<Rightarrow> if P c then [t] else [])"
| "suffixes (Seq a b) s = concat (map (suffixes b) (suffixes a s))"
| "suffixes (Alt a b) s = suffixes a s @ suffixes b s"
| "suffixes (Many P) [] = [[]]"
| "suffixes (Many P) (c # t) = (c # t) # (if P c then suffixes (Many P) t else [])"

definition fullmatch :: "rx \<Rightarrow> pystr \<Rightarrow> bool" where
  "fullmatch r s = list_ex (\<lambda>t. t = []) (suffixes r s)"

inductive in_lang :: "rx \<Rightarrow> pystr \<Rightarrow> bool" where
  eps: "in_lang Eps []"
| cls: "P c \<Longrightarrow> in_lang (Cls P) [c]"
| seq: "in_lang a s \<Longrightarrow> in_lang b t \<Longrightarrow> in_lang (Seq a b) (s @ t)"
| alt1: "in_lang a s \<Longrightarrow> in_lang (Alt a b) s"
| alt2: "in_lang b s \<Longrightarrow> in_lang (Alt a b) s"
| many: "list_all P s \<Longrightarrow> in_lang (Many P) s"

inductive_simps in_lang_Eps [simp]: "in_lang Eps s"
inductive_simps in_lang_Cls: "in_lang (Cls P) s"
inductive_simps in_lang_Seq: "in_lang (Seq a b) s"
inductive_simps in_lang_Alt [simp]: "in_lang (Alt a b) s"
inductive_simps in_lang_Many [simp]: "in_lang (Many P) s"

lemma in_lang_Seq_Cls_Nil [simp]: "\<not> in_lang (Seq (Cls P) b) []"
  by (auto simp: in_lang_Seq in_lang_Cls)

lemma in_lang_Seq_Cls [simp]: "in_lang (Seq (Cls P) b) (c # s) \<longleftrightarrow> P c \<and> in_lang b s"
proof
  assume "in_lang (Seq (Cls P) b) (c # s)"
  then show "P c \<and> in_lang b s"
    by (auto simp: in_lang_Seq in_lang_Cls)
next
  assume "P c \<and> in_lang b s"
  then show "in_lang (Seq (Cls P) b) (c # s)"
    using in_lang.seq [OF in_lang.cls [of P c], of b s] by simp
qed

lemmas in_lang_simps = in_lang_Eps in_lang_Cls in_lang_Seq in_lang_Alt in_lang_Many

lemma suffixes_Many:
  "t \<in> set (suffixes (Many P) s) \<longleftrightarrow> (\<exists>p. s = p @ t \<and> list_all P p)"
proof (induction s arbitrary: t)
  case Nil
  then show ?case by auto
next
  case (Cons c s)
  have "(\<exists>p. c # s = p @ t \<and> list_all P p) \<longleftrightarrow>
      t = c # s \<or> P c \<and> (\<exists>p. s = p @ t \<and> list_all P p)" (is "?l \<longleftrightarrow> ?r")
  proof
    assume ?l
    then obtain p where p: "c # s = p @ t" "list_all P p" by auto
    then show ?r by (cases p) auto
  next
    assume ?r
    then show ?l
    proof
      assume "t = c # s"
      then show ?l by (intro exI [of _ "[]"]) simp
    next
      assume "P c \<and> (\<exists>p. s = p @ t \<and> list_all P p)"
      then obtain p where "P c" "s = p @ t" "list_all P p" by auto
      then show ?l by (intro exI [of _ "c # p"]) simp
    qed
  qed
  with Cons.IH show ?case by auto
qed

lemma suffixes_iff: "t \<in> set (suffixes r s) \<longleftrightarrow> (\<exists>p. s = p @ t \<and> in_lang r p)"
proof (induction r arbitrary: s t)
  case (Cls P)
  then show ?case by (cases s) (auto simp: in_lang_Cls)
next
  case (Seq a b)
  have "t \<in> set (suffixes (Seq a b) s) \<longleftrightarrow>
      (\<exists>m. (\<exists>p. s = p @ m \<and> in_lang a p) \<and> (\<exists>q. m = q @ t \<and> in_lang b q))"
    by (auto simp: Seq.IH)
  also have "\<dots> \<longleftrightarrow> (\<exists>w. s = w @ t \<and> in_lang (Seq a b) w)"
    unfolding in_lang_Seq by (metis append.assoc)
  finally show ?case .
next
  case (Many P)
  then show ?case by (simp only: suffixes_Many in_lang_Many)
qed auto

lemma fullmatch_iff: "fullmatch r s \<longleftrightarrow> in_lang r s"
proof -
  have "fullmatch r s \<longleftrightarrow> [] \<in> set (suffixes r s)"
    by (auto simp: fullmatch_def list_ex_iff)
  then show ?thesis by (simp add: suffixes_iff)
qed

section \<open>Building patterns\<close>

fun rep :: "nat \<Rightarrow> rx \<Rightarrow> rx" where
  "rep 0 r = Eps"
| "rep (Suc n) r = Seq r (rep n r)"

definition seqs :: "rx list \<Rightarrow> rx" where
  "seqs rs = foldr Seq rs Eps"

fun alts :: "rx list \<Rightarrow> rx" where
  "alts [] = Cls (\<lambda>_. False)"
| "alts [r] = r"
| "alts (r # rs) = Alt r (alts rs)"

definition some_of :: "(nat \<Rightarrow> bool) \<Rightarrow> rx" where
  "some_of P = Seq (Cls P) (Many P)"

definition opt :: "rx \<Rightarrow> rx" where
  "opt r = Alt r Eps"

definition lit :: "string \<Rightarrow> rx" where
  "lit s = seqs (map (\<lambda>c. Cls ((=) c)) (ustr s))"

definition one_of :: "string \<Rightarrow> rx" where
  "one_of s = Cls (\<lambda>c. c \<in> set (ustr s))"

definition between :: "char \<Rightarrow> char \<Rightarrow> nat \<Rightarrow> bool" where
  "between a b c = (of_char a \<le> c \<and> c \<le> of_char b)"

definition is_digit :: "nat \<Rightarrow> bool" where
  "is_digit = between CHR ''0'' CHR ''9''"

definition is_lower_hex :: "nat \<Rightarrow> bool" where
  "is_lower_hex c = (is_digit c \<or> between CHR ''a'' CHR ''f'' c)"

definition is_any_hex :: "nat \<Rightarrow> bool" where
  "is_any_hex c = (is_lower_hex c \<or> between CHR ''A'' CHR ''F'' c)"

definition is_alnum :: "nat \<Rightarrow> bool" where
  "is_alnum c = (between CHR ''A'' CHR ''Z'' c \<or> between CHR ''a'' CHR ''z'' c \<or> is_digit c)"

text \<open>\<open>[A-Za-z0-9_-]\<close>, the base64url alphabet, and \<open>[A-Za-z0-9+/]\<close>, the standard one.\<close>

definition is_b64url :: "nat \<Rightarrow> bool" where
  "is_b64url c = (is_alnum c \<or> c \<in> set (ustr ''_-''))"

definition is_b64std :: "nat \<Rightarrow> bool" where
  "is_b64std c = (is_alnum c \<or> c \<in> set (ustr ''+/''))"

section \<open>Inclusion of patterns\<close>

definition rx_le :: "rx \<Rightarrow> rx \<Rightarrow> bool" where
  "rx_le r q = (\<forall>s. in_lang r s \<longrightarrow> in_lang q s)"

lemma rx_leD: "rx_le r q \<Longrightarrow> fullmatch r s \<Longrightarrow> fullmatch q s"
  by (simp add: rx_le_def fullmatch_iff)

lemma rx_le_refl [intro, simp]: "rx_le r r"
  by (simp add: rx_le_def)

lemma rx_le_trans: "rx_le r q \<Longrightarrow> rx_le q p \<Longrightarrow> rx_le r p"
  by (simp add: rx_le_def)

lemma rx_le_Cls: "(\<And>c. P c \<Longrightarrow> Q c) \<Longrightarrow> rx_le (Cls P) (Cls Q)"
  by (auto simp: rx_le_def in_lang_Cls)

lemma rx_le_Seq: "rx_le a a' \<Longrightarrow> rx_le b b' \<Longrightarrow> rx_le (Seq a b) (Seq a' b')"
  by (fastforce simp: rx_le_def in_lang_Seq)

lemma rx_le_Alt: "rx_le a a' \<Longrightarrow> rx_le b b' \<Longrightarrow> rx_le (Alt a b) (Alt a' b')"
  by (auto simp: rx_le_def)

lemma rx_le_Alt1: "rx_le r a \<Longrightarrow> rx_le r (Alt a b)"
  by (auto simp: rx_le_def)

lemma rx_le_Alt2: "rx_le r b \<Longrightarrow> rx_le r (Alt a b)"
  by (auto simp: rx_le_def)

lemma rx_le_rep: "rx_le r q \<Longrightarrow> rx_le (rep n r) (rep n q)"
  by (induction n) (auto intro: rx_le_Seq)

lemma in_lang_rep_Cls: "in_lang (rep n (Cls P)) s \<longleftrightarrow> length s = n \<and> list_all P s"
proof (induction n arbitrary: s)
  case (Suc n)
  show ?case
    by (cases s) (auto simp: Suc.IH)
qed auto

lemma in_lang_some_of: "in_lang (some_of P) s \<longleftrightarrow> s \<noteq> [] \<and> list_all P s"
  by (cases s) (auto simp: some_of_def)

end
