(* ===== verification/Codec.thy ===== *)
theory Codec
  imports Patterns
begin

text \<open>
  \<open>src/auditable_mcp/encoding.py\<close>: base64url without padding and standard base64 with padding, as
  strict decoders. Both rest on the standard library's \<open>base64\<close> module: three bytes are four
  6-bit digits, a last group of one or two bytes is two or three digits, padded with \<open>=\<close>.

  The contract the rest of the SDK relies on is the locale \<open>strict_codec\<close>: an encoder and a decoder
  that reads back what was encoded and nothing else, so a value has exactly one encoding.
\<close>

section \<open>The contract of a strict codec\<close>

locale strict_codec =
  fixes enc :: "'a \<Rightarrow> 'b"
    and dec :: "'b \<Rightarrow> 'a option"
    and ok :: "'a \<Rightarrow> bool"
  assumes dec_enc: "ok x \<Longrightarrow> dec (enc x) = Some x"
    and dec_strict: "dec y = Some x \<Longrightarrow> ok x \<and> enc x = y"
begin

lemma dec_iff: "dec y = Some x \<longleftrightarrow> ok x \<and> y = enc x"
  using dec_enc dec_strict by blast

lemma one_encoding: "dec y = Some x \<Longrightarrow> dec y' = Some x \<Longrightarrow> y = y'"
  by (simp add: dec_iff)

lemma enc_inj: "ok x \<Longrightarrow> ok x' \<Longrightarrow> enc x = enc x' \<Longrightarrow> x = x'"
  by (metis dec_enc option.inject)

lemma dec_None: "dec y = None \<longleftrightarrow> (\<forall>x. ok x \<longrightarrow> y \<noteq> enc x)"
  by (metis dec_iff not_None_eq)

end

interpretation utf8_codec: strict_codec utf8 utf8_decode scalars
  by unfold_locales (simp_all add: utf8_decode_encode utf8_decode_strict)

section \<open>6-bit digits\<close>

definition b64_char :: "string \<Rightarrow> nat \<Rightarrow> nat" where
  "b64_char extra n =
     (if n < 26 then 65 + n else if n < 52 then 71 + n else if n < 62 then 48 + (n - 52)
      else if n = 62 then ustr extra ! 0 else ustr extra ! 1)"

definition b64_value :: "string \<Rightarrow> nat \<Rightarrow> nat" where
  "b64_value extra c =
     (if 65 \<le> c \<and> c \<le> 90 then c - 65 else if 97 \<le> c \<and> c \<le> 122 then c - 71
      else if 48 \<le> c \<and> c \<le> 57 then c + 4
      else if c = ustr extra ! 0 then 62 else 63)"

fun digits_of_bytes :: "byte list \<Rightarrow> nat list" where
  "digits_of_bytes [] = []"
| "digits_of_bytes [a] = [unat a div 4, unat a mod 4 * 16]"
| "digits_of_bytes [a, b] = [unat a div 4, unat a mod 4 * 16 + unat b div 16, unat b mod 16 * 4]"
| "digits_of_bytes (a # b # c # r) =
     [unat a div 4, unat a mod 4 * 16 + unat b div 16, unat b mod 16 * 4 + unat c div 64, unat c mod 64]
     @ digits_of_bytes r"

text \<open>The decoder drops the bits of the last digit that belong to no byte; one digit alone is an error.\<close>

fun bytes_of_digits :: "nat list \<Rightarrow> byte list option" where
  "bytes_of_digits [] = Some []"
| "bytes_of_digits [p] = None"
| "bytes_of_digits [p, q] = Some [of_nat (p * 4 + q div 16)]"
| "bytes_of_digits [p, q, r] =
     Some [of_nat (p * 4 + q div 16), of_nat (q mod 16 * 16 + r div 4)]"
| "bytes_of_digits (p # q # r # t # ds) =
     map_option (\<lambda>bs. [of_nat (p * 4 + q div 16), of_nat (q mod 16 * 16 + r div 4),
       of_nat (r mod 4 * 64 + t)] @ bs) (bytes_of_digits ds)"

definition pad_char :: nat where
  "pad_char = 61"

definition padding :: "nat \<Rightarrow> pystr" where
  "padding n = replicate ((4 - n mod 4) mod 4) pad_char"

text \<open>\<open>base64.b64encode\<close> and \<open>base64.urlsafe_b64encode\<close>, up to the two last digits of the alphabet.\<close>

definition base64_encode :: "string \<Rightarrow> byte list \<Rightarrow> pystr" where
  "base64_encode extra raw =
     (let ds = digits_of_bytes raw in map (b64_char extra) ds @ padding (length ds))"

text \<open>\<open>base64.b64decode\<close> on text whose characters are of the alphabet, with trailing padding.\<close>

definition base64_decode :: "string \<Rightarrow> pystr \<Rightarrow> byte list option" where
  "base64_decode extra s = bytes_of_digits (map (b64_value extra) (takeWhile (\<lambda>c. c \<noteq> pad_char) s))"

definition rstrip :: "nat \<Rightarrow> pystr \<Rightarrow> pystr" where
  "rstrip c s = rev (dropWhile (\<lambda>x. x = c) (rev s))"

section \<open>The encoders and decoders of the module\<close>

definition b64url_encode :: "byte list \<Rightarrow> pystr" where
  "b64url_encode raw = rstrip pad_char (base64_encode ''-_'' raw)"

definition ALPHABET :: rx where
  "ALPHABET = Many is_b64url"

definition STANDARD :: rx where
  "STANDARD = Seq (some_of is_b64std) (Seq (opt (lit ''='')) (opt (lit ''='')))"

definition b64url_decode :: "json \<Rightarrow> byte list option" where
  "b64url_decode value =
     (case value of
        JStr s \<Rightarrow>
          if \<not> fullmatch ALPHABET s \<or> length s mod 4 = 1 then None
          else (case base64_decode ''-_'' (s @ padding (length s)) of
              None \<Rightarrow> None
            | Some raw \<Rightarrow> if b64url_encode raw = s then Some raw else None)
      | _ \<Rightarrow> None)"

definition b64_standard_decode :: "json \<Rightarrow> byte list option" where
  "b64_standard_decode value =
     (case value of
        JStr s \<Rightarrow>
          if \<not> fullmatch STANDARD s \<or> length s mod 4 \<noteq> 0 then None
          else (case base64_decode ''+/'' s of
              None \<Rightarrow> None
            | Some raw \<Rightarrow> if base64_encode ''+/'' raw = s then Some raw else None)
      | _ \<Rightarrow> None)"

section \<open>Digits and bytes are inverse\<close>

lemma unat_byte: "unat (b::byte) < 256"
proof -
  have "unat b < 2 ^ LENGTH(8)" by (rule unsigned_less)
  then show ?thesis by simp
qed

lemma extra_chars:
  "ustr ''-_'' ! 0 = 45" "ustr ''-_'' ! Suc 0 = 95" "ustr ''+/'' ! 0 = 43" "ustr ''+/'' ! Suc 0 = 47"
  by (simp_all add: ustr_def)

lemma b64_value_char_extra:
  assumes "n < 64" and e: "ustr extra ! 0 = x" "ustr extra ! Suc 0 = y"
    and "x < 48" "y < 48 \<or> y = 95" "x \<noteq> y"
  shows "b64_value extra (b64_char extra n) = n"
proof -
  consider "n < 26" | "26 \<le> n" "n < 52" | "52 \<le> n" "n < 62" | "n = 62" | "n = 63"
    using assms(1) by linarith
  then show ?thesis
    using assms(4-) by cases (auto simp: b64_char_def b64_value_def e)
qed

lemma b64_value_char:
  assumes "n < 64" "extra = ''-_'' \<or> extra = ''+/''"
  shows "b64_value extra (b64_char extra n) = n"
  using assms(2) by (elim disjE) (simp_all add: b64_value_char_extra [OF assms(1)] extra_chars)

lemma b64_char_not_pad:
  assumes "extra = ''-_'' \<or> extra = ''+/''"
  shows "b64_char extra n \<noteq> pad_char"
proof -
  have "ustr extra ! 0 \<noteq> 61" "ustr extra ! Suc 0 \<noteq> 61"
    using assms by (auto simp: extra_chars)
  then show ?thesis unfolding b64_char_def pad_char_def by simp linarith
qed

lemma is_alnum_iff: "is_alnum c \<longleftrightarrow> 65 \<le> c \<and> c \<le> 90 \<or> 97 \<le> c \<and> c \<le> 122 \<or> 48 \<le> c \<and> c \<le> 57"
  by (simp add: is_alnum_def between_def is_digit_def)

lemma b64_char_url: "n < 64 \<Longrightarrow> is_b64url (b64_char ''-_'' n)"
  by (simp add: is_b64url_def is_alnum_iff b64_char_def ustr_def) linarith

lemma b64_char_std: "n < 64 \<Longrightarrow> is_b64std (b64_char ''+/'' n)"
  by (simp add: is_b64std_def is_alnum_iff b64_char_def ustr_def) linarith

lemma digit_bounds:
  fixes a b c :: nat
  assumes "a < 256" "b < 256" "c < 256"
  shows "a div 4 < 64" "a mod 4 * 16 < 64" "a mod 4 * 16 + b div 16 < 64" "b mod 16 * 4 < 64"
    "b mod 16 * 4 + c div 64 < 64" "c mod 64 < 64"
proof -
  have "a mod 4 < 4" "b mod 16 < 16" "b div 16 < 16" "c div 64 < 4"
    using assms by linarith+
  then show "a div 4 < 64" "a mod 4 * 16 < 64" "a mod 4 * 16 + b div 16 < 64" "b mod 16 * 4 < 64"
    "b mod 16 * 4 + c div 64 < 64" "c mod 64 < 64"
    using assms by linarith+
qed

lemma digits_of_bytes_bound: "list_all (\<lambda>d. d < 64) (digits_of_bytes raw)"
  by (induction raw rule: digits_of_bytes.induct)
    (simp_all only: digits_of_bytes.simps list.pred_inject append.simps simp_thms
      digit_bounds [OF unat_byte unat_byte unat_byte])

lemma regroup:
  fixes a b c :: nat
  assumes "b < 256" "c < 256"
  shows "a div 4 * 4 + (a mod 4 * 16 + b div 16) div 16 = a"
    "a div 4 * 4 + a mod 4 * 16 div 16 = a"
    "(a mod 4 * 16 + b div 16) mod 16 * 16 + (b mod 16 * 4 + c div 64) div 4 = b"
    "(a mod 4 * 16 + b div 16) mod 16 * 16 + b mod 16 * 4 div 4 = b"
    "(b mod 16 * 4 + c div 64) mod 4 * 64 + c mod 64 = c"
proof -
  have "b div 16 < 16" "c div 64 < 4" using assms by linarith+
  then show "a div 4 * 4 + (a mod 4 * 16 + b div 16) div 16 = a"
    "a div 4 * 4 + a mod 4 * 16 div 16 = a"
    "(a mod 4 * 16 + b div 16) mod 16 * 16 + (b mod 16 * 4 + c div 64) div 4 = b"
    "(a mod 4 * 16 + b div 16) mod 16 * 16 + b mod 16 * 4 div 4 = b"
    "(b mod 16 * 4 + c div 64) mod 4 * 64 + c mod 64 = c"
    by simp_all
qed

lemma of_nat_unat_byte: "of_nat (unat (b::byte)) = b"
  by simp

lemma bytes_of_digits_of_bytes: "bytes_of_digits (digits_of_bytes raw) = Some raw"
  by (induction raw rule: digits_of_bytes.induct)
    (simp_all only: digits_of_bytes.simps bytes_of_digits.simps append.simps
      regroup [OF unat_byte unat_byte] of_nat_unat_byte option.map)

section \<open>Round trips\<close>

lemma digits_length: "length (digits_of_bytes raw) mod 4 \<noteq> 1"
  by (induction raw rule: digits_of_bytes.induct) simp_all

lemma digits_Nil: "digits_of_bytes raw = [] \<longleftrightarrow> raw = []"
  by (cases raw rule: digits_of_bytes.cases) simp_all

lemma rstrip_append: "c \<notin> set xs \<Longrightarrow> rstrip c (xs @ replicate n c) = xs"
proof (induction n)
  case 0
  then show ?case by (cases xs rule: rev_cases) (auto simp: rstrip_def)
next
  case (Suc n)
  have eq: "rev (xs @ replicate (Suc n) c) = c # rev (xs @ replicate n c)"
    by (simp add: replicate_append_same)
  have "rstrip c (xs @ replicate (Suc n) c) = rstrip c (xs @ replicate n c)"
    unfolding rstrip_def eq by simp
  with Suc show ?case by simp
qed

lemma no_pad_in_digits:
  "extra = ''-_'' \<or> extra = ''+/'' \<Longrightarrow> pad_char \<notin> set (map (b64_char extra) ds)"
  using b64_char_not_pad by (metis (no_types, lifting) imageE set_map)

lemma b64url_encode_digits: "b64url_encode raw = map (b64_char ''-_'') (digits_of_bytes raw)"
  by (simp add: b64url_encode_def base64_encode_def Let_def padding_def rstrip_append no_pad_in_digits
      del: set_map)

lemma base64_decode_digits:
  assumes "extra = ''-_'' \<or> extra = ''+/''"
  shows "base64_decode extra (map (b64_char extra) (digits_of_bytes raw) @ padding n) = Some raw"
proof -
  have "takeWhile (\<lambda>c. c \<noteq> pad_char) (map (b64_char extra) (digits_of_bytes raw) @ padding n)
      = map (b64_char extra) (digits_of_bytes raw)"
    using b64_char_not_pad [OF assms]
    by (subst takeWhile_append2) (auto simp: padding_def takeWhile_replicate)
  moreover have "map (b64_value extra) (map (b64_char extra) (digits_of_bytes raw)) = digits_of_bytes raw"
    using digits_of_bytes_bound [of raw] b64_value_char [OF _ assms]
    by (auto simp: list_all_iff intro: map_idI)
  ultimately show ?thesis
    by (simp add: base64_decode_def bytes_of_digits_of_bytes del: map_map)
qed

lemma b64url_roundtrip: "b64url_decode (JStr (b64url_encode raw)) = Some raw"
proof -
  have "fullmatch ALPHABET (b64url_encode raw)"
    using digits_of_bytes_bound [of raw]
    by (auto simp: fullmatch_iff ALPHABET_def b64url_encode_digits list_all_iff b64_char_url)
  moreover have "length (b64url_encode raw) mod 4 \<noteq> 1"
    using digits_length by (simp add: b64url_encode_digits)
  moreover have "base64_decode ''-_'' (b64url_encode raw @ padding (length (b64url_encode raw))) = Some raw"
    by (simp add: b64url_encode_digits base64_decode_digits)
  ultimately show ?thesis
    by (simp add: b64url_decode_def)
qed

lemma b64url_strict: "b64url_decode v = Some raw \<Longrightarrow> JStr (b64url_encode raw) = v"
  by (auto simp: b64url_decode_def split: json.splits option.splits if_splits)

lemma in_lang_opt_pad:
  "in_lang (Seq (opt (lit ''='')) (opt (lit ''=''))) s \<longleftrightarrow> s = [] \<or> s = [pad_char] \<or> s = [pad_char, pad_char]"
proof
  assume "in_lang (Seq (opt (lit ''='')) (opt (lit ''=''))) s"
  then show "s = [] \<or> s = [pad_char] \<or> s = [pad_char, pad_char]"
    by (auto simp: opt_def lit_def seqs_def ustr_def in_lang_Seq in_lang_Cls pad_char_def)
next
  have o: "in_lang (opt (lit ''='')) []" "in_lang (opt (lit ''='')) [pad_char]"
    by (simp_all add: opt_def lit_def seqs_def ustr_def pad_char_def)
  assume "s = [] \<or> s = [pad_char] \<or> s = [pad_char, pad_char]"
  then show "in_lang (Seq (opt (lit ''='')) (opt (lit ''=''))) s"
    using in_lang.seq [OF o(1) o(1)] in_lang.seq [OF o(1) o(2)] in_lang.seq [OF o(2) o(2)] by auto
qed

lemma standard_match:
  assumes "ds \<noteq> []" "list_all is_b64std (map f ds)" "length ds mod 4 \<noteq> 1"
  shows "fullmatch STANDARD (map f ds @ padding (length ds))"
proof -
  have "length ds mod 4 = 0 \<or> length ds mod 4 = 2 \<or> length ds mod 4 = 3"
    using assms(3) by presburger
  then have "in_lang (Seq (opt (lit ''='')) (opt (lit ''=''))) (padding (length ds))"
    unfolding in_lang_opt_pad padding_def by (auto simp: numeral_2_eq_2)
  moreover have "in_lang (some_of is_b64std) (map f ds)"
    using assms by (simp add: in_lang_some_of)
  ultimately show ?thesis
    by (simp add: fullmatch_iff STANDARD_def in_lang.seq)
qed

lemma padded_length: "(n + (4 - n mod 4) mod 4) mod 4 = (0::nat)"
proof -
  have "n mod 4 = 0 \<or> n mod 4 = 1 \<or> n mod 4 = 2 \<or> n mod 4 = 3" by linarith
  moreover have "(n + (4 - n mod 4) mod 4) mod 4 = (n mod 4 + (4 - n mod 4) mod 4) mod 4"
    by (simp only: mod_add_left_eq)
  ultimately show ?thesis by (elim disjE) simp_all
qed

lemma b64_standard_roundtrip:
  assumes "raw \<noteq> []"
  shows "b64_standard_decode (JStr (base64_encode ''+/'' raw)) = Some raw"
proof -
  let ?ds = "digits_of_bytes raw"
  have enc: "base64_encode ''+/'' raw = map (b64_char ''+/'') ?ds @ padding (length ?ds)"
    by (simp add: base64_encode_def Let_def)
  have "fullmatch STANDARD (base64_encode ''+/'' raw)"
    unfolding enc using assms digits_of_bytes_bound [of raw]
    by (intro standard_match) (use digits_length in \<open>auto simp: digits_Nil list_all_iff b64_char_std\<close>)
  moreover have "length (base64_encode ''+/'' raw) mod 4 = 0"
    unfolding enc by (simp add: padding_def padded_length)
  moreover have "base64_decode ''+/'' (base64_encode ''+/'' raw) = Some raw"
    unfolding enc by (simp add: base64_decode_digits)
  ultimately show ?thesis
    by (simp add: b64_standard_decode_def)
qed

lemma b64_standard_strict:
  assumes "b64_standard_decode v = Some raw"
  shows "raw \<noteq> []" "JStr (base64_encode ''+/'' raw) = v"
proof -
  from assms obtain s where s: "v = JStr s" "fullmatch STANDARD s" "base64_encode ''+/'' raw = s"
    by (auto simp: b64_standard_decode_def split: json.splits option.splits if_splits)
  then show "JStr (base64_encode ''+/'' raw) = v" by simp
  show "raw \<noteq> []"
  proof
    assume "raw = []"
    with s(3) have "s = []" by (simp add: base64_encode_def padding_def)
    with s(2) show False
      by (auto simp: fullmatch_iff STANDARD_def in_lang_Seq [of _ _ "[]"] in_lang_some_of)
  qed
qed

interpretation b64url: strict_codec "\<lambda>raw. JStr (b64url_encode raw)" b64url_decode "\<lambda>_. True"
  by unfold_locales (simp_all add: b64url_roundtrip b64url_strict)

interpretation b64std: strict_codec "\<lambda>raw. JStr (base64_encode ''+/'' raw)" b64_standard_decode "\<lambda>raw. raw \<noteq> []"
  by unfold_locales (simp_all add: b64_standard_roundtrip b64_standard_strict)

end
