(* ===== verification/Vocabulary.thy ===== *)
theory Vocabulary
  imports Prelude
begin

text \<open>
  \<open>src/auditable_mcp/fields.py\<close> and \<open>reasons.py\<close>: the wire member names and the reason and anomaly
  codes, with the closed enumerations of \<open>models.py\<close>. Every code is one constructor; \<open>code_str\<close> is
  the string it is written as, and the three code spaces (reject, abort, anomaly) are subsets.
\<close>

section \<open>Member names\<close>

abbreviation ID :: pystr where "ID \<equiv> ustr ''id''"
abbreviation SPEC_VERSION_F :: pystr where "SPEC_VERSION_F \<equiv> ustr ''spec_version''"
abbreviation TS :: pystr where "TS \<equiv> ustr ''ts''"
abbreviation SESSION_ID :: pystr where "SESSION_ID \<equiv> ustr ''session_id''"
abbreviation TRACEPARENT :: pystr where "TRACEPARENT \<equiv> ustr ''traceparent''"
abbreviation ACTION_TYPE :: pystr where "ACTION_TYPE \<equiv> ustr ''action_type''"
abbreviation MUTATES :: pystr where "MUTATES \<equiv> ustr ''mutates''"
abbreviation EGRESS :: pystr where "EGRESS \<equiv> ustr ''egress''"
abbreviation TARGET_RESOURCE :: pystr where "TARGET_RESOURCE \<equiv> ustr ''target_resource''"
abbreviation OUTCOME :: pystr where "OUTCOME \<equiv> ustr ''outcome''"
abbreviation REASON :: pystr where "REASON \<equiv> ustr ''reason''"
abbreviation ACTION_CONTEXT :: pystr where "ACTION_CONTEXT \<equiv> ustr ''action_context''"
abbreviation ACTION_CONTEXT_HASH :: pystr where "ACTION_CONTEXT_HASH \<equiv> ustr ''action_context_hash''"
abbreviation ACTION_CONTEXT_SALTED_HASH :: pystr where
  "ACTION_CONTEXT_SALTED_HASH \<equiv> ustr ''action_context_salted_hash''"
abbreviation SIGNER_SEQ :: pystr where "SIGNER_SEQ \<equiv> ustr ''signer_seq''"
abbreviation KEY_ID :: pystr where "KEY_ID \<equiv> ustr ''key_id''"
abbreviation SIGNATURE :: pystr where "SIGNATURE \<equiv> ustr ''signature''"
abbreviation KIND :: pystr where "KIND \<equiv> ustr ''kind''"
abbreviation REF :: pystr where "REF \<equiv> ustr ''ref''"
abbreviation SCOPE_HINT :: pystr where "SCOPE_HINT \<equiv> ustr ''scope_hint''"
abbreviation SEQ :: pystr where "SEQ \<equiv> ustr ''seq''"
abbreviation RECORD_HASH :: pystr where "RECORD_HASH \<equiv> ustr ''record_hash''"
abbreviation HOST_TS :: pystr where "HOST_TS \<equiv> ustr ''host_ts''"
abbreviation PREVIOUS_HASH :: pystr where "PREVIOUS_HASH \<equiv> ustr ''previous_hash''"
abbreviation HOST_SIGNATURE :: pystr where "HOST_SIGNATURE \<equiv> ustr ''host_signature''"
abbreviation HOST_KEY_ID :: pystr where "HOST_KEY_ID \<equiv> ustr ''host_key_id''"
abbreviation LOG_ID :: pystr where "LOG_ID \<equiv> ustr ''log_id''"
abbreviation LEVEL :: pystr where "LEVEL \<equiv> ustr ''level''"
abbreviation ATTEMPT :: pystr where "ATTEMPT \<equiv> ustr ''attempt''"
abbreviation COUNTERSIGN :: pystr where "COUNTERSIGN \<equiv> ustr ''countersign''"

section \<open>Reason and anomaly codes\<close>

datatype code =
    SCHEMA_INVALID | REPLAY_DETECTED | SIGNATURE_INVALID | L2_UNSIGNED | UNKNOWN_KEY | INTERNAL_ERROR
  | HASH_MISMATCH | HOST_REJECTED | HOST_UNAVAILABLE | HOST_UNCOUNTERSIGNED | HOST_SIGNATURE_INVALID
  | RECORD_HASH_MISMATCH | DIGEST_MISMATCH | PRINCIPAL_MISMATCH | SEQ_GAP | SIGNER_SEQ_GAP
  | ORPHANED_OUTCOME | UNRESOLVED_ATTEMPT | UNREPORTED_EGRESS

fun code_str :: "code \<Rightarrow> pystr" where
  "code_str SCHEMA_INVALID = ustr ''schema-invalid''"
| "code_str REPLAY_DETECTED = ustr ''replay-detected''"
| "code_str SIGNATURE_INVALID = ustr ''signature-invalid''"
| "code_str L2_UNSIGNED = ustr ''l2-unsigned''"
| "code_str UNKNOWN_KEY = ustr ''unknown-key''"
| "code_str INTERNAL_ERROR = ustr ''internal-error''"
| "code_str HASH_MISMATCH = ustr ''hash-mismatch''"
| "code_str HOST_REJECTED = ustr ''host-rejected''"
| "code_str HOST_UNAVAILABLE = ustr ''host-unavailable''"
| "code_str HOST_UNCOUNTERSIGNED = ustr ''host-uncountersigned''"
| "code_str HOST_SIGNATURE_INVALID = ustr ''host-signature-invalid''"
| "code_str RECORD_HASH_MISMATCH = ustr ''record-hash-mismatch''"
| "code_str DIGEST_MISMATCH = ustr ''digest-mismatch''"
| "code_str PRINCIPAL_MISMATCH = ustr ''principal-mismatch''"
| "code_str SEQ_GAP = ustr ''seq-gap''"
| "code_str SIGNER_SEQ_GAP = ustr ''signer-seq-gap''"
| "code_str ORPHANED_OUTCOME = ustr ''orphaned-outcome''"
| "code_str UNRESOLVED_ATTEMPT = ustr ''unresolved-attempt''"
| "code_str UNREPORTED_EGRESS = ustr ''unreported-egress''"

definition reject_reasons :: "code list" where
  "reject_reasons = [SCHEMA_INVALID, REPLAY_DETECTED, SIGNATURE_INVALID, L2_UNSIGNED, UNKNOWN_KEY]"

definition abort_reasons :: "code list" where
  "abort_reasons = [HASH_MISMATCH, HOST_REJECTED, HOST_UNAVAILABLE, HOST_UNCOUNTERSIGNED, HOST_SIGNATURE_INVALID]"

definition anomaly_kinds :: "code list" where
  "anomaly_kinds = [SCHEMA_INVALID, SIGNATURE_INVALID, REPLAY_DETECTED, HOST_SIGNATURE_INVALID,
     RECORD_HASH_MISMATCH, DIGEST_MISMATCH, PRINCIPAL_MISMATCH, SEQ_GAP, SIGNER_SEQ_GAP,
     ORPHANED_OUTCOME, UNRESOLVED_ATTEMPT, UNREPORTED_EGRESS]"

lemma code_str_inj [simp]: "code_str a = code_str b \<longleftrightarrow> a = b"
  by (cases a; cases b) simp_all

section \<open>Closed enumerations\<close>

datatype outcome = ATTEMPTED | SUCCESS | FAILED | ABORTED

fun outcome_str :: "outcome \<Rightarrow> pystr" where
  "outcome_str ATTEMPTED = ustr ''attempted''"
| "outcome_str SUCCESS = ustr ''success''"
| "outcome_str FAILED = ustr ''failed''"
| "outcome_str ABORTED = ustr ''aborted''"

definition outcomes_all :: "outcome list" where
  "outcomes_all = [ATTEMPTED, SUCCESS, FAILED, ABORTED]"

lemma outcome_str_inj [simp]: "outcome_str a = outcome_str b \<longleftrightarrow> a = b"
  by (cases a; cases b) simp_all

datatype level = L1 | L2

fun level_str :: "level \<Rightarrow> pystr" where
  "level_str L1 = ustr ''L1''"
| "level_str L2 = ustr ''L2''"

datatype countersign = CS_NONE | CS_HOST

fun countersign_str :: "countersign \<Rightarrow> pystr" where
  "countersign_str CS_NONE = ustr ''none''"
| "countersign_str CS_HOST = ustr ''host''"

datatype status = ACCEPT | REJECT | UNAVAILABLE

fun status_str :: "status \<Rightarrow> pystr" where
  "status_str ACCEPT = ustr ''accept''"
| "status_str REJECT = ustr ''reject''"
| "status_str UNAVAILABLE = ustr ''unavailable''"

text \<open>\<open>event.get(fields.OUTCOME) == Outcome.X\<close>.\<close>

definition outcome_is :: "jobj \<Rightarrow> outcome \<Rightarrow> bool" where
  "outcome_is event x = (dget event OUTCOME = JStr (outcome_str x))"

lemma outcome_is_unique: "outcome_is e x \<Longrightarrow> outcome_is e y \<Longrightarrow> x = y"
  by (simp add: outcome_is_def)

end
