(* ===== verification/Canonical.thy ===== *)
theory Canonical
  imports Text_Encoding
begin

text \<open>
  \<open>src/auditable_mcp/canonical.py\<close> and \<open>hashing.py\<close>: the canonicalization domain, RFC 8785
  canonicalization, SHA-256 in hexadecimal, the record-hash preimage and the countersignature payload.

  The functions the SDK calls outside its own source are the fields of \<open>lib\<close>: \<open>jcs\<close> is
  \<open>rfc8785.dumps\<close> (\<open>None\<close> when it raises), \<open>sha256\<close> is \<open>hashlib.sha256(...).digest()\<close>, \<open>is_nd\<close> is
  the decimal-digit class \<open>\d\<close> of the regular-expression engine pydantic uses, and \<open>float_text\<close> and
  \<open>float_read\<close> are \<open>repr\<close> and \<open>float\<close> of Python's floats. Every theorem below
  holds for any of them unless it names a hypothesis.
\<close>

record lib =
  jcs :: "json \<Rightarrow> byte list option"
  sha256 :: "byte list \<Rightarrow> byte list"
  is_nd :: "nat \<Rightarrow> bool"
  float_text :: "pyfloat \<Rightarrow> pystr"
  float_read :: "pystr \<Rightarrow> pyfloat"

section \<open>The canonicalization domain\<close>

definition MAX_SAFE_INTEGER :: int where
  "MAX_SAFE_INTEGER = 2 ^ 53 - 1"

fun has_unsafe_number :: "json \<Rightarrow> bool" where
  "has_unsafe_number (JBool b) = False"
| "has_unsafe_number (JInt n) = (abs n > MAX_SAFE_INTEGER)"
| "has_unsafe_number (JFloat f) =
     (\<not> float_is_finite f \<or> float_is_integer f \<and> abs (int_of_float f) > MAX_SAFE_INTEGER)"
| "has_unsafe_number (JDict d) = list_ex (\<lambda>kv. has_unsafe_number (snd kv)) d"
| "has_unsafe_number (JList xs) = list_ex has_unsafe_number xs"
| "has_unsafe_number JNull = False"
| "has_unsafe_number (JStr s) = False"

definition lone_surrogate :: "pystr \<Rightarrow> bool" where
  "lone_surrogate s = list_ex is_surrogate s"

fun has_lone_surrogate :: "json \<Rightarrow> bool" where
  "has_lone_surrogate (JStr s) = lone_surrogate s"
| "has_lone_surrogate (JDict d) =
     list_ex (\<lambda>kv. lone_surrogate (fst kv) \<or> has_lone_surrogate (snd kv)) d"
| "has_lone_surrogate (JList xs) = list_ex has_lone_surrogate xs"
| "has_lone_surrogate JNull = False"
| "has_lone_surrogate (JBool b) = False"
| "has_lone_surrogate (JInt n) = False"
| "has_lone_surrogate (JFloat f) = False"

definition outside_canonical_domain :: "json \<Rightarrow> bool" where
  "outside_canonical_domain v = (has_unsafe_number v \<or> has_lone_surrogate v)"

section \<open>Canonicalization\<close>

datatype canon_error = UnsafeNumber | LoneSurrogate | NotCanonicalizable

definition canonicalize :: "lib \<Rightarrow> json \<Rightarrow> canon_error + pystr" where
  "canonicalize L v =
     (if has_unsafe_number v then Inl UnsafeNumber
      else if has_lone_surrogate v then Inl LoneSurrogate
      else case jcs L v of
        None \<Rightarrow> Inl NotCanonicalizable
      | Some raw \<Rightarrow> (case utf8_decode raw of
          None \<Rightarrow> Inl NotCanonicalizable
        | Some s \<Rightarrow> Inr s))"

definition sha256_hex :: "lib \<Rightarrow> pystr \<Rightarrow> pystr" where
  "sha256_hex L s = hexlify (sha256 L (utf8 s))"

definition CONTEXT_HASH_PREFIX :: pystr where
  "CONTEXT_HASH_PREFIX = ustr ''sha256:''"

definition hash_canonical :: "lib \<Rightarrow> json \<Rightarrow> canon_error + pystr" where
  "hash_canonical L v =
     (case canonicalize L v of
        Inl e \<Rightarrow> Inl e
      | Inr s \<Rightarrow> Inr (CONTEXT_HASH_PREFIX @ sha256_hex L s))"

section \<open>The record-hash preimage and the countersignature payload\<close>

definition GENESIS_HASH :: pystr where
  "GENESIS_HASH = replicate 64 48"

definition record_preimage :: "jobj \<Rightarrow> int \<Rightarrow> pystr \<Rightarrow> pystr \<Rightarrow> json" where
  "record_preimage event seq host_ts previous_hash =
     JDict [(ustr ''event'', JDict event), (ustr ''host_ts'', JStr host_ts),
            (ustr ''previous_hash'', JStr previous_hash), (ustr ''seq'', JInt seq)]"

definition compute_record_hash :: "lib \<Rightarrow> jobj \<Rightarrow> int \<Rightarrow> pystr \<Rightarrow> pystr \<Rightarrow> canon_error + pystr" where
  "compute_record_hash L event seq host_ts previous_hash =
     (case canonicalize L (record_preimage event seq host_ts previous_hash) of
        Inl e \<Rightarrow> Inl e
      | Inr s \<Rightarrow> Inr (sha256_hex L s))"

definition countersignature_preimage :: "int \<Rightarrow> pystr \<Rightarrow> pystr \<Rightarrow> pystr \<Rightarrow> pystr \<Rightarrow> json" where
  "countersignature_preimage seq host_ts log_id previous_hash record_hash =
     JDict [(ustr ''host_ts'', JStr host_ts), (ustr ''log_id'', JStr log_id),
            (ustr ''previous_hash'', JStr previous_hash), (ustr ''record_hash'', JStr record_hash),
            (ustr ''seq'', JInt seq)]"

definition countersignature_payload ::
  "lib \<Rightarrow> int \<Rightarrow> pystr \<Rightarrow> pystr \<Rightarrow> pystr \<Rightarrow> pystr \<Rightarrow> canon_error + byte list" where
  "countersignature_payload L seq host_ts log_id previous_hash record_hash =
     (case canonicalize L (countersignature_preimage seq host_ts log_id previous_hash record_hash) of
        Inl e \<Rightarrow> Inl e
      | Inr s \<Rightarrow> Inr (utf8 s))"

section \<open>What canonicalization promises\<close>

lemma canonicalize_Inr:
  "canonicalize L v = Inr s \<longleftrightarrow>
     \<not> outside_canonical_domain v \<and> (\<exists>raw. jcs L v = Some raw \<and> utf8_decode raw = Some s)"
  by (auto simp: canonicalize_def outside_canonical_domain_def split: option.splits)

lemma canonicalize_scalars: "canonicalize L v = Inr s \<Longrightarrow> scalars s"
  by (auto simp: canonicalize_Inr dest: utf8_decode_strict)

lemma canonicalize_bytes: "canonicalize L v = Inr s \<Longrightarrow> jcs L v = Some (utf8 s)"
  by (auto simp: canonicalize_Inr dest: utf8_decode_strict)

text \<open>
  \<open>jcs_total\<close>: \<open>rfc8785.dumps\<close> returns UTF-8 text for every value inside the domain (RFC 8785 defines
  a canonical form for each I-JSON value).
\<close>

definition jcs_total :: "lib \<Rightarrow> bool" where
  "jcs_total L = (\<forall>v. \<not> outside_canonical_domain v \<longrightarrow> (\<exists>s. scalars s \<and> jcs L v = Some (utf8 s)))"

lemma canonicalize_total:
  assumes "jcs_total L"
  shows "(\<exists>s. canonicalize L v = Inr s) \<longleftrightarrow> \<not> outside_canonical_domain v"
proof -
  have "\<exists>s. canonicalize L v = Inr s" if "\<not> outside_canonical_domain v"
    using assms that unfolding jcs_total_def canonicalize_Inr
    by (metis utf8_decode_encode)
  then show ?thesis
    by (auto simp: canonicalize_Inr)
qed

lemma compute_record_hash_Inr:
  "compute_record_hash L event seq ts prev = Inr h \<longleftrightarrow>
     (\<exists>s. canonicalize L (record_preimage event seq ts prev) = Inr s \<and> h = sha256_hex L s)"
  by (auto simp: compute_record_hash_def split: sum.splits)

lemma outside_domain_preimage:
  "outside_canonical_domain (record_preimage event seq ts prev) \<longleftrightarrow>
     outside_canonical_domain (JDict event) \<or> abs seq > MAX_SAFE_INTEGER \<or>
     lone_surrogate ts \<or> lone_surrogate prev"
proof -
  have small: "\<not> is_surrogate (of_char c)" for c :: char
    unfolding is_surrogate_def using nat_of_char_less_256 [of c] by linarith
  have *: "\<not> lone_surrogate (ustr s)" for s
    by (simp add: lone_surrogate_def ustr_def list_ex_iff small)
  show ?thesis
    by (auto simp: outside_canonical_domain_def record_preimage_def *)
qed

end
