(* ===== verification/Models.thy ===== *)
theory Models
  imports Vocabulary Canonical Codec
begin

text \<open>
  \<open>src/auditable_mcp/models.py\<close>: the wire contracts. Each pydantic class is the table of its members
  (name, whether required, type with its constraints) in declaration order, and the rules its
  validators add; \<open>model_error\<close> is validation of received data, in the order pydantic runs it:
  the \<open>before\<close> validators of \<open>WireModel\<close> (lone surrogates, null members), the members, the members no
  class admits, and the \<open>after\<close> validators. It returns the first error, as \<open>_first_error\<close> does; the
  wording of the message is the \<open>schema_error\<close> constructor and the member it names.
\<close>

definition SPEC_VERSION :: pystr where "SPEC_VERSION = ustr ''auditable-mcp/0.4''"
definition EXTENSION_ID :: pystr where "EXTENSION_ID = ustr ''com.timberlandchapel/auditable-mcp''"

definition KNOWN_SPEC_VERSIONS :: "pystr list" where
  "KNOWN_SPEC_VERSIONS = [ustr ''auditable-mcp/0.1'', ustr ''auditable-mcp/0.1.1'',
     ustr ''auditable-mcp/0.2'', ustr ''auditable-mcp/0.3'', ustr ''auditable-mcp/0.4'']"

definition EARLIER_SPEC_VERSIONS :: "pystr list" where
  "EARLIER_SPEC_VERSIONS = butlast KNOWN_SPEC_VERSIONS"

section \<open>Patterns\<close>

definition NIL_UUID :: pystr where
  "NIL_UUID = ustr ''00000000-0000-0000-0000-000000000000''"

definition uuid_rx :: "(nat \<Rightarrow> bool) \<Rightarrow> string \<Rightarrow> rx" where
  "uuid_rx hex variant = seqs [rep 8 (Cls hex), lit ''-'', rep 4 (Cls hex), lit ''-'',
     Cls (between CHR ''1'' CHR ''8''), rep 3 (Cls hex), lit ''-'',
     one_of variant, rep 3 (Cls hex), lit ''-'', rep 12 (Cls hex)]"

definition UUID_PATTERN :: rx where
  "UUID_PATTERN = Alt (uuid_rx is_lower_hex ''89ab'') (lit ''00000000-0000-0000-0000-000000000000'')"

definition SESSION_ID_PATTERN :: rx where
  "SESSION_ID_PATTERN = uuid_rx is_lower_hex ''89ab''"

definition EARLIER_UUID_PATTERN :: rx where
  "EARLIER_UUID_PATTERN = Alt (uuid_rx is_any_hex ''89abAB'') (lit ''00000000-0000-0000-0000-000000000000'')"

text \<open>The date part of both date-time patterns; \<open>d\<close> is the engine's \<open>\d\<close>.\<close>

definition date_rx :: "(nat \<Rightarrow> bool) \<Rightarrow> rx" where
  "date_rx d = alts [
     Seq (alts [
         seqs [Cls d, Cls d, one_of ''2468'', one_of ''048''],
         seqs [Cls d, Cls d, one_of ''13579'', one_of ''26''],
         seqs [Cls d, Cls d, lit ''0'', one_of ''48''],
         seqs [one_of ''02468'', one_of ''048'', lit ''00''],
         seqs [one_of ''13579'', one_of ''26'', lit ''00'']])
       (lit ''-02-29''),
     seqs [rep 4 (Cls d), lit ''-'', alts [
         seqs [Alt (Seq (lit ''0'') (one_of ''13578'')) (Seq (lit ''1'') (one_of ''02'')), lit ''-'',
           alts [Seq (lit ''0'') (Cls (between CHR ''1'' CHR ''9'')), Seq (one_of ''12'') (Cls d),
             Seq (lit ''3'') (one_of ''01'')]],
         seqs [Alt (Seq (lit ''0'') (one_of ''469'')) (lit ''11''), lit ''-'',
           alts [Seq (lit ''0'') (Cls (between CHR ''1'' CHR ''9'')), Seq (one_of ''12'') (Cls d),
             lit ''30'']],
         seqs [lit ''02'', lit ''-'',
           alts [Seq (lit ''0'') (Cls (between CHR ''1'' CHR ''9'')), Seq (lit ''1'') (Cls d),
             Seq (lit ''2'') (Cls (between CHR ''0'' CHR ''8''))]]]]]"

definition hour_rx :: "(nat \<Rightarrow> bool) \<Rightarrow> rx" where
  "hour_rx d = Alt (Seq (one_of ''01'') (Cls d)) (Seq (lit ''2'') (Cls (between CHR ''0'' CHR ''3'')))"

definition sixty_rx :: "(nat \<Rightarrow> bool) \<Rightarrow> rx" where
  "sixty_rx d = Seq (Cls (between CHR ''0'' CHR ''5'')) (Cls d)"

definition fraction_rx :: "(nat \<Rightarrow> bool) \<Rightarrow> rx" where
  "fraction_rx d = opt (Seq (lit ''.'') (some_of d))"

definition DATETIME_PATTERN :: "lib \<Rightarrow> rx" where
  "DATETIME_PATTERN L = (let d = is_nd L in
     seqs [date_rx d, lit ''T'', hour_rx d, lit '':'', sixty_rx d,
       seqs [lit '':'', sixty_rx d, fraction_rx d], lit ''Z''])"

definition EARLIER_DATETIME_PATTERN :: "lib \<Rightarrow> rx" where
  "EARLIER_DATETIME_PATTERN L = (let d = is_nd L in
     seqs [date_rx d, lit ''T'', hour_rx d, lit '':'', sixty_rx d,
       opt (seqs [lit '':'', sixty_rx d, fraction_rx d]), lit ''Z''])"

definition CHAIN_HASH_PATTERN :: rx where
  "CHAIN_HASH_PATTERN = rep 64 (Cls is_lower_hex)"

definition CONTEXT_HASH_PATTERN :: rx where
  "CONTEXT_HASH_PATTERN = Seq (lit ''sha256:'') (rep 64 (Cls is_lower_hex))"

definition SIGNATURE_PATTERN :: rx where
  "SIGNATURE_PATTERN = some_of is_b64url"

definition SALTED_HASH_PATTERN :: rx where
  "SALTED_HASH_PATTERN = rep 43 (Cls is_b64url)"

definition EARLIER_SIGNATURE_PATTERN :: rx where
  "EARLIER_SIGNATURE_PATTERN = STANDARD"

section \<open>Member types\<close>

text \<open>
  \<open>TStr n p\<close> is a \<open>str\<close> of at least \<open>n\<close> code points matching \<open>p\<close>; \<open>TCount\<close> is \<open>JsonCount\<close>;
  \<open>TEnum\<close> and \<open>TLiteral\<close> are a closed set of strings; \<open>TTarget\<close> is a nested \<open>TargetResource\<close>.
\<close>

datatype ftype = TStr nat "rx option" | TBool | TCount | TLiteral "pystr list" | TObject | TTarget

type_synonym schema = "(pystr \<times> bool \<times> ftype) list"

datatype schema_error =
    NotAnObject
  | SurrogateInMember
  | NullMember pystr
  | MissingMember pystr
  | BadMember pystr
  | ExtraMember pystr
  | AbortedWithoutReason
  | PartialLevel2
  | PartialCountersignature
  | OutsideDomain

text \<open>\<open>_integral\<close>, and the count it makes of a JSON number: an int or a float with an integral value.\<close>

definition integral :: "json \<Rightarrow> json" where
  "integral v = (case v of
      JFloat f \<Rightarrow> if float_is_integer f \<and> abs (int_of_float f) \<le> MAX_SAFE_INTEGER
                  then JInt (int_of_float f) else v
    | _ \<Rightarrow> v)"

definition json_count :: "json \<Rightarrow> int option" where
  "json_count v = (case integral v of
      JInt n \<Rightarrow> if 0 \<le> n \<and> n \<le> MAX_SAFE_INTEGER then Some n else None
    | _ \<Rightarrow> None)"

fun plain_ok :: "ftype \<Rightarrow> json \<Rightarrow> bool" where
  "plain_ok (TStr n p) (JStr s) = (n \<le> length s \<and> (case p of None \<Rightarrow> True | Some r \<Rightarrow> fullmatch r s))"
| "plain_ok TBool (JBool b) = True"
| "plain_ok TCount v = (json_count v \<noteq> None)"
| "plain_ok (TLiteral xs) (JStr s) = (s \<in> set xs)"
| "plain_ok TObject (JDict d) = True"
| "plain_ok _ _ = False"

definition null_member :: "schema \<Rightarrow> jobj \<Rightarrow> schema_error option" where
  "null_member sc d =
     map_option (\<lambda>m. NullMember (fst m)) (find (\<lambda>(k, _). has_key d k \<and> dget d k = JNull) sc)"

definition member_error :: "(ftype \<Rightarrow> json \<Rightarrow> bool) \<Rightarrow> jobj \<Rightarrow> pystr \<times> bool \<times> ftype \<Rightarrow> schema_error option" where
  "member_error ok d = (\<lambda>(k, required, t).
     if has_key d k then (if ok t (dget d k) then None else Some (BadMember k))
     else if required then Some (MissingMember k) else None)"

fun first_error :: "schema_error option list \<Rightarrow> schema_error option" where
  "first_error [] = None"
| "first_error (None # es) = first_error es"
| "first_error (Some e # es) = Some e"

definition extra_member :: "schema \<Rightarrow> jobj \<Rightarrow> schema_error option" where
  "extra_member sc d =
     map_option (\<lambda>m. ExtraMember (fst m)) (find (\<lambda>(k, _). k \<notin> set (map fst sc)) d)"

definition shape_error :: "(ftype \<Rightarrow> json \<Rightarrow> bool) \<Rightarrow> schema \<Rightarrow> json \<Rightarrow> schema_error option" where
  "shape_error ok sc v =
     (if has_lone_surrogate v then Some SurrogateInMember
      else case v of
        JDict d \<Rightarrow> first_error (null_member sc d # map (member_error ok d) sc @ [extra_member sc d])
      | _ \<Rightarrow> Some NotAnObject)"

definition target_resource :: schema where
  "target_resource = [(KIND, True, TStr 1 None), (REF, True, TStr 1 None), (SCOPE_HINT, False, TStr 0 None)]"

fun member_ok :: "ftype \<Rightarrow> json \<Rightarrow> bool" where
  "member_ok TTarget v = (shape_error plain_ok target_resource v = None)"
| "member_ok t v = plain_ok t v"

definition model_error :: "schema \<Rightarrow> json \<Rightarrow> schema_error option" where
  "model_error sc v = shape_error member_ok sc v"

lemma first_error_None: "first_error es = None \<longleftrightarrow> (\<forall>e\<in>set es. e = None)"
  by (induction es rule: first_error.induct) auto

section \<open>The audit event, by version\<close>

definition outcome_type :: ftype where
  "outcome_type = TLiteral (map outcome_str outcomes_all)"

definition abort_reason_type :: ftype where
  "abort_reason_type = TLiteral (map code_str abort_reasons)"

definition session_audit_event :: "rx \<Rightarrow> schema" where
  "session_audit_event ts_pattern = [
     (ID, True, TStr 0 (Some UUID_PATTERN)),
     (TS, True, TStr 0 (Some ts_pattern)),
     (SESSION_ID, True, TStr 0 (Some SESSION_ID_PATTERN)),
     (TRACEPARENT, False, TStr 0 None),
     (ACTION_TYPE, True, TStr 1 None),
     (MUTATES, True, TBool),
     (EGRESS, True, TBool),
     (TARGET_RESOURCE, True, TTarget),
     (OUTCOME, True, outcome_type),
     (REASON, False, abort_reason_type),
     (ACTION_CONTEXT, False, TObject),
     (ACTION_CONTEXT_HASH, False, TStr 0 (Some CONTEXT_HASH_PATTERN)),
     (SIGNER_SEQ, False, TCount),
     (KEY_ID, False, TStr 1 None),
     (SIGNATURE, False, TStr 0 (Some SIGNATURE_PATTERN))]"

definition audit_event :: "lib \<Rightarrow> schema" where
  "audit_event L = session_audit_event (DATETIME_PATTERN L) @
     [(SPEC_VERSION_F, True, TLiteral [SPEC_VERSION]),
      (ACTION_CONTEXT_SALTED_HASH, False, TStr 0 (Some SALTED_HASH_PATTERN))]"

definition sealed_audit_event_v03 :: "lib \<Rightarrow> schema" where
  "sealed_audit_event_v03 L = session_audit_event (EARLIER_DATETIME_PATTERN L) @
     [(SPEC_VERSION_F, True, TLiteral [ustr ''auditable-mcp/0.3''])]"

definition sealed_audit_event_v01 :: "lib \<Rightarrow> schema" where
  "sealed_audit_event_v01 L = [
     (ID, True, TStr 0 (Some EARLIER_UUID_PATTERN)),
     (SPEC_VERSION_F, True, TLiteral [ustr ''auditable-mcp/0.1'']),
     (TS, True, TStr 0 (Some (EARLIER_DATETIME_PATTERN L))),
     (ustr ''call_id'', True, TStr 1 None),
     (TRACEPARENT, False, TStr 0 None),
     (ACTION_TYPE, True, TStr 1 None),
     (MUTATES, True, TBool),
     (EGRESS, True, TBool),
     (TARGET_RESOURCE, True, TTarget),
     (OUTCOME, True, outcome_type),
     (REASON, False, TStr 0 None),
     (ACTION_CONTEXT, False, TObject),
     (ACTION_CONTEXT_HASH, False, TStr 0 (Some CONTEXT_HASH_PATTERN)),
     (ustr ''sequence'', False, TCount),
     (KEY_ID, False, TStr 0 None),
     (SIGNATURE, False, TStr 0 None)]"

definition earlier_sealed_audit_event :: "lib \<Rightarrow> schema" where
  "earlier_sealed_audit_event L = [
     (ID, True, TStr 0 (Some EARLIER_UUID_PATTERN)),
     (SPEC_VERSION_F, True, TLiteral [ustr ''auditable-mcp/0.1.1'', ustr ''auditable-mcp/0.2'']),
     (TS, True, TStr 0 (Some (EARLIER_DATETIME_PATTERN L))),
     (ustr ''call_id'', True, TStr 1 None),
     (TRACEPARENT, False, TStr 0 None),
     (ACTION_TYPE, True, TStr 1 None),
     (MUTATES, True, TBool),
     (EGRESS, True, TBool),
     (TARGET_RESOURCE, True, TTarget),
     (OUTCOME, True, outcome_type),
     (REASON, False, TLiteral (map code_str [HASH_MISMATCH, HOST_REJECTED, HOST_UNAVAILABLE])),
     (ACTION_CONTEXT, False, TObject),
     (ACTION_CONTEXT_HASH, False, TStr 0 (Some CONTEXT_HASH_PATTERN)),
     (SIGNER_SEQ, False, TCount),
     (KEY_ID, False, TStr 1 None),
     (SIGNATURE, False, TStr 0 (Some EARLIER_SIGNATURE_PATTERN))]"

text \<open>The \<open>after\<close> validators.\<close>

definition require_reason_when_aborted :: "jobj \<Rightarrow> schema_error option" where
  "require_reason_when_aborted d =
     (if outcome_is d ABORTED \<and> dget d REASON = JNull then Some AbortedWithoutReason else None)"

definition level_2_fields_travel_together :: "jobj \<Rightarrow> schema_error option" where
  "level_2_fields_travel_together d =
     (if card {dget d SIGNER_SEQ = JNull, dget d KEY_ID = JNull, dget d SIGNATURE = JNull} \<noteq> 1
      then Some PartialLevel2 else None)"

definition validated :: "schema \<Rightarrow> (jobj \<Rightarrow> schema_error option) list \<Rightarrow> json \<Rightarrow> schema_error option" where
  "validated sc rules v =
     (case model_error sc v of
        Some e \<Rightarrow> Some e
      | None \<Rightarrow> (case v of JDict d \<Rightarrow> first_error (map (\<lambda>r. r d) rules) | _ \<Rightarrow> None))"

definition first_validation_error :: "lib \<Rightarrow> json \<Rightarrow> schema_error option" where
  "first_validation_error L event =
     validated (audit_event L) [require_reason_when_aborted, level_2_fields_travel_together] event"

definition v03_validation_error :: "lib \<Rightarrow> json \<Rightarrow> schema_error option" where
  "v03_validation_error L event =
     validated (sealed_audit_event_v03 L) [require_reason_when_aborted, level_2_fields_travel_together] event"

definition earlier_validation_error :: "lib \<Rightarrow> json \<Rightarrow> schema_error option" where
  "earlier_validation_error L event =
     validated (earlier_sealed_audit_event L) [require_reason_when_aborted] event"

definition v01_validation_error :: "lib \<Rightarrow> json \<Rightarrow> schema_error option" where
  "v01_validation_error L event = validated (sealed_audit_event_v01 L) [] event"

definition first_sealed_validation_error :: "lib \<Rightarrow> json \<Rightarrow> schema_error option" where
  "first_sealed_validation_error L event =
     (let version = (case event of JDict d \<Rightarrow> dget d SPEC_VERSION_F | _ \<Rightarrow> JNull)
      in if version = JStr (ustr ''auditable-mcp/0.1'') then v01_validation_error L event
         else if version = JStr (ustr ''auditable-mcp/0.3'') then v03_validation_error L event
         else if version \<in> set (map JStr EARLIER_SPEC_VERSIONS) then earlier_validation_error L event
         else first_validation_error L event)"

section \<open>Capabilities and responses\<close>

record audit_capability =
  cap_spec_version :: pystr
  cap_level :: level
  cap_countersign :: countersign

definition audit_capability_schema :: schema where
  "audit_capability_schema = [
     (SPEC_VERSION_F, True, TStr 1 None),
     (LEVEL, True, TLiteral [level_str L1, level_str L2]),
     (ATTEMPT, True, TLiteral [ustr ''request'']),
     (COUNTERSIGN, True, TLiteral [countersign_str CS_NONE, countersign_str CS_HOST])]"

definition parse_capability :: "json \<Rightarrow> audit_capability option" where
  "parse_capability v =
     (case validated audit_capability_schema [] v of
        Some e \<Rightarrow> None
      | None \<Rightarrow> (case v of
          JDict d \<Rightarrow> (case dget d SPEC_VERSION_F of
              JStr version \<Rightarrow> Some \<lparr>cap_spec_version = version,
                cap_level = (if dget d LEVEL = JStr (level_str L2) then L2 else L1),
                cap_countersign = (if dget d COUNTERSIGN = JStr (countersign_str CS_HOST) then CS_HOST else CS_NONE)\<rparr>
            | _ \<Rightarrow> None)
        | _ \<Rightarrow> None))"

definition capability_to_wire :: "audit_capability \<Rightarrow> jobj" where
  "capability_to_wire c = [
     (SPEC_VERSION_F, JStr (cap_spec_version c)),
     (LEVEL, JStr (level_str (cap_level c))),
     (ATTEMPT, JStr (ustr ''request'')),
     (COUNTERSIGN, JStr (countersign_str (cap_countersign c)))]"

record accept_response =
  acc_seq :: int
  acc_record_hash :: pystr
  acc_host_ts :: pystr
  acc_previous_hash :: pystr
  acc_host_signature :: "pystr option"
  acc_host_key_id :: "pystr option"
  acc_log_id :: "pystr option"

datatype response = Accept accept_response | Reject code | Unavailable

definition accept_response_schema :: "lib \<Rightarrow> schema" where
  "accept_response_schema L = [
     (ustr ''status'', True, TLiteral [status_str ACCEPT]),
     (SEQ, True, TCount),
     (RECORD_HASH, True, TStr 0 (Some CHAIN_HASH_PATTERN)),
     (HOST_TS, True, TStr 0 (Some (DATETIME_PATTERN L))),
     (PREVIOUS_HASH, True, TStr 0 (Some CHAIN_HASH_PATTERN)),
     (HOST_SIGNATURE, False, TStr 0 (Some SIGNATURE_PATTERN)),
     (HOST_KEY_ID, False, TStr 1 None),
     (LOG_ID, False, TStr 1 None)]"

definition countersignature_fields_travel_together :: "jobj \<Rightarrow> schema_error option" where
  "countersignature_fields_travel_together d =
     (if card {dget d HOST_SIGNATURE = JNull, dget d HOST_KEY_ID = JNull, dget d LOG_ID = JNull} \<noteq> 1
      then Some PartialCountersignature else None)"

text \<open>A \<open>to_wire()\<close> leaves an absent optional member out.\<close>

definition opt_member :: "pystr \<Rightarrow> pystr option \<Rightarrow> jobj" where
  "opt_member k v = (case v of None \<Rightarrow> [] | Some s \<Rightarrow> [(k, JStr s)])"

definition accept_to_wire :: "accept_response \<Rightarrow> jobj" where
  "accept_to_wire a = [
     (ustr ''status'', JStr (status_str ACCEPT)),
     (SEQ, JInt (acc_seq a)),
     (RECORD_HASH, JStr (acc_record_hash a)),
     (HOST_TS, JStr (acc_host_ts a)),
     (PREVIOUS_HASH, JStr (acc_previous_hash a))]
     @ opt_member HOST_SIGNATURE (acc_host_signature a)
     @ opt_member HOST_KEY_ID (acc_host_key_id a)
     @ opt_member LOG_ID (acc_log_id a)"

text \<open>Constructing an \<open>AcceptResponse\<close> validates it: an ill-formed one raises.\<close>

definition accept_error :: "lib \<Rightarrow> accept_response \<Rightarrow> schema_error option" where
  "accept_error L a =
     validated (accept_response_schema L) [countersignature_fields_travel_together] (JDict (accept_to_wire a))"

section \<open>What validation establishes\<close>

lemma validated_JDict:
  "validated sc rules (JDict d) = None \<longleftrightarrow>
     \<not> has_lone_surrogate (JDict d) \<and> null_member sc d = None \<and> extra_member sc d = None \<and>
     (\<forall>m\<in>set sc. member_error member_ok d m = None) \<and> (\<forall>r\<in>set rules. r d = None)"
proof -
  have "validated sc rules (JDict d) = None \<longleftrightarrow>
      model_error sc (JDict d) = None \<and> first_error (map (\<lambda>r. r d) rules) = None"
    by (simp add: validated_def split: option.splits)
  then show ?thesis
    by (auto simp: model_error_def shape_error_def first_error_None)
qed

lemma validated_object: "validated sc rules v = None \<Longrightarrow> \<exists>d. v = JDict d"
  by (cases v) (auto simp: validated_def model_error_def shape_error_def split: if_splits)

lemma member_error_None:
  "member_error ok d (k, required, t) = None \<longleftrightarrow>
     (if has_key d k then ok t (dget d k) else \<not> required)"
  by (simp add: member_error_def)

lemma validated_required:
  assumes "validated sc rules (JDict d) = None" "(k, True, t) \<in> set sc"
  shows "member_ok t (dget d k)"
  using assms by (auto simp: validated_JDict member_error_def split: if_splits)

lemma validated_optional:
  assumes "validated sc rules (JDict d) = None" "(k, r, t) \<in> set sc"
  shows "dget d k = JNull \<or> member_ok t (dget d k)"
  using assms by (fastforce simp: validated_JDict member_error_def dget_absent split: if_splits)

lemma plain_ok_TStr: "plain_ok (TStr n p) v \<longleftrightarrow>
    (\<exists>s. v = JStr s \<and> n \<le> length s \<and> (\<forall>r. p = Some r \<longrightarrow> fullmatch r s))"
  by (cases v) (auto split: option.splits)

lemma plain_ok_TLiteral: "plain_ok (TLiteral xs) v \<longleftrightarrow> (\<exists>s\<in>set xs. v = JStr s)"
  by (cases v) auto

text \<open>The members a valid event carries, as every reader of an event uses them.\<close>

lemma valid_event_required:
  "first_validation_error L (JDict d) = None \<Longrightarrow> (k, True, t) \<in> set (audit_event L) \<Longrightarrow> member_ok t (dget d k)"
  unfolding first_validation_error_def by (rule validated_required)

lemma valid_event_optional:
  "first_validation_error L (JDict d) = None \<Longrightarrow> (k, r, t) \<in> set (audit_event L) \<Longrightarrow>
     dget d k = JNull \<or> member_ok t (dget d k)"
  unfolding first_validation_error_def by (rule validated_optional)

lemma event_members:
  "(ID, True, TStr 0 (Some UUID_PATTERN)) \<in> set (audit_event L)"
  "(SESSION_ID, True, TStr 0 (Some SESSION_ID_PATTERN)) \<in> set (audit_event L)"
  "(OUTCOME, True, outcome_type) \<in> set (audit_event L)"
  "(SPEC_VERSION_F, True, TLiteral [SPEC_VERSION]) \<in> set (audit_event L)"
  "(SIGNER_SEQ, False, TCount) \<in> set (audit_event L)"
  "(KEY_ID, False, TStr 1 None) \<in> set (audit_event L)"
  "(SIGNATURE, False, TStr 0 (Some SIGNATURE_PATTERN)) \<in> set (audit_event L)"
  "(REASON, False, abort_reason_type) \<in> set (audit_event L)"
  by (simp_all add: audit_event_def session_audit_event_def)

lemma valid_event_id:
  "first_validation_error L (JDict d) = None \<Longrightarrow> \<exists>s. dget d ID = JStr s \<and> fullmatch UUID_PATTERN s"
  using valid_event_required [OF _ event_members(1)] by (fastforce simp: plain_ok_TStr)

lemma valid_event_session:
  "first_validation_error L (JDict d) = None \<Longrightarrow> \<exists>s. dget d SESSION_ID = JStr s \<and> fullmatch SESSION_ID_PATTERN s"
  using valid_event_required [OF _ event_members(2)] by (fastforce simp: plain_ok_TStr)

lemma valid_event_outcome:
  "first_validation_error L (JDict d) = None \<Longrightarrow> \<exists>x. outcome_is d x"
  by (drule valid_event_required [OF _ event_members(3)])
    (auto simp: plain_ok_TLiteral outcome_type_def outcome_is_def)

lemma valid_event_version:
  "first_validation_error L (JDict d) = None \<Longrightarrow> dget d SPEC_VERSION_F = JStr SPEC_VERSION"
  using valid_event_required [OF _ event_members(4)] by (fastforce simp: plain_ok_TLiteral)

lemma valid_event_signer_seq:
  "first_validation_error L (JDict d) = None \<Longrightarrow>
     dget d SIGNER_SEQ = JNull \<or> (\<exists>n. json_count (dget d SIGNER_SEQ) = Some n)"
  by (drule valid_event_optional [OF _ event_members(5)]) auto

lemma valid_event_key_id:
  "first_validation_error L (JDict d) = None \<Longrightarrow>
     dget d KEY_ID = JNull \<or> (\<exists>s. dget d KEY_ID = JStr s \<and> s \<noteq> [])"
  by (drule valid_event_optional [OF _ event_members(6)]) (auto simp: plain_ok_TStr)

lemma valid_event_sealed:
  "first_validation_error L (JDict d) = None \<Longrightarrow> first_sealed_validation_error L (JDict d) = None"
  by (auto simp: first_sealed_validation_error_def valid_event_version EARLIER_SPEC_VERSIONS_def
      KNOWN_SPEC_VERSIONS_def SPEC_VERSION_def)

lemma card_three_bools: "card {a, b, c::bool} = 1 \<longleftrightarrow> a = b \<and> b = c"
  by (cases a; cases b; cases c) (simp_all add: insert_commute)

lemma valid_event_level_2:
  assumes "first_validation_error L (JDict d) = None"
  shows "dget d SIGNER_SEQ = JNull \<longleftrightarrow> dget d KEY_ID = JNull"
    "dget d SIGNATURE = JNull \<longleftrightarrow> dget d KEY_ID = JNull"
proof -
  have "level_2_fields_travel_together d = None"
    using assms by (simp add: first_validation_error_def validated_JDict)
  then show "dget d SIGNER_SEQ = JNull \<longleftrightarrow> dget d KEY_ID = JNull"
    "dget d SIGNATURE = JNull \<longleftrightarrow> dget d KEY_ID = JNull"
    unfolding level_2_fields_travel_together_def card_three_bools by (simp_all split: if_splits)
qed

end
