(* ===== verification/Effects.thy ===== *)
theory Effects
  imports Models
begin

text \<open>
  Stateful Python methods as state passing. A method is a \<open>prog\<close>: from the object's state to the
  value it returns or the exception it raises, with the state as it is then - a mutation made before
  an exception stays. \<open>thenM\<close> is sequencing, \<open>catchM\<close> is \<open>try/except\<close>. An \<open>await\<close> of code outside
  the SDK is a function of the outside world, which the state holds; the theorems quantify over it.

  \<open>wp m Q E s\<close> is the weakest precondition: run from \<open>s\<close>, \<open>m\<close> returns with \<open>Q\<close> or raises with \<open>E\<close>.
  Its equations (\<open>wp_simps\<close>) turn a claim about a method into a claim about its parts.
\<close>

section \<open>Exceptions and results\<close>

text \<open>\<open>Cancelled\<close> stands for the exceptions outside \<open>Exception\<close>: a cancellation, an interrupt.\<close>

datatype exn =
    RepositoryError
  | CanonicalizationError canon_error
  | ValidationError schema_error
  | ValueError
  | RuntimeError
  | KeyError pystr
  | LookupError
  | AmcpUsageError
  | AmcpAbortedError pystr pystr code
  | TypeError
  | OtherException
  | Cancelled

definition is_Exception :: "exn \<Rightarrow> bool" where
  "is_Exception e = (e \<noteq> Cancelled)"

datatype 'a pyres = Ret 'a | Exc exn

type_synonym ('s, 'a) prog = "'s \<Rightarrow> 'a pyres \<times> 's"

definition ret :: "'a \<Rightarrow> ('s, 'a) prog" where
  "ret a = (\<lambda>s. (Ret a, s))"

definition raise :: "exn \<Rightarrow> ('s, 'a) prog" where
  "raise e = (\<lambda>s. (Exc e, s))"

definition thenM :: "('s, 'a) prog \<Rightarrow> ('a \<Rightarrow> ('s, 'b) prog) \<Rightarrow> ('s, 'b) prog" where
  "thenM m f = (\<lambda>s. case m s of (Ret a, s') \<Rightarrow> f a s' | (Exc e, s') \<Rightarrow> (Exc e, s'))"

definition catchM :: "('s, 'a) prog \<Rightarrow> (exn \<Rightarrow> ('s, 'a) prog) \<Rightarrow> ('s, 'a) prog" where
  "catchM m h = (\<lambda>s. case m s of (Ret a, s') \<Rightarrow> (Ret a, s') | (Exc e, s') \<Rightarrow> h e s')"

definition modify :: "('s \<Rightarrow> 's) \<Rightarrow> ('s, unit) prog" where
  "modify f = (\<lambda>s. (Ret (), f s))"

definition gets :: "('s \<Rightarrow> 'a) \<Rightarrow> ('s, 'a) prog" where
  "gets f = (\<lambda>s. (Ret (f s), s))"

text \<open>Reading the state and going on with what was read.\<close>

definition withS :: "('s \<Rightarrow> ('s, 'a) prog) \<Rightarrow> ('s, 'a) prog" where
  "withS f = (\<lambda>s. f s s)"

definition canonM :: "canon_error + 'a \<Rightarrow> ('s, 'a) prog" where
  "canonM r = (case r of Inl e \<Rightarrow> raise (CanonicalizationError e) | Inr a \<Rightarrow> ret a)"

fun forM :: "'a list \<Rightarrow> ('a \<Rightarrow> ('s, unit) prog) \<Rightarrow> ('s, unit) prog" where
  "forM [] f = ret ()"
| "forM (x # xs) f = thenM (f x) (\<lambda>_. forM xs f)"

section \<open>Weakest preconditions\<close>

definition wp :: "('s, 'a) prog \<Rightarrow> ('a \<Rightarrow> 's \<Rightarrow> bool) \<Rightarrow> (exn \<Rightarrow> 's \<Rightarrow> bool) \<Rightarrow> 's \<Rightarrow> bool" where
  "wp m Q E s = (case m s of (Ret a, s') \<Rightarrow> Q a s' | (Exc e, s') \<Rightarrow> E e s')"

named_theorems wp_simps \<open>weakest preconditions of the program constructors\<close>

lemma wp_ret [wp_simps]: "wp (ret a) Q E s = Q a s"
  by (simp add: wp_def ret_def)

lemma wp_ret_fun [wp_simps]: "wp (ret a) Q E = Q a"
  by (simp add: wp_def ret_def fun_eq_iff)

lemma wp_raise [wp_simps]: "wp (raise e) Q E s = E e s"
  by (simp add: wp_def raise_def)

lemma wp_thenM [wp_simps]: "wp (thenM m f) Q E s = wp m (\<lambda>a. wp (f a) Q E) E s"
  by (simp add: wp_def thenM_def split: prod.split pyres.split)

lemma wp_catchM [wp_simps]: "wp (catchM m h) Q E s = wp m Q (\<lambda>e. wp (h e) Q E) s"
  by (simp add: wp_def catchM_def split: prod.split pyres.split)

lemma wp_modify [wp_simps]: "wp (modify f) Q E s = Q () (f s)"
  by (simp add: wp_def modify_def)

lemma wp_gets [wp_simps]: "wp (gets f) Q E s = Q (f s) s"
  by (simp add: wp_def gets_def)

lemma wp_withS [wp_simps]: "wp (withS f) Q E s = wp (f s) Q E s"
  by (simp add: wp_def withS_def)

lemma wp_canonM [wp_simps]:
  "wp (canonM r) Q E s = (case r of Inl e \<Rightarrow> E (CanonicalizationError e) s | Inr a \<Rightarrow> Q a s)"
  by (simp add: canonM_def wp_ret wp_raise split: sum.split)

lemma wp_if [wp_simps]: "wp (if b then m else n) Q E s = (if b then wp m Q E s else wp n Q E s)"
  by simp

lemma wp_case_option [wp_simps]:
  "wp (case x of None \<Rightarrow> m | Some a \<Rightarrow> f a) Q E s = (case x of None \<Rightarrow> wp m Q E s | Some a \<Rightarrow> wp (f a) Q E s)"
  by (simp split: option.split)

lemma wp_case_sum [wp_simps]:
  "wp (case x of Inl a \<Rightarrow> f a | Inr b \<Rightarrow> g b) Q E s = (case x of Inl a \<Rightarrow> wp (f a) Q E s | Inr b \<Rightarrow> wp (g b) Q E s)"
  by (simp split: sum.split)

lemma wp_case_prod [wp_simps]: "wp (case x of (a, b) \<Rightarrow> f a b) Q E s = (case x of (a, b) \<Rightarrow> wp (f a b) Q E s)"
  by (simp split: prod.split)

lemma wp_conseq:
  assumes "wp m Q E s" "\<And>a s'. Q a s' \<Longrightarrow> Q' a s'" "\<And>e s'. E e s' \<Longrightarrow> E' e s'"
  shows "wp m Q' E' s"
  using assms by (auto simp: wp_def split: prod.splits pyres.splits)

lemma wp_Ret: "wp m Q E s \<Longrightarrow> m s = (Ret a, s') \<Longrightarrow> Q a s'"
  by (simp add: wp_def)

lemma wp_Exc: "wp m Q E s \<Longrightarrow> m s = (Exc e, s') \<Longrightarrow> E e s'"
  by (simp add: wp_def)

lemma wp_True: "(\<And>a s'. Q a s') \<Longrightarrow> (\<And>e s'. E e s') \<Longrightarrow> wp m Q E s"
  by (simp add: wp_def split: prod.split pyres.split)

lemma wp_raises: "wp m (\<lambda>_ _. False) E s \<Longrightarrow> \<exists>e s'. m s = (Exc e, s') \<and> E e s'"
  by (cases "m s") (auto simp: wp_def split: pyres.splits)

lemma wp_raisesI: "\<exists>e s'. m s = (Exc e, s') \<and> P e \<Longrightarrow> (\<And>e s'. P e \<Longrightarrow> E e s') \<Longrightarrow> wp m Q E s"
  by (auto simp: wp_def)

text \<open>An invariant every exit of a method keeps.\<close>

definition keeps :: "('s \<Rightarrow> bool) \<Rightarrow> ('s, 'a) prog \<Rightarrow> bool" where
  "keeps I m = (\<forall>s. I s \<longrightarrow> I (snd (m s)))"

lemma keeps_wp: "keeps I m \<longleftrightarrow> (\<forall>s. I s \<longrightarrow> wp m (\<lambda>_. I) (\<lambda>_. I) s)"
proof -
  have "wp m (\<lambda>_. I) (\<lambda>_. I) s = I (snd (m s))" for s
    by (simp add: wp_def split: prod.split pyres.split)
  then show ?thesis by (simp add: keeps_def)
qed

lemma keepsI: "(\<And>s. I s \<Longrightarrow> wp m (\<lambda>_. I) (\<lambda>_. I) s) \<Longrightarrow> keeps I m"
  by (simp add: keeps_wp)

lemma keepsD: "keeps I m \<Longrightarrow> I s \<Longrightarrow> I (snd (m s))"
  by (simp add: keeps_def)

text \<open>A method built from steps that keep an invariant keeps it: one rule per constructor.\<close>

named_theorems keeps_intros \<open>a method keeps an invariant when its parts do\<close>

lemma keeps_ret [keeps_intros]: "keeps I (ret a)" and keeps_raise [keeps_intros]: "keeps I (raise e)"
  and keeps_gets [keeps_intros]: "keeps I (gets f)"
  by (simp_all add: keeps_def ret_def raise_def gets_def)

lemma keeps_modify [keeps_intros]: "(\<And>s. I s \<Longrightarrow> I (f s)) \<Longrightarrow> keeps I (modify f)"
  by (simp add: keeps_def modify_def)

lemma keeps_thenM [keeps_intros]: "keeps I m \<Longrightarrow> (\<And>a. keeps I (f a)) \<Longrightarrow> keeps I (thenM m f)"
  unfolding keeps_wp wp_thenM by (metis (mono_tags, lifting) wp_conseq)

lemma keeps_catchM [keeps_intros]: "keeps I m \<Longrightarrow> (\<And>e. keeps I (h e)) \<Longrightarrow> keeps I (catchM m h)"
  unfolding keeps_wp wp_catchM by (metis (mono_tags, lifting) wp_conseq)

lemma keeps_withS [keeps_intros]: "(\<And>s. keeps I (f s)) \<Longrightarrow> keeps I (withS f)"
  by (simp add: keeps_def withS_def)

lemma keeps_canonM [keeps_intros]: "keeps I (canonM r)"
  by (simp add: canonM_def keeps_ret keeps_raise split: sum.split)

lemma keeps_if [keeps_intros]: "keeps I m \<Longrightarrow> keeps I n \<Longrightarrow> keeps I (if b then m else n)"
  by simp

lemma keeps_bool [keeps_intros]:
  "keeps I m \<Longrightarrow> keeps I n \<Longrightarrow> keeps I (case b of True \<Rightarrow> m | False \<Rightarrow> n)"
  by (simp split: bool.split)

lemma keeps_option [keeps_intros]:
  "keeps I m \<Longrightarrow> (\<And>a. keeps I (f a)) \<Longrightarrow> keeps I (case x of None \<Rightarrow> m | Some a \<Rightarrow> f a)"
  by (simp split: option.split)

lemma keeps_sum [keeps_intros]:
  "(\<And>a. keeps I (f a)) \<Longrightarrow> (\<And>b. keeps I (g b)) \<Longrightarrow> keeps I (case x of Inl a \<Rightarrow> f a | Inr b \<Rightarrow> g b)"
  by (simp split: sum.split)

lemma keeps_prod [keeps_intros]: "(\<And>a b. keeps I (f a b)) \<Longrightarrow> keeps I (case x of (a, b) \<Rightarrow> f a b)"
  by (simp split: prod.split)

lemma keeps_forM [keeps_intros]: "(\<And>x. keeps I (f x)) \<Longrightarrow> keeps I (forM xs f)"
  by (induction xs) (simp_all add: keeps_ret keeps_thenM)

end
