(* ===== verification/Ledger.thy ===== *)
theory Ledger
  imports Effects
begin

text \<open>
  \<open>src/auditable_mcp/ledger.py\<close>: sealed records, their persisted form, and the append-only hash chain
  of one partition. Fields have the types the source declares for them; \<open>from_dict\<close> of a dictionary
  whose members have other types is outside the model (\<open>IllTyped\<close>).

  \<open>chain_from\<close> is the specification the chain is held to: positions count up by one, every record
  links to the hash before it and carries the hash of its own preimage. \<open>ledger_ok\<close> is the ledger's
  invariant, relative to the point the chain was resumed from.
\<close>

record sealed_record =
  rec_event :: jobj
  rec_seqno :: int
  rec_host_ts :: pystr
  rec_previous_hash :: pystr
  rec_record_hash :: pystr
  rec_host_signature :: "pystr option"
  rec_host_key_id :: "pystr option"
  rec_log_id :: "pystr option"

section \<open>The persisted form\<close>

definition to_dict :: "sealed_record \<Rightarrow> jobj" where
  "to_dict r =
     [(ustr ''event'', JDict (rec_event r)), (SEQ, JInt (rec_seqno r)), (HOST_TS, JStr (rec_host_ts r)),
      (PREVIOUS_HASH, JStr (rec_previous_hash r)), (RECORD_HASH, JStr (rec_record_hash r))]
     @ opt_member HOST_SIGNATURE (rec_host_signature r)
     @ opt_member HOST_KEY_ID (rec_host_key_id r)
     @ opt_member LOG_ID (rec_log_id r)"

datatype dict_error = MissingKey pystr | IllTyped pystr

definition need :: "jobj \<Rightarrow> pystr \<Rightarrow> dict_error + json" where
  "need d k = (case map_of d k of None \<Rightarrow> Inl (MissingKey k) | Some v \<Rightarrow> Inr v)"

definition opt_str :: "jobj \<Rightarrow> pystr \<Rightarrow> dict_error + pystr option" where
  "opt_str d k = (case dget d k of JNull \<Rightarrow> Inr None | JStr s \<Rightarrow> Inr (Some s) | _ \<Rightarrow> Inl (IllTyped k))"

definition bind_sum :: "'e + 'a \<Rightarrow> ('a \<Rightarrow> 'e + 'b) \<Rightarrow> 'e + 'b" where
  "bind_sum r f = (case r of Inl e \<Rightarrow> Inl e | Inr a \<Rightarrow> f a)"

definition need_str :: "jobj \<Rightarrow> pystr \<Rightarrow> dict_error + pystr" where
  "need_str d k = bind_sum (need d k) (\<lambda>v. case v of JStr s \<Rightarrow> Inr s | _ \<Rightarrow> Inl (IllTyped k))"

definition from_dict :: "jobj \<Rightarrow> dict_error + sealed_record" where
  "from_dict d =
     bind_sum (bind_sum (need d (ustr ''event'')) (\<lambda>v. case v of JDict e \<Rightarrow> Inr e | _ \<Rightarrow> Inl (IllTyped (ustr ''event'')))) (\<lambda>ev.
     bind_sum (bind_sum (need d SEQ) (\<lambda>v. case v of JInt n \<Rightarrow> Inr n | _ \<Rightarrow> Inl (IllTyped SEQ))) (\<lambda>n.
     bind_sum (need_str d HOST_TS) (\<lambda>ts.
     bind_sum (need_str d PREVIOUS_HASH) (\<lambda>prev.
     bind_sum (need_str d RECORD_HASH) (\<lambda>h.
     bind_sum (opt_str d HOST_SIGNATURE) (\<lambda>hs.
     bind_sum (opt_str d HOST_KEY_ID) (\<lambda>hk.
     bind_sum (opt_str d LOG_ID) (\<lambda>lid.
       Inr \<lparr>rec_event = ev, rec_seqno = n, rec_host_ts = ts, rec_previous_hash = prev,
            rec_record_hash = h, rec_host_signature = hs, rec_host_key_id = hk, rec_log_id = lid\<rparr>))))))))"

section \<open>The ledger\<close>

record ledger =
  led_partition :: pystr
  led_records :: "sealed_record list"
  led_count :: int
  led_tail_hash :: pystr

definition new_ledger :: "pystr \<Rightarrow> ledger" where
  "new_ledger p =
     \<lparr>led_partition = p, led_records = [], led_count = 0, led_tail_hash = GENESIS_HASH\<rparr>"

definition seal :: "lib \<Rightarrow> ledger \<Rightarrow> jobj \<Rightarrow> pystr \<Rightarrow> canon_error + sealed_record" where
  "seal L led event host_ts =
     (case compute_record_hash L event (led_count led) host_ts (led_tail_hash led) of
        Inl e \<Rightarrow> Inl e
      | Inr h \<Rightarrow> Inr \<lparr>rec_event = event, rec_seqno = led_count led, rec_host_ts = host_ts,
                     rec_previous_hash = led_tail_hash led, rec_record_hash = h,
                     rec_host_signature = None, rec_host_key_id = None, rec_log_id = None\<rparr>)"

definition commit :: "sealed_record \<Rightarrow> ledger \<Rightarrow> ledger" where
  "commit r led = led\<lparr>led_records := led_records led @ [r], led_count := led_count led + 1,
                      led_tail_hash := rec_record_hash r\<rparr>"

definition append_event :: "lib \<Rightarrow> jobj \<Rightarrow> pystr \<Rightarrow> ledger \<Rightarrow> canon_error + (sealed_record \<times> ledger)" where
  "append_event L event host_ts led =
     (case seal L led event host_ts of Inl e \<Rightarrow> Inl e | Inr r \<Rightarrow> Inr (r, commit r led))"

definition resume_from :: "sealed_record option \<Rightarrow> ledger \<Rightarrow> ledger" where
  "resume_from tail led =
     (case tail of
        Some r \<Rightarrow> led\<lparr>led_records := [], led_count := rec_seqno r + 1, led_tail_hash := rec_record_hash r\<rparr>
      | None \<Rightarrow> led\<lparr>led_records := [], led_count := 0, led_tail_hash := GENESIS_HASH\<rparr>)"

definition digest :: "ledger \<Rightarrow> pystr" where
  "digest led = led_tail_hash led"

section \<open>The chain\<close>

fun chain_from :: "lib \<Rightarrow> int \<Rightarrow> pystr \<Rightarrow> sealed_record list \<Rightarrow> bool" where
  "chain_from L n prev [] = True"
| "chain_from L n prev (r # rs) =
     (rec_seqno r = n \<and> rec_previous_hash r = prev \<and>
      compute_record_hash L (rec_event r) n (rec_host_ts r) prev = Inr (rec_record_hash r) \<and>
      chain_from L (n + 1) (rec_record_hash r) rs)"

definition chain_tail :: "pystr \<Rightarrow> sealed_record list \<Rightarrow> pystr" where
  "chain_tail h rs = (if rs = [] then h else rec_record_hash (last rs))"

lemma chain_tail_simps [simp]:
  "chain_tail h [] = h" "chain_tail h (rs @ [r]) = rec_record_hash r"
  "chain_tail h (r # rs) = chain_tail (rec_record_hash r) rs"
  by (auto simp: chain_tail_def)

lemma chain_from_append:
  "chain_from L n h (rs @ rs') \<longleftrightarrow>
     chain_from L n h rs \<and> chain_from L (n + int (length rs)) (chain_tail h rs) rs'"
  by (induction rs arbitrary: n h) (auto simp: algebra_simps)

definition ledger_ok :: "lib \<Rightarrow> int \<Rightarrow> pystr \<Rightarrow> ledger \<Rightarrow> bool" where
  "ledger_ok L n h led \<longleftrightarrow>
     chain_from L n h (led_records led) \<and> led_count led = n + int (length (led_records led)) \<and>
     led_tail_hash led = chain_tail h (led_records led)"

lemma ledger_ok_new [simp]: "ledger_ok L 0 GENESIS_HASH (new_ledger p)"
  by (simp add: ledger_ok_def new_ledger_def)

text \<open>The countersignature's three members are on a record together or not at all.\<close>

definition whole_triple :: "sealed_record \<Rightarrow> bool" where
  "whole_triple r \<longleftrightarrow> (rec_host_signature r = None) = (rec_host_key_id r = None) \<and>
     (rec_host_key_id r = None) = (rec_log_id r = None)"

text \<open>A record that may be committed: the next position, linked to the tail, with its own hash.\<close>

definition next_record :: "lib \<Rightarrow> ledger \<Rightarrow> sealed_record \<Rightarrow> bool" where
  "next_record L led r \<longleftrightarrow> rec_seqno r = led_count led \<and> rec_previous_hash r = led_tail_hash led \<and>
     compute_record_hash L (rec_event r) (rec_seqno r) (rec_host_ts r) (rec_previous_hash r) = Inr (rec_record_hash r) \<and>
     whole_triple r"

lemma ledger_ok_commit: "ledger_ok L n h led \<Longrightarrow> next_record L led r \<Longrightarrow> ledger_ok L n h (commit r led)"
  by (auto simp: ledger_ok_def next_record_def commit_def chain_from_append)

lemma seal_next: "seal L led event ts = Inr r \<Longrightarrow> next_record L led r"
  by (auto simp: seal_def next_record_def whole_triple_def split: sum.splits)

lemma seal_fields:
  assumes "seal L led event ts = Inr r"
  shows "rec_event r = event" "rec_seqno r = led_count led" "rec_host_ts r = ts"
    "rec_previous_hash r = led_tail_hash led" "rec_host_signature r = None"
    "rec_host_key_id r = None" "rec_log_id r = None"
  using assms by (auto simp: seal_def split: sum.splits)

text \<open>The countersignature is not in the preimage, so adding one keeps a record the next one.\<close>

lemma next_record_countersigned [simp]:
  "next_record L led r \<Longrightarrow>
     next_record L led (r\<lparr>rec_host_signature := Some a, rec_host_key_id := Some b, rec_log_id := Some c\<rparr>)"
  by (auto simp: next_record_def whole_triple_def)

lemma commit_simps [simp]:
  "led_records (commit r led) = led_records led @ [r]" "led_count (commit r led) = led_count led + 1"
  "led_tail_hash (commit r led) = rec_record_hash r" "led_partition (commit r led) = led_partition led"
  by (simp_all add: commit_def)

lemma from_dict_to_dict: "from_dict (to_dict r) = Inr r"
proof -
  have g: "map_of (to_dict r) (ustr ''event'') = Some (JDict (rec_event r))"
    "map_of (to_dict r) SEQ = Some (JInt (rec_seqno r))"
    "map_of (to_dict r) HOST_TS = Some (JStr (rec_host_ts r))"
    "map_of (to_dict r) PREVIOUS_HASH = Some (JStr (rec_previous_hash r))"
    "map_of (to_dict r) RECORD_HASH = Some (JStr (rec_record_hash r))"
    by (simp_all add: to_dict_def)
  have o: "opt_str (to_dict r) HOST_SIGNATURE = Inr (rec_host_signature r)"
    "opt_str (to_dict r) HOST_KEY_ID = Inr (rec_host_key_id r)"
    "opt_str (to_dict r) LOG_ID = Inr (rec_log_id r)"
    by (simp_all add: opt_str_def to_dict_def opt_member_def split: option.split)
  show ?thesis
    by (simp add: from_dict_def need_str_def need_def bind_sum_def g o)
qed

end
