(* ===== verification/Repository.thy ===== *)
theory Repository
  imports Ledger "HOL-Library.Sublist"
begin

text \<open>
  \<open>src/auditable_mcp/storage/repository.py\<close> and \<open>memory.py\<close>. A repository is three operations on the
  outside world \<open>'w\<close>. The locale \<open>ledger_repository\<close> is the contract \<open>LedgerRepository\<close> states, over the
  chain \<open>stored w p\<close> a partition holds: an append that returns stored the record at the next position; one
  that raises may have stored it and lost the acknowledgement, or not; reads change nothing. Its
  interpretation is the in-memory repository.
\<close>

record 'w repository =
  rp_append :: "pystr \<Rightarrow> sealed_record \<Rightarrow> ('w, unit) prog"
  rp_load_tail :: "pystr \<Rightarrow> ('w, sealed_record option) prog"
  rp_read_all :: "pystr \<Rightarrow> ('w, sealed_record list) prog"

definition tail_of :: "'a list \<Rightarrow> 'a option" where
  "tail_of xs = (if xs = [] then None else Some (last xs))"

section \<open>The contract\<close>

locale ledger_repository =
  fixes rp :: "'w repository"
    and stored :: "'w \<Rightarrow> pystr \<Rightarrow> sealed_record list"
  assumes append_ret: "rp_append rp p r w = (Ret (), w') \<Longrightarrow>
      rec_seqno r = int (length (stored w p)) \<and> stored w' p = stored w p @ [r]"
    and append_exc: "rp_append rp p r w = (Exc e, w') \<Longrightarrow>
      stored w' p = stored w p \<or>
      rec_seqno r = int (length (stored w p)) \<and> stored w' p = stored w p @ [r]"
    and append_other: "q \<noteq> p \<Longrightarrow> stored (snd (rp_append rp p r w)) q = stored w q"
    and load_tail_stored: "stored (snd (rp_load_tail rp p w)) = stored w"
    and load_tail_ret: "rp_load_tail rp p w = (Ret t, w') \<Longrightarrow> t = tail_of (stored w p)"
    and read_all_stored: "stored (snd (rp_read_all rp p w)) = stored w"
    and read_all_ret: "rp_read_all rp p w = (Ret rs, w') \<Longrightarrow> rs = stored w p"
begin

text \<open>Every operation only appends, whatever it answers.\<close>

lemma append_only: "prefix (stored w q) (stored (snd (rp_append rp p r w)) q)"
proof (cases "q = p")
  case True
  show ?thesis
  proof (cases "rp_append rp p r w")
    case (Pair a w')
    then show ?thesis
      using True append_ret [of p r w w'] append_exc [of p r w _ w'] by (cases a) auto
  qed
next
  case False
  then show ?thesis by (simp add: append_other)
qed

text \<open>Positions: the record at index \<open>i\<close> carries \<open>seq = i\<close>, so no two share one.\<close>

lemma positions_append:
  assumes "\<forall>i<length (stored w p). rec_seqno (stored w p ! i) = int i"
  shows "\<forall>i<length (stored (snd (rp_append rp p r w)) p).
    rec_seqno (stored (snd (rp_append rp p r w)) p ! i) = int i"
proof (cases "rp_append rp p r w")
  case (Pair a w')
  have "stored w' p = stored w p \<or> rec_seqno r = int (length (stored w p)) \<and> stored w' p = stored w p @ [r]"
    using append_ret [of p r w w'] append_exc [of p r w _ w'] Pair by (cases a) auto
  then show ?thesis
    using assms Pair by (auto simp: nth_append less_Suc_eq)
qed

lemma append_taken:
  assumes "rec_seqno r \<noteq> int (length (stored w p))"
  obtains e w' where "rp_append rp p r w = (Exc e, w')" "stored w' p = stored w p"
proof -
  obtain a w' where ap: "rp_append rp p r w = (a, w')" by (cases "rp_append rp p r w") auto
  with assms append_ret [of p r w w'] obtain e where "a = Exc e" by (cases a) auto
  with ap assms append_exc [of p r w e w'] that show ?thesis by auto
qed

end

section \<open>The in-memory repository\<close>

type_synonym memory = "pystr \<rightharpoonup> sealed_record list"

definition mem_stored :: "memory \<Rightarrow> pystr \<Rightarrow> sealed_record list" where
  "mem_stored m p = (case m p of None \<Rightarrow> [] | Some rs \<Rightarrow> rs)"

definition mem_append :: "pystr \<Rightarrow> sealed_record \<Rightarrow> (memory, unit) prog" where
  "mem_append p r = (\<lambda>m.
     let records = mem_stored m p; m' = m(p \<mapsto> records)
     in if rec_seqno r \<noteq> int (length records) then (Exc RepositoryError, m')
        else (Ret (), m'(p \<mapsto> records @ [r])))"

definition mem_load_tail :: "pystr \<Rightarrow> (memory, sealed_record option) prog" where
  "mem_load_tail p = (\<lambda>m. (Ret (let records = mem_stored m p in
     if records = [] then None else Some (last records)), m))"

definition mem_read_all :: "pystr \<Rightarrow> (memory, sealed_record list) prog" where
  "mem_read_all p = (\<lambda>m. (Ret (mem_stored m p), m))"

definition memory_repository :: "memory repository" where
  "memory_repository = \<lparr>rp_append = mem_append, rp_load_tail = mem_load_tail, rp_read_all = mem_read_all\<rparr>"

interpretation mem: ledger_repository memory_repository mem_stored
  by unfold_locales
    (auto simp: memory_repository_def mem_append_def mem_load_tail_def mem_read_all_def mem_stored_def
      tail_of_def Let_def split: if_splits option.splits)

end
