(* ===== verification/Host.thy ===== *)
theory Host
  imports Repository
begin

text \<open>
  \<open>src/auditable_mcp/host.py\<close>: the audit host of one partition. The state is the record \<open>host\<close>; its
  field \<open>h_world\<close> is everything outside the SDK, and the injected seams (signature verifier,
  countersigner, repository, clock) are programs over it, free to answer, raise or be cancelled as they like.
  Every handler holds the partition's lock from its first step to its last, so a handler is one
  step of the host; \<open>open_session\<close>, which takes no lock, touches only sessions no handler is using.
\<close>

section \<open>Data\<close>

datatype detail =
    SchemaDetail schema_error
  | AttemptNotAttempted
  | OutcomeAttempted
  | ValueNotCanonicalizable
  | SessionNotCarried json
  | L2Unsigned
  | SignatureFailed
  | ExpectedSignerSeq int int
  | AlreadyDecided int
  | AttemptIdReused
  | OutcomeAlreadySealed
  | SecondOutcome
  | OutcomeForRejectedId
  | OutcomeWithoutAttempt
  | CallEndedUnresolved
  | HostRestartedUnresolved

record anomaly =
  an_id :: pystr
  an_kind :: code
  an_detail :: detail

datatype disposition = SEALED | REPEAT | REFUSED | NOT_RECORDED

record session =
  ss_decided :: "pystr \<rightharpoonup> int set"
  ss_received :: "pystr \<rightharpoonup> int"
  ss_accepted :: "pystr set"
  ss_resolved :: "pystr set"
  ss_outcomes :: "pystr \<rightharpoonup> pystr"

definition new_session :: session where
  "new_session = \<lparr>ss_decided = Map.empty, ss_received = Map.empty, ss_accepted = {}, ss_resolved = {},
     ss_outcomes = Map.empty\<rparr>"

record signer_tracker =
  st_decided :: "pystr \<rightharpoonup> int list"
  st_received :: "pystr \<rightharpoonup> int"

record open_session_entry =
  os_session_id :: pystr
  os_signers :: "signer_tracker option"

record 'w seams =
  verifier :: "(jobj \<Rightarrow> ('w, code option) prog) option"
  countersigner :: "(pystr \<times> (byte list \<Rightarrow> ('w, pystr) prog)) option"
  repository :: "'w repository option"
  clock :: "('w, pystr) prog"

record 'w host =
  h_capability :: audit_capability
  h_partition :: pystr
  h_log_id :: pystr
  h_seams :: "'w seams"
  h_ledger :: ledger
  h_persistence_available :: bool
  h_sessions :: "pystr \<rightharpoonup> session"
  h_issued :: "pystr set"
  h_tail_uncertain :: bool
  h_sealed_attempts :: "pystr \<rightharpoonup> sealed_record"
  h_sealed_digests :: "pystr set"
  h_rejected_ids :: "pystr set"
  h_anomalies :: "anomaly list"
  h_world :: 'w

section \<open>Construction\<close>

record capability_input =
  in_spec_version :: "pystr option"
  in_level :: "level option"
  in_countersign :: "countersign option"

definition or_default :: "'a option \<Rightarrow> 'a \<Rightarrow> 'a" where
  "or_default x d = (case x of None \<Rightarrow> d | Some v \<Rightarrow> v)"

text \<open>\<open>_HOST_CAPABILITY_DEFAULTS\<close> completed by the caller's overrides, then validated.\<close>

definition host_capability_defaults :: audit_capability where
  "host_capability_defaults = \<lparr>cap_spec_version = SPEC_VERSION, cap_level = L1, cap_countersign = CS_NONE\<rparr>"

definition resolve_capability :: "capability_input \<Rightarrow> audit_capability option" where
  "resolve_capability overrides =
     parse_capability (JDict (capability_to_wire
       \<lparr>cap_spec_version = or_default (in_spec_version overrides) (cap_spec_version host_capability_defaults),
        cap_level = or_default (in_level overrides) (cap_level host_capability_defaults),
        cap_countersign = or_default (in_countersign overrides) (cap_countersign host_capability_defaults)\<rparr>))"

definition new_host ::
  "pystr \<Rightarrow> audit_capability \<Rightarrow> 'w seams \<Rightarrow> pystr option \<Rightarrow> 'w \<Rightarrow> exn + 'w host" where
  "new_host p cap sm log w =
     (if cap_level cap = L2 \<and> verifier sm = None then Inl ValueError
      else if cap_countersign cap = CS_HOST \<and> countersigner sm = None then Inl ValueError
      else if cap_countersign cap = CS_NONE \<and> countersigner sm \<noteq> None then Inl ValueError
      else Inr \<lparr>h_capability = cap, h_partition = p, h_log_id = or_default log p, h_seams = sm,
        h_ledger = new_ledger p, h_persistence_available = True, h_sessions = Map.empty, h_issued = {},
        h_tail_uncertain = False, h_sealed_attempts = Map.empty, h_sealed_digests = {},
        h_rejected_ids = {}, h_anomalies = [], h_world = w\<rparr>)"

section \<open>Reading an event\<close>

definition event_id :: "jobj \<Rightarrow> pystr" where
  "event_id event = (case dget event ID of JStr s \<Rightarrow> s | _ \<Rightarrow> ustr ''<unknown>'')"

definition signer_seq :: "jobj \<Rightarrow> int option" where
  "signer_seq event = (case dget event SIGNER_SEQ of
      JInt n \<Rightarrow> Some n
    | JFloat f \<Rightarrow> if float_is_integer f \<and> abs (int_of_float f) \<le> MAX_SAFE_INTEGER
                  then Some (int_of_float f) else None
    | _ \<Rightarrow> None)"

definition event_digest :: "lib \<Rightarrow> jobj \<Rightarrow> canon_error + pystr" where
  "event_digest L event =
     (case canonicalize L (JDict event) of Inl e \<Rightarrow> Inl e | Inr s \<Rightarrow> Inr (sha256_hex L s))"

text \<open>The key and number a signed event is decided under.\<close>

definition numbered_under :: "jobj \<Rightarrow> (pystr \<times> int) option" where
  "numbered_under event = (case (dget event KEY_ID, signer_seq event) of
      (JStr k, Some n) \<Rightarrow> Some (k, n) | _ \<Rightarrow> None)"

section \<open>Small steps\<close>

definition outside :: "('w, 'a) prog \<Rightarrow> ('w host, 'a) prog" where
  "outside m = (\<lambda>h. case m (h_world h) of (r, w) \<Rightarrow> (r, h\<lparr>h_world := w\<rparr>))"

definition anomaly_kind_of :: "code \<Rightarrow> code" where
  "anomaly_kind_of k = (if k = L2_UNSIGNED \<or> k = UNKNOWN_KEY then SIGNATURE_INVALID else k)"

definition flag :: "pystr \<Rightarrow> code \<Rightarrow> detail \<Rightarrow> 'w host \<Rightarrow> 'w host" where
  "flag eid kind detail h = h\<lparr>h_anomalies :=
     h_anomalies h @ [\<lparr>an_id = eid, an_kind = anomaly_kind_of kind, an_detail = detail\<rparr>]\<rparr>"

definition upd_session :: "pystr \<Rightarrow> (session \<Rightarrow> session) \<Rightarrow> 'w host \<Rightarrow> 'w host" where
  "upd_session sid f h = (case h_sessions h sid of
      None \<Rightarrow> h | Some s \<Rightarrow> h\<lparr>h_sessions := (h_sessions h)(sid \<mapsto> f s)\<rparr>)"

definition session_of_id :: "'w host \<Rightarrow> pystr \<Rightarrow> session" where
  "session_of_id h sid = or_default (h_sessions h sid) new_session"

definition reject_id :: "pystr \<Rightarrow> 'w host \<Rightarrow> 'w host" where
  "reject_id eid h = h\<lparr>h_rejected_ids := insert eid (h_rejected_ids h)\<rparr>"

definition add_decided :: "pystr \<Rightarrow> int \<Rightarrow> session \<Rightarrow> session" where
  "add_decided k n s = s\<lparr>ss_decided := (ss_decided s)(k \<mapsto> insert n (or_default (ss_decided s k) {}))\<rparr>"

definition decide :: "jobj \<Rightarrow> pystr \<Rightarrow> 'w host \<Rightarrow> 'w host" where
  "decide event sid h =
     (if cap_level (h_capability h) \<noteq> L2 then h
      else case numbered_under event of None \<Rightarrow> h | Some (k, n) \<Rightarrow> upd_session sid (add_decided k n) h)"

definition accept_attempt :: "pystr \<Rightarrow> session \<Rightarrow> session" where
  "accept_attempt eid s = s\<lparr>ss_accepted := insert eid (ss_accepted s)\<rparr>"

definition resolve_outcome :: "pystr \<Rightarrow> pystr \<Rightarrow> session \<Rightarrow> session" where
  "resolve_outcome eid d s =
     s\<lparr>ss_outcomes := (ss_outcomes s)(eid \<mapsto> d),
       ss_resolved := (if eid \<in> ss_accepted s then insert eid (ss_resolved s) else ss_resolved s)\<rparr>"

definition remember :: "lib \<Rightarrow> sealed_record \<Rightarrow> ('w host, unit) prog" where
  "remember L r =
     thenM (canonM (event_digest L (rec_event r))) (\<lambda>d.
     thenM (modify (\<lambda>h. h\<lparr>h_sealed_digests := insert d (h_sealed_digests h)\<rparr>)) (\<lambda>_.
     if outcome_is (rec_event r) ATTEMPTED
     then modify (\<lambda>h. h\<lparr>h_sealed_attempts := (h_sealed_attempts h)(event_id (rec_event r) \<mapsto> r)\<rparr>)
     else ret ()))"

section \<open>Settling the tail after an ambiguous append\<close>

definition adopt :: "lib \<Rightarrow> sealed_record \<Rightarrow> ('w host, unit) prog" where
  "adopt L r = withS (\<lambda>h.
     let event = rec_event r; eid = event_id event in
     case dget event SESSION_ID of
       JStr sid \<Rightarrow>
         if h_sessions h sid = None then ret ()
         else thenM (modify (decide event sid)) (\<lambda>_.
           if outcome_is event ATTEMPTED then modify (upd_session sid (accept_attempt eid))
           else thenM (canonM (event_digest L event)) (\<lambda>d.
             modify (upd_session sid (resolve_outcome eid d))))
     | _ \<Rightarrow> ret ())"

definition commit_record :: "sealed_record \<Rightarrow> 'w host \<Rightarrow> 'w host" where
  "commit_record r h = h\<lparr>h_ledger := commit r (h_ledger h)\<rparr>"

definition settle_tail :: "lib \<Rightarrow> ('w host, bool) prog" where
  "settle_tail L = withS (\<lambda>h.
     case repository (h_seams h) of
       None \<Rightarrow> ret True
     | Some rp \<Rightarrow>
       if \<not> h_tail_uncertain h then ret True
       else thenM (catchM (thenM (outside (rp_load_tail rp (h_partition h))) (\<lambda>t. ret (Some t)))
               (\<lambda>e. if e = RepositoryError then ret None else raise e)) (\<lambda>read.
         case read of
           None \<Rightarrow> ret False
         | Some tail \<Rightarrow> withS (\<lambda>h.
             let expected = led_count (h_ledger h) in
             thenM (case tail of
                 None \<Rightarrow> ret ()
               | Some t \<Rightarrow>
                 if rec_seqno t = expected \<and> rec_previous_hash t = digest (h_ledger h)
                 then thenM (modify (commit_record t)) (\<lambda>_. thenM (remember L t) (\<lambda>_. adopt L t))
                 else if rec_seqno t > expected
                 then modify (\<lambda>h. h\<lparr>h_ledger := resume_from (Some t) (h_ledger h)\<rparr>)
                 else ret ()) (\<lambda>_.
             thenM (modify (\<lambda>h. h\<lparr>h_tail_uncertain := False\<rparr>)) (\<lambda>_. ret True)))))"

section \<open>Sealing: sign, persist, commit, remember\<close>

definition doubt_tail :: "'w host \<Rightarrow> 'w host" where
  "doubt_tail h = h\<lparr>h_tail_uncertain := True\<rparr>"

definition countersign_record :: "lib \<Rightarrow> sealed_record \<Rightarrow> ('w host, sealed_record option) prog" where
  "countersign_record L sealed = withS (\<lambda>h.
     case countersigner (h_seams h) of
       None \<Rightarrow> ret (Some sealed)
     | Some (key_id, sign) \<Rightarrow>
       thenM (canonM (countersignature_payload L (rec_seqno sealed) (rec_host_ts sealed) (h_log_id h)
                (rec_previous_hash sealed) (rec_record_hash sealed))) (\<lambda>payload.
       catchM (thenM (outside (sign payload)) (\<lambda>signature.
           ret (Some (sealed\<lparr>rec_host_signature := Some signature, rec_host_key_id := Some key_id,
                             rec_log_id := Some (h_log_id h)\<rparr>))))
         (\<lambda>e. if is_Exception e then ret None
              else thenM (modify doubt_tail) (\<lambda>_. raise e))))"

definition persist :: "sealed_record \<Rightarrow> ('w host, bool) prog" where
  "persist sealed = withS (\<lambda>h.
     case repository (h_seams h) of
       None \<Rightarrow> ret True
     | Some rp \<Rightarrow>
       catchM (thenM (outside (rp_append rp (h_partition h) sealed)) (\<lambda>_. ret True))
         (\<lambda>e. if e = RepositoryError then thenM (modify doubt_tail) (\<lambda>_. ret False)
              else thenM (modify doubt_tail) (\<lambda>_. raise e)))"

definition seal_event :: "lib \<Rightarrow> jobj \<Rightarrow> pystr \<Rightarrow> ('w host, sealed_record option) prog" where
  "seal_event L event host_ts =
     thenM (gets h_ledger) (\<lambda>led.
     thenM (canonM (seal L led event host_ts)) (\<lambda>sealed.
     thenM (countersign_record L sealed) (\<lambda>signed.
     case signed of
       None \<Rightarrow> ret None
     | Some r \<Rightarrow>
       thenM (persist r) (\<lambda>persisted.
       if \<not> persisted then ret None
       else thenM (modify (commit_record r)) (\<lambda>_.
            thenM (remember L r) (\<lambda>_. ret (Some r)))))))"

text \<open>\<open>await self._seal(event, self._clock.now())\<close>.\<close>

definition seal_now :: "lib \<Rightarrow> jobj \<Rightarrow> ('w host, sealed_record option) prog" where
  "seal_now L event =
     withS (\<lambda>h. thenM (outside (clock (h_seams h))) (\<lambda>now. seal_event L event now))"

section \<open>Sessions\<close>

definition open_session :: "pystr \<Rightarrow> ('w host, pystr) prog" where
  "open_session issued = withS (\<lambda>h.
     if issued \<in> h_issued h then raise ValueError
     else thenM (modify (\<lambda>h. h\<lparr>h_issued := insert issued (h_issued h),
                               h_sessions := (h_sessions h)(issued \<mapsto> new_session)\<rparr>))
            (\<lambda>_. ret issued))"

definition close_session :: "pystr \<Rightarrow> ('w host, unit) prog" where
  "close_session sid = withS (\<lambda>h.
     case h_sessions h sid of
       None \<Rightarrow> ret ()
     | Some s \<Rightarrow>
       thenM (modify (\<lambda>h. h\<lparr>h_sessions := (h_sessions h)(sid := None)\<rparr>)) (\<lambda>_.
       forM (sorted_list_of_set (ss_accepted s - ss_resolved s)) (\<lambda>eid.
         modify (flag eid UNRESOLVED_ATTEMPT CallEndedUnresolved))))"

definition signer_tracker_of :: "'w host \<Rightarrow> pystr \<Rightarrow> signer_tracker option" where
  "signer_tracker_of h sid = (case h_sessions h sid of
      None \<Rightarrow> None
    | Some s \<Rightarrow> Some \<lparr>st_decided = (\<lambda>k. map_option sorted_list_of_set (ss_decided s k)),
                      st_received = ss_received s\<rparr>)"

section \<open>Validating an event\<close>

definition session_of :: "jobj \<Rightarrow> pystr option \<Rightarrow> ('w host, pystr option) prog" where
  "session_of event expected = withS (\<lambda>h.
     let sid = dget event SESSION_ID;
         refuse = thenM (modify (flag (event_id event) REPLAY_DETECTED (SessionNotCarried sid))) (\<lambda>_. ret None)
     in case sid of
          JStr s \<Rightarrow>
            if h_sessions h s = None \<or> (expected \<noteq> None \<and> expected \<noteq> Some s) then refuse
            else ret (Some s)
        | _ \<Rightarrow> refuse)"

definition admit :: "lib \<Rightarrow> jobj \<Rightarrow> pystr option \<Rightarrow> bool \<Rightarrow> ('w host, code + pystr) prog" where
  "admit L event expected attempt =
     (case first_validation_error L (JDict event) of
        Some e \<Rightarrow>
          thenM (modify (flag (event_id event) SCHEMA_INVALID (SchemaDetail e))) (\<lambda>_. ret (Inl SCHEMA_INVALID))
      | None \<Rightarrow>
          if outcome_is event ATTEMPTED \<noteq> attempt then
            thenM (modify (flag (event_id event) SCHEMA_INVALID
                     (if attempt then AttemptNotAttempted else OutcomeAttempted)))
              (\<lambda>_. ret (Inl SCHEMA_INVALID))
          else if outside_canonical_domain (JDict event) then
            thenM (modify (flag (event_id event) SCHEMA_INVALID ValueNotCanonicalizable))
              (\<lambda>_. ret (Inl SCHEMA_INVALID))
          else
            thenM (session_of event expected) (\<lambda>found.
            case found of Some sid \<Rightarrow> ret (Inr sid) | None \<Rightarrow> ret (Inl REPLAY_DETECTED)))"

definition receive :: "pystr \<Rightarrow> int \<Rightarrow> session \<Rightarrow> session" where
  "receive k n s =
     (case ss_received s k of
        Some m \<Rightarrow> if n > m then s\<lparr>ss_received := (ss_received s)(k \<mapsto> n)\<rparr> else s
      | None \<Rightarrow> s\<lparr>ss_received := (ss_received s)(k \<mapsto> n)\<rparr>)"

definition expected_signer_seq :: "session \<Rightarrow> pystr \<Rightarrow> int" where
  "expected_signer_seq s k = (case ss_received s k of None \<Rightarrow> 0 | Some m \<Rightarrow> m + 1)"

definition verify_signature :: "jobj \<Rightarrow> pystr \<Rightarrow> ('w host, code option) prog" where
  "verify_signature event sid = withS (\<lambda>h.
     if cap_level (h_capability h) \<noteq> L2 then ret None
     else case (truthy (dget event SIGNATURE), numbered_under event) of
       (True, Some (k, n)) \<Rightarrow>
         (case verifier (h_seams h) of
            None \<Rightarrow> raise RuntimeError
          | Some verify \<Rightarrow>
            thenM (outside (verify event)) (\<lambda>reason.
            case reason of
              Some r \<Rightarrow> thenM (modify (flag (event_id event) r SignatureFailed)) (\<lambda>_. ret (Some r))
            | None \<Rightarrow> withS (\<lambda>h.
                let s = session_of_id h sid in
                thenM (modify (\<lambda>h. if n > expected_signer_seq s k
                    then flag (event_id event) SIGNER_SEQ_GAP (ExpectedSignerSeq (expected_signer_seq s k) n) h
                    else h)) (\<lambda>_.
                thenM (modify (upd_session sid (receive k n))) (\<lambda>_. ret None)))))
     | _ \<Rightarrow> thenM (modify (flag (event_id event) L2_UNSIGNED L2Unsigned)) (\<lambda>_. ret (Some L2_UNSIGNED)))"

definition check_replay :: "jobj \<Rightarrow> pystr \<Rightarrow> ('w host, code option) prog" where
  "check_replay event sid = withS (\<lambda>h.
     if cap_level (h_capability h) \<noteq> L2 then ret None
     else case numbered_under event of
       None \<Rightarrow> ret None
     | Some (k, n) \<Rightarrow>
       if n \<in> or_default (ss_decided (session_of_id h sid) k) {}
       then thenM (modify (flag (event_id event) REPLAY_DETECTED (AlreadyDecided n))) (\<lambda>_. ret (Some REPLAY_DETECTED))
       else ret None)"

section \<open>The attempt handler\<close>

text \<open>\<open>accept\<close> of \<open>transport.py\<close>, and the accept of a sealed record: constructing it validates it.\<close>

definition accept :: "int \<Rightarrow> pystr \<Rightarrow> pystr \<Rightarrow> pystr \<Rightarrow> pystr option \<Rightarrow> pystr option \<Rightarrow> pystr option \<Rightarrow> accept_response" where
  "accept n h ts prev hs hk lid =
     \<lparr>acc_seq = n, acc_record_hash = h, acc_host_ts = ts, acc_previous_hash = prev,
      acc_host_signature = hs, acc_host_key_id = hk, acc_log_id = lid\<rparr>"

definition accept_fields :: "sealed_record \<Rightarrow> accept_response" where
  "accept_fields r = accept (rec_seqno r) (rec_record_hash r) (rec_host_ts r) (rec_previous_hash r)
     (rec_host_signature r) (rec_host_key_id r) (rec_log_id r)"

definition accept_of :: "lib \<Rightarrow> sealed_record \<Rightarrow> ('w host, response) prog" where
  "accept_of L r = (case accept_error L (accept_fields r) of
      Some e \<Rightarrow> raise (ValidationError e)
    | None \<Rightarrow> ret (Accept (accept_fields r)))"

definition refuse_decided :: "jobj \<Rightarrow> pystr \<Rightarrow> detail \<Rightarrow> ('w host, response) prog" where
  "refuse_decided event sid detail =
     thenM (modify (reject_id (event_id event))) (\<lambda>_.
     thenM (modify (decide event sid)) (\<lambda>_.
     thenM (modify (flag (event_id event) REPLAY_DETECTED detail)) (\<lambda>_. ret (Reject REPLAY_DETECTED))))"

definition answer_sealed :: "lib \<Rightarrow> jobj \<Rightarrow> pystr \<Rightarrow> sealed_record \<Rightarrow> ('w host, response) prog" where
  "answer_sealed L event sid sealed =
     thenM (canonM (canonicalize L (JDict (rec_event sealed)))) (\<lambda>s.
     thenM (canonM (canonicalize L (JDict event))) (\<lambda>t.
     if s = t then
       thenM (if dget (rec_event sealed) SESSION_ID = dget event SESSION_ID
              then modify (upd_session sid (accept_attempt (event_id event))) else ret ())
         (\<lambda>_. accept_of L sealed)
     else refuse_decided event sid AttemptIdReused))"

text \<open>The end of \<open>_handle_attempt\<close>, once \<open>_seal\<close> has answered.\<close>

definition sealed_attempt :: "lib \<Rightarrow> jobj \<Rightarrow> pystr \<Rightarrow> sealed_record option \<Rightarrow> ('w host, response) prog" where
  "sealed_attempt L event sid sealed =
     (case sealed of
        None \<Rightarrow> ret Unavailable
      | Some r \<Rightarrow>
        thenM (modify (decide event sid)) (\<lambda>_.
        thenM (modify (upd_session sid (accept_attempt (event_id event)))) (\<lambda>_. accept_of L r)))"

definition attempt_new :: "lib \<Rightarrow> jobj \<Rightarrow> pystr \<Rightarrow> ('w host, response) prog" where
  "attempt_new L event sid =
     thenM (check_replay event sid) (\<lambda>reason.
     case reason of
       Some r \<Rightarrow>
         thenM (modify (reject_id (event_id event))) (\<lambda>_.
         thenM (modify (decide event sid)) (\<lambda>_. ret (Reject r)))
     | None \<Rightarrow> withS (\<lambda>h.
         if \<not> h_persistence_available h then ret Unavailable
         else thenM (seal_now L event) (sealed_attempt L event sid)))"

definition handle_admitted_attempt :: "lib \<Rightarrow> jobj \<Rightarrow> pystr \<Rightarrow> ('w host, response) prog" where
  "handle_admitted_attempt L event sid =
     thenM (verify_signature event sid) (\<lambda>reason.
     case reason of
       Some r \<Rightarrow> thenM (modify (reject_id (event_id event))) (\<lambda>_. ret (Reject r))
     | None \<Rightarrow> withS (\<lambda>h.
         case h_sealed_attempts h (event_id event) of
           Some sealed \<Rightarrow> answer_sealed L event sid sealed
         | None \<Rightarrow>
           if ss_outcomes (session_of_id h sid) (event_id event) \<noteq> None
           then refuse_decided event sid OutcomeAlreadySealed
           else attempt_new L event sid))"

definition handle_attempt_locked :: "lib \<Rightarrow> jobj \<Rightarrow> pystr option \<Rightarrow> ('w host, response) prog" where
  "handle_attempt_locked L event expected =
     thenM (admit L event expected True) (\<lambda>admitted.
     case admitted of Inl r \<Rightarrow> ret (Reject r) | Inr sid \<Rightarrow> handle_admitted_attempt L event sid)"

text \<open>\<open>expired\<close>: a deadline was given and has passed when the lock is taken.\<close>

definition handle_attempt :: "lib \<Rightarrow> jobj \<Rightarrow> pystr option \<Rightarrow> bool \<Rightarrow> ('w host, response) prog" where
  "handle_attempt L event expected expired =
     (if expired then ret Unavailable
      else thenM (settle_tail L) (\<lambda>settled.
        if \<not> settled then ret Unavailable else handle_attempt_locked L event expected))"

section \<open>The outcome handler\<close>

definition sealed_outcome :: "jobj \<Rightarrow> pystr \<Rightarrow> pystr \<Rightarrow> sealed_record option \<Rightarrow> ('w host, disposition) prog" where
  "sealed_outcome event sid d sealed =
     (case sealed of
        None \<Rightarrow> ret NOT_RECORDED
      | Some r \<Rightarrow>
        thenM (modify (decide event sid)) (\<lambda>_.
        thenM (modify (upd_session sid (resolve_outcome (event_id event) d))) (\<lambda>_. ret SEALED)))"

definition seal_outcome :: "lib \<Rightarrow> jobj \<Rightarrow> pystr \<Rightarrow> pystr \<Rightarrow> ('w host, disposition) prog" where
  "seal_outcome L event sid d = withS (\<lambda>h.
     thenM (if h_persistence_available h then seal_now L event else ret None) (sealed_outcome event sid d))"

definition refuse_outcome :: "jobj \<Rightarrow> pystr \<Rightarrow> code \<Rightarrow> detail \<Rightarrow> ('w host, disposition) prog" where
  "refuse_outcome event sid kind detail =
     thenM (modify (decide event sid)) (\<lambda>_.
     thenM (modify (flag (event_id event) kind detail)) (\<lambda>_. ret REFUSED))"

definition handle_verified_outcome :: "lib \<Rightarrow> jobj \<Rightarrow> pystr \<Rightarrow> ('w host, disposition) prog" where
  "handle_verified_outcome L event sid =
     thenM (canonM (event_digest L event)) (\<lambda>d. withS (\<lambda>h.
       let s = session_of_id h sid; eid = event_id event in
       if ss_outcomes s eid = Some d \<or> d \<in> h_sealed_digests h then ret REPEAT
       else if ss_outcomes s eid \<noteq> None then refuse_outcome event sid REPLAY_DETECTED SecondOutcome
       else thenM (check_replay event sid) (\<lambda>replay.
         if replay \<noteq> None then ret REFUSED
         else if eid \<notin> ss_accepted s \<and> \<not> outcome_is event ABORTED
         then refuse_outcome event sid ORPHANED_OUTCOME
           (if eid \<in> h_rejected_ids h then OutcomeForRejectedId else OutcomeWithoutAttempt)
         else seal_outcome L event sid d)))"

definition handle_outcome_locked :: "lib \<Rightarrow> jobj \<Rightarrow> pystr option \<Rightarrow> ('w host, disposition) prog" where
  "handle_outcome_locked L event expected =
     thenM (admit L event expected False) (\<lambda>admitted.
     case admitted of
       Inl r \<Rightarrow> ret REFUSED
     | Inr sid \<Rightarrow>
       thenM (verify_signature event sid) (\<lambda>reason.
       case reason of Some r \<Rightarrow> ret REFUSED | None \<Rightarrow> handle_verified_outcome L event sid))"

definition record_outcome :: "lib \<Rightarrow> jobj \<Rightarrow> pystr option \<Rightarrow> ('w host, disposition) prog" where
  "record_outcome L event expected =
     thenM (settle_tail L) (\<lambda>settled.
     if \<not> settled then ret NOT_RECORDED else handle_outcome_locked L event expected)"

definition handle_outcome :: "lib \<Rightarrow> jobj \<Rightarrow> pystr option \<Rightarrow> ('w host, unit) prog" where
  "handle_outcome L event expected = thenM (record_outcome L event expected) (\<lambda>_. ret ())"

section \<open>Resuming from a persisted chain\<close>

definition note_number :: "pystr \<Rightarrow> int \<Rightarrow> session \<Rightarrow> session" where
  "note_number k n s = (add_decided k n s)\<lparr>ss_received := (ss_received s)(k \<mapsto> max (or_default (ss_received s k) n) n)\<rparr>"

definition restore_record :: "lib \<Rightarrow> pystr \<Rightarrow> sealed_record \<Rightarrow> session \<Rightarrow> canon_error + session" where
  "restore_record L sid r s =
     (let event = rec_event r in
      if dget event SESSION_ID \<noteq> JStr sid \<or> dget event SPEC_VERSION_F \<noteq> JStr SPEC_VERSION then Inr s
      else let s' = (case numbered_under event of None \<Rightarrow> s | Some (k, n) \<Rightarrow> note_number k n s) in
        if outcome_is event ATTEMPTED then Inr (accept_attempt (event_id event) s')
        else case event_digest L event of
          Inl e \<Rightarrow> Inl e
        | Inr d \<Rightarrow> Inr (resolve_outcome (event_id event) d s'))"

fun restore_records :: "lib \<Rightarrow> pystr \<Rightarrow> sealed_record list \<Rightarrow> session \<Rightarrow> canon_error + session" where
  "restore_records L sid [] s = Inr s"
| "restore_records L sid (r # rs) s =
     (case restore_record L sid r s of Inl e \<Rightarrow> Inl e | Inr s' \<Rightarrow> restore_records L sid rs s')"

definition restored_session :: "lib \<Rightarrow> pystr \<Rightarrow> sealed_record list \<Rightarrow> canon_error + session" where
  "restored_session L sid rs = restore_records L sid rs new_session"

definition merge_tracker :: "signer_tracker option \<Rightarrow> session \<Rightarrow> session" where
  "merge_tracker st s = (case st of
      None \<Rightarrow> s
    | Some t \<Rightarrow> s\<lparr>
        ss_decided := (\<lambda>k. case st_decided t k of None \<Rightarrow> ss_decided s k
           | Some values \<Rightarrow> Some (or_default (ss_decided s k) {} \<union> set values)),
        ss_received := (\<lambda>k. case st_received t k of None \<Rightarrow> ss_received s k
           | Some v \<Rightarrow> Some (max (or_default (ss_received s k) v) v))\<rparr>)"

text \<open>\<open>_flag_unresolved\<close>: the attempts, in order, left open outside the sessions \<open>opened\<close>.\<close>

definition track_open :: "pystr set \<Rightarrow> sealed_record \<Rightarrow> ((pystr \<times> pystr) \<times> pystr) list \<Rightarrow> ((pystr \<times> pystr) \<times> pystr) list" where
  "track_open opened r attempts =
     (let event = rec_event r; eid = event_id event in
      case dget event SESSION_ID of
        JStr sid \<Rightarrow>
          if dget event SPEC_VERSION_F \<noteq> JStr SPEC_VERSION \<or> sid \<in> opened then attempts
          else if outcome_is event ATTEMPTED then AList.update (sid, eid) eid attempts
          else AList.delete (sid, eid) attempts
      | _ \<Rightarrow> attempts)"

definition open_attempts :: "pystr set \<Rightarrow> sealed_record list \<Rightarrow> ((pystr \<times> pystr) \<times> pystr) list" where
  "open_attempts opened rs = fold (track_open opened) rs []"

definition flag_unresolved :: "sealed_record list \<Rightarrow> pystr set \<Rightarrow> ('w host, unit) prog" where
  "flag_unresolved rs opened =
     forM (map snd (open_attempts opened rs)) (\<lambda>eid. modify (flag eid UNRESOLVED_ATTEMPT HostRestartedUnresolved))"

definition issue :: "pystr \<Rightarrow> 'w host \<Rightarrow> 'w host" where
  "issue sid h = h\<lparr>h_issued := insert sid (h_issued h)\<rparr>"

definition note_issued :: "jobj \<Rightarrow> 'w host \<Rightarrow> 'w host" where
  "note_issued event h = (case dget event SESSION_ID of JStr sid \<Rightarrow> issue sid h | _ \<Rightarrow> h)"

definition restore_session :: "lib \<Rightarrow> sealed_record list \<Rightarrow> open_session_entry \<Rightarrow> ('w host, unit) prog" where
  "restore_session L rs entry =
     thenM (modify (issue (os_session_id entry))) (\<lambda>_.
     thenM (canonM (restored_session L (os_session_id entry) rs)) (\<lambda>s.
     modify (\<lambda>h. h\<lparr>h_sessions := (h_sessions h)(os_session_id entry \<mapsto> merge_tracker (os_signers entry) s)\<rparr>)))"

definition resume_records :: "lib \<Rightarrow> sealed_record list \<Rightarrow> open_session_entry list \<Rightarrow> ('w host, unit) prog" where
  "resume_records L rs entries =
     thenM (modify (\<lambda>h. h\<lparr>h_ledger := resume_from (tail_of rs) (h_ledger h)\<rparr>)) (\<lambda>_.
     thenM (forM rs (\<lambda>r. thenM (remember L r) (\<lambda>_. modify (note_issued (rec_event r))))) (\<lambda>_.
     thenM (forM entries (restore_session L rs)) (\<lambda>_.
     flag_unresolved rs (set (map os_session_id entries)))))"

text \<open>\<open>AuditHost.resume\<close>, after the constructor (\<open>new_host\<close>) has built the host it starts from.\<close>

definition resume :: "lib \<Rightarrow> 'w repository \<Rightarrow> open_session_entry list \<Rightarrow> ('w host, unit) prog" where
  "resume L rp entries = withS (\<lambda>h.
     thenM (outside (rp_read_all rp (h_partition h))) (\<lambda>rs. resume_records L rs entries))"

end
