(* ===== verification/HostSpec.thy ===== *)
theory HostSpec
  imports Host
begin

text \<open>
  What a host promises of the log it keeps, stated of the sequence of sealed events alone.
  \<open>admissible lv past e\<close>: after \<open>past\<close>, the event \<open>e\<close> may be sealed. \<open>log_ok\<close>: every event was admissible
  when it was sealed. An operation is a session id with an event id.
\<close>

definition same_op :: "jobj \<Rightarrow> jobj \<Rightarrow> bool" where
  "same_op p e \<longleftrightarrow> dget p SESSION_ID = dget e SESSION_ID \<and> event_id p = event_id e"

abbreviation attempted :: "jobj \<Rightarrow> bool" where
  "attempted e \<equiv> outcome_is e ATTEMPTED"

definition same_number :: "jobj \<Rightarrow> jobj \<Rightarrow> bool" where
  "same_number p e \<longleftrightarrow> dget p SESSION_ID = dget e SESSION_ID \<and>
     numbered_under p = numbered_under e \<and> numbered_under e \<noteq> None"

definition admissible :: "level \<Rightarrow> jobj list \<Rightarrow> jobj \<Rightarrow> bool" where
  "admissible lv past e \<longleftrightarrow>
     (\<forall>p\<in>set past. \<not> attempted p \<longrightarrow> \<not> same_op p e) \<and>
     (attempted e \<longrightarrow> (\<forall>p\<in>set past. attempted p \<longrightarrow> event_id p \<noteq> event_id e)) \<and>
     (\<not> attempted e \<longrightarrow> outcome_is e ABORTED \<or> (\<exists>p\<in>set past. attempted p \<and> same_op p e)) \<and>
     (lv = L2 \<longrightarrow> (\<forall>p\<in>set past. \<not> same_number p e))"

definition log_ok :: "level \<Rightarrow> jobj list \<Rightarrow> bool" where
  "log_ok lv es \<longleftrightarrow> (\<forall>i<length es. admissible lv (take i es) (es ! i))"

lemma log_ok_Nil [simp]: "log_ok lv []"
  by (simp add: log_ok_def)

lemma log_ok_snoc [simp]: "log_ok lv (es @ [e]) \<longleftrightarrow> log_ok lv es \<and> admissible lv es e"
  by (auto simp: log_ok_def less_Suc_eq nth_append)

lemma log_ok_before:
  assumes "log_ok lv es" "i < j" "j < length es"
  shows "admissible lv (take j es) (es ! j)" "es ! i \<in> set (take j es)"
proof -
  show "admissible lv (take j es) (es ! j)" using assms by (simp add: log_ok_def)
  show "es ! i \<in> set (take j es)"
    using assms by (metis in_set_conv_nth length_take min.absorb4 nth_take)
qed

text \<open>One sealed attempt per event id in the whole log.\<close>

lemma log_attempt_unique:
  assumes "log_ok lv es" "i < length es" "j < length es" "attempted (es ! i)" "attempted (es ! j)"
    "event_id (es ! i) = event_id (es ! j)"
  shows "i = j"
proof -
  have "\<not> (i < j)" if "i < length es" "j < length es" "attempted (es ! i)" "attempted (es ! j)"
    "event_id (es ! i) = event_id (es ! j)" for i j
    using that log_ok_before [OF assms(1), of i j] by (auto simp: admissible_def)
  with assms show ?thesis by (metis nat_neq_iff)
qed

text \<open>One terminal record per operation, and nothing of the operation after it.\<close>

lemma log_terminal_last:
  assumes "log_ok lv es" "i < j" "j < length es" "\<not> attempted (es ! i)"
  shows "\<not> same_op (es ! i) (es ! j)"
  using assms log_ok_before [OF assms(1-3)] by (auto simp: admissible_def)

text \<open>A success or failed outcome follows the sealed attempt of its operation.\<close>

lemma log_outcome_after_attempt:
  assumes "log_ok lv es" "j < length es" "\<not> attempted (es ! j)" "\<not> outcome_is (es ! j) ABORTED"
  shows "\<exists>i<j. attempted (es ! i) \<and> same_op (es ! i) (es ! j)"
proof -
  have "admissible lv (take j es) (es ! j)" using assms by (simp add: log_ok_def)
  with assms(3,4) obtain p where p: "p \<in> set (take j es)" "attempted p" "same_op p (es ! j)"
    by (auto simp: admissible_def)
  then obtain i where "i < j" "p = es ! i"
    using assms(2) by (auto simp: in_set_conv_nth)
  with p show ?thesis by blast
qed

text \<open>At Level 2 no signer number is sealed twice in a session.\<close>

lemma same_number_sym: "same_number p e \<Longrightarrow> same_number e p"
  by (auto simp: same_number_def)

lemma log_number_unique:
  assumes "log_ok L2 es" "i < length es" "j < length es" "same_number (es ! i) (es ! j)"
  shows "i = j"
proof -
  have "\<not> (i < j)" if "j < length es" "same_number (es ! i) (es ! j)" for i j
    using that log_ok_before [OF assms(1), of i j] by (auto simp: admissible_def)
  from this [of j i] this [of i j] assms show ?thesis
    by (simp add: same_number_sym)
qed

end
