(* ===== verification/HostSteps.thy ===== *)
theory HostSteps
  imports Host
begin

text \<open>
  What the small steps of the host do, as rules for \<open>wp\<close>. The outside world enters through \<open>stored\<close>,
  the chain the repository holds per partition: \<open>env_ok\<close> says the repository keeps its contract and that no
  other seam writes to it. \<open>quiet h h'\<close>: the step changed nothing but the rest of the world, the anomalies
  and the reject memory. \<open>unsealed\<close>: the same, but for an append whose acknowledgement was lost.
  \<open>sealed_as\<close>: one record was stored, committed and made recognizable.
\<close>

type_synonym 'w store = "'w \<Rightarrow> pystr \<Rightarrow> sealed_record list"

definition frame :: "('w \<Rightarrow> 'x) \<Rightarrow> ('w, 'a) prog \<Rightarrow> bool" where
  "frame f m \<longleftrightarrow> (\<forall>w. f (snd (m w)) = f w)"

definition env_ok :: "'w store \<Rightarrow> 'w seams \<Rightarrow> bool" where
  "env_ok stored sm \<longleftrightarrow>
     (\<forall>rp. repository sm = Some rp \<longrightarrow> ledger_repository rp stored) \<and>
     (\<forall>v e. verifier sm = Some v \<longrightarrow> frame stored (v e)) \<and>
     (\<forall>k sign payload. countersigner sm = Some (k, sign) \<longrightarrow> frame stored (sign payload)) \<and>
     frame stored (clock sm)"

definition held :: "'w store \<Rightarrow> 'w host \<Rightarrow> sealed_record list" where
  "held stored h = stored (h_world h) (h_partition h)"

section \<open>Relations between the host before and after\<close>

definition same_host :: "'w host \<Rightarrow> 'w host \<Rightarrow> bool" where
  "same_host h h' \<longleftrightarrow>
     h_capability h' = h_capability h \<and> h_partition h' = h_partition h \<and> h_log_id h' = h_log_id h \<and>
     h_seams h' = h_seams h \<and> h_ledger h' = h_ledger h \<and> h_sessions h' = h_sessions h \<and>
     h_issued h' = h_issued h \<and> h_sealed_attempts h' = h_sealed_attempts h \<and>
     h_sealed_digests h' = h_sealed_digests h \<and> h_persistence_available h' = h_persistence_available h"

definition quiet :: "'w store \<Rightarrow> 'w host \<Rightarrow> 'w host \<Rightarrow> bool" where
  "quiet stored h h' \<longleftrightarrow> same_host h h' \<and> h_tail_uncertain h' = h_tail_uncertain h \<and> held stored h' = held stored h"

definition unsealed :: "'w store \<Rightarrow> lib \<Rightarrow> jobj \<Rightarrow> 'w host \<Rightarrow> 'w host \<Rightarrow> bool" where
  "unsealed stored L event h h' \<longleftrightarrow> same_host h h' \<and>
     (held stored h' = held stored h \<and> (h_tail_uncertain h \<longrightarrow> h_tail_uncertain h') \<or>
      h_tail_uncertain h' \<and> (\<exists>r. rec_event r = event \<and> next_record L (h_ledger h) r \<and>
        held stored h' = held stored h @ [r]))"

lemma same_host_refl [simp, intro]: "same_host h h"
  by (simp add: same_host_def)

lemma same_host_trans: "same_host h h' \<Longrightarrow> same_host h' h'' \<Longrightarrow> same_host h h''"
  by (simp add: same_host_def)

lemma same_host_steps [simp]:
  "same_host h (h'\<lparr>h_world := w\<rparr>) = same_host h h'" "same_host h (flag i k d h') = same_host h h'"
  "same_host h (doubt_tail h') = same_host h h'" "same_host h (reject_id i h') = same_host h h'"
  "same_host h (h'\<lparr>h_tail_uncertain := u\<rparr>) = same_host h h'"
  by (simp_all add: same_host_def flag_def doubt_tail_def reject_id_def)

lemma held_steps [simp]:
  "held stored (flag i k d h) = held stored h" "held stored (doubt_tail h) = held stored h"
  "held stored (reject_id i h) = held stored h" "held stored (h\<lparr>h_tail_uncertain := u\<rparr>) = held stored h"
  by (simp_all add: held_def flag_def doubt_tail_def reject_id_def)

lemma uncertain_steps [simp]:
  "h_tail_uncertain (flag i k d h) = h_tail_uncertain h" "h_tail_uncertain (reject_id i h) = h_tail_uncertain h"
  "h_tail_uncertain (doubt_tail h)"
  by (simp_all add: flag_def doubt_tail_def reject_id_def)

lemma quiet_refl [simp, intro]: "quiet stored h h"
  by (simp add: quiet_def)

lemma quiet_trans: "quiet stored h h' \<Longrightarrow> quiet stored h' h'' \<Longrightarrow> quiet stored h h''"
  by (auto simp: quiet_def intro: same_host_trans)

lemma quiet_steps [simp]:
  "quiet stored h (flag i k d h') = quiet stored h h'" "quiet stored h (reject_id i h') = quiet stored h h'"
  by (simp_all add: quiet_def)

lemma quiet_world: "stored w = stored (h_world h) \<Longrightarrow> quiet stored h (h\<lparr>h_world := w\<rparr>)"
  by (simp add: quiet_def held_def)

lemma quiet_unsealed: "quiet stored h h' \<Longrightarrow> unsealed stored L event h h'"
  by (simp add: quiet_def unsealed_def)

lemma unsealed_quiet: "quiet stored h h' \<Longrightarrow> unsealed stored L event h' h'' \<Longrightarrow> unsealed stored L event h h''"
  unfolding quiet_def unsealed_def same_host_def by auto

lemma unsealed_doubt: "quiet stored h h' \<Longrightarrow> unsealed stored L event h (doubt_tail h')"
  by (simp add: quiet_def unsealed_def)

lemma quiet_env: "quiet stored h h' \<Longrightarrow> h_seams h' = h_seams h" "quiet stored h h' \<Longrightarrow> h_partition h' = h_partition h"
  "quiet stored h h' \<Longrightarrow> h_ledger h' = h_ledger h" "quiet stored h h' \<Longrightarrow> held stored h' = held stored h"
  by (simp_all add: quiet_def same_host_def)

section \<open>Calls to the outside\<close>

lemma wp_outside:
  "wp (outside m) Q E h = (case m (h_world h) of
     (Ret a, w) \<Rightarrow> Q a (h\<lparr>h_world := w\<rparr>) | (Exc e, w) \<Rightarrow> E e (h\<lparr>h_world := w\<rparr>))"
  by (simp add: wp_def outside_def split: prod.split pyres.split)

lemma wp_outside_frame:
  assumes "frame stored m" "\<And>a h'. quiet stored h h' \<Longrightarrow> Q a h'" "\<And>e h'. quiet stored h h' \<Longrightarrow> E e h'"
  shows "wp (outside m) Q E h"
proof -
  obtain r w where m: "m (h_world h) = (r, w)" by (cases "m (h_world h)")
  with assms(1) have "stored w = stored (h_world h)" by (metis frame_def snd_conv)
  then have "quiet stored h (h\<lparr>h_world := w\<rparr>)" by (rule quiet_world)
  with assms(2,3) show ?thesis
    by (cases r) (simp_all add: wp_outside m)
qed

context ledger_repository
begin

lemma wp_append:
  assumes ret: "\<And>h'. same_host h h' \<Longrightarrow> h_tail_uncertain h' = h_tail_uncertain h \<Longrightarrow>
      held stored h' = held stored h @ [r] \<Longrightarrow> Q () h'"
    and exc: "\<And>e h'. same_host h h' \<Longrightarrow> h_tail_uncertain h' = h_tail_uncertain h \<Longrightarrow>
      held stored h' = held stored h \<or> held stored h' = held stored h @ [r] \<Longrightarrow> E e h'"
  shows "wp (outside (rp_append rp (h_partition h) r)) Q E h"
proof -
  obtain a w where m: "rp_append rp (h_partition h) r (h_world h) = (a, w)"
    by (cases "rp_append rp (h_partition h) r (h_world h)")
  show ?thesis
  proof (cases a)
    case (Ret u)
    with m append_ret [of "h_partition h" r "h_world h" w]
    have "stored w (h_partition h) = stored (h_world h) (h_partition h) @ [r]" by simp
    with Ret show ?thesis
      by (simp add: wp_outside m ret [of "h\<lparr>h_world := w\<rparr>"] held_def)
  next
    case (Exc e)
    with m append_exc [of "h_partition h" r "h_world h" e w]
    have "stored w (h_partition h) = stored (h_world h) (h_partition h) \<or>
      stored w (h_partition h) = stored (h_world h) (h_partition h) @ [r]" by auto
    with Exc show ?thesis
      by (simp add: wp_outside m exc [of "h\<lparr>h_world := w\<rparr>"] held_def)
  qed
qed

lemma wp_load_tail:
  assumes ret: "\<And>h'. quiet stored h h' \<Longrightarrow> Q (tail_of (held stored h)) h'"
    and exc: "\<And>e h'. quiet stored h h' \<Longrightarrow> E e h'"
  shows "wp (outside (rp_load_tail rp (h_partition h))) Q E h"
proof -
  obtain a w where m: "rp_load_tail rp (h_partition h) (h_world h) = (a, w)"
    by (cases "rp_load_tail rp (h_partition h) (h_world h)")
  then have "stored w = stored (h_world h)"
    using load_tail_stored [of "h_partition h" "h_world h"] by simp
  then have q: "quiet stored h (h\<lparr>h_world := w\<rparr>)" by (rule quiet_world)
  show ?thesis
  proof (cases a)
    case (Ret t)
    with m load_tail_ret have "t = tail_of (held stored h)" by (simp add: held_def)
    with Ret ret [OF q] show ?thesis by (simp add: wp_outside m)
  next
    case (Exc e)
    with exc [OF q] show ?thesis by (simp add: wp_outside m)
  qed
qed

lemma wp_read_all:
  assumes ret: "\<And>h'. quiet stored h h' \<Longrightarrow> Q (held stored h) h'"
    and exc: "\<And>e h'. quiet stored h h' \<Longrightarrow> fst (rp_read_all rp (h_partition h) (h_world h)) = Exc e \<Longrightarrow> E e h'"
  shows "wp (outside (rp_read_all rp (h_partition h))) Q E h"
proof -
  obtain a w where m: "rp_read_all rp (h_partition h) (h_world h) = (a, w)"
    by (cases "rp_read_all rp (h_partition h) (h_world h)")
  then have "stored w = stored (h_world h)"
    using read_all_stored [of "h_partition h" "h_world h"] by simp
  then have q: "quiet stored h (h\<lparr>h_world := w\<rparr>)" by (rule quiet_world)
  show ?thesis
  proof (cases a)
    case (Ret t)
    with m read_all_ret have "t = held stored h" by (simp add: held_def)
    with Ret ret [OF q] show ?thesis by (simp add: wp_outside m)
  next
    case (Exc e)
    with exc [OF q] show ?thesis by (simp add: wp_outside m)
  qed
qed

end

section \<open>Sealing\<close>

definition remembered :: "sealed_record \<Rightarrow> pystr \<Rightarrow> 'w host \<Rightarrow> 'w host" where
  "remembered r d h =
     h\<lparr>h_sealed_digests := insert d (h_sealed_digests h),
       h_sealed_attempts := (if outcome_is (rec_event r) ATTEMPTED
         then (h_sealed_attempts h)(event_id (rec_event r) \<mapsto> r) else h_sealed_attempts h)\<rparr>"

lemma wp_remember:
  "wp (remember L r) Q E h = (case event_digest L (rec_event r) of
      Inl e \<Rightarrow> E (CanonicalizationError e) h | Inr d \<Rightarrow> Q () (remembered r d h))"
  by (simp add: remember_def remembered_def wp_simps split: sum.split)

definition sealed_as :: "'w store \<Rightarrow> lib \<Rightarrow> jobj \<Rightarrow> 'w host \<Rightarrow> sealed_record \<Rightarrow> 'w host \<Rightarrow> bool" where
  "sealed_as stored L event h r h' \<longleftrightarrow>
     rec_event r = event \<and> next_record L (h_ledger h) r \<and>
     (\<exists>d h0. event_digest L event = Inr d \<and> same_host h h0 \<and> h_tail_uncertain h0 = h_tail_uncertain h \<and>
        held stored h0 = (if repository (h_seams h) = None then held stored h else held stored h @ [r]) \<and>
        h' = remembered r d (commit_record r h0))"

definition countersigned_from :: "sealed_record \<Rightarrow> sealed_record \<Rightarrow> bool" where
  "countersigned_from s r \<longleftrightarrow> r = s \<or>
     (\<exists>a b c. r = s\<lparr>rec_host_signature := Some a, rec_host_key_id := Some b, rec_log_id := Some c\<rparr>)"

lemma countersigned_fromI [simp]: "countersigned_from s s"
  "countersigned_from s (s\<lparr>rec_host_signature := Some a, rec_host_key_id := Some b, rec_log_id := Some c\<rparr>)"
  unfolding countersigned_from_def by blast+

lemma wp_countersign:
  assumes env: "env_ok stored (h_seams h)"
    and some: "\<And>r h'. quiet stored h h' \<Longrightarrow> countersigned_from s r \<Longrightarrow> Q (Some r) h'"
    and none: "\<And>h'. quiet stored h h' \<Longrightarrow> Q None h'"
    and exc: "\<And>e h'. unsealed stored L event h h' \<Longrightarrow> E e h'"
  shows "wp (countersign_record L s) Q E h"
proof (cases "countersigner (h_seams h)")
  case None
  then show ?thesis by (simp add: countersign_record_def wp_simps some)
next
  case (Some c)
  obtain k sign where c: "c = (k, sign)" by (cases c)
  then have f: "frame stored (sign payload)" for payload
    using env Some by (simp add: env_ok_def)
  have step: "wp (catchM (thenM (outside (sign payload)) (\<lambda>signature.
           ret (Some (s\<lparr>rec_host_signature := Some signature, rec_host_key_id := Some k,
                             rec_log_id := Some (h_log_id h)\<rparr>))))
         (\<lambda>e. if is_Exception e then ret None
              else thenM (modify doubt_tail) (\<lambda>_. raise e))) Q E h" for payload
    unfolding wp_catchM wp_thenM
    by (rule wp_outside_frame [OF f]) (auto simp: wp_ret wp_if wp_thenM wp_modify wp_raise
        intro!: some none exc unsealed_doubt)
  show ?thesis
    using step
    by (auto simp: countersign_record_def wp_withS wp_thenM wp_canonM Some c intro!: exc quiet_unsealed
        split: sum.split)
qed

context ledger_repository
begin

lemma wp_persist_stored:
  assumes rp: "repository (h_seams h) = Some rp"
    and r: "rec_event r = event" "next_record L (h_ledger h) r"
    and ret: "\<And>h'. same_host h h' \<Longrightarrow> h_tail_uncertain h' = h_tail_uncertain h \<Longrightarrow>
      held stored h' = held stored h @ [r] \<Longrightarrow> Q True h'"
    and none: "\<And>h'. unsealed stored L event h h' \<Longrightarrow> Q False h'"
    and exc: "\<And>e h'. unsealed stored L event h h' \<Longrightarrow> E e h'"
  shows "wp (persist r) Q E h"
proof -
  have doubted: "unsealed stored L event h (doubt_tail h')"
    if "same_host h h'" "held stored h' = held stored h \<or> held stored h' = held stored h @ [r]" for h'
    using that r by (auto simp: unsealed_def)
  show ?thesis
    unfolding persist_def wp_withS rp option.case wp_catchM wp_thenM
    by (rule wp_append) (auto simp: wp_simps intro: ret none exc doubted)
qed

end

lemma wp_persist:
  assumes env: "env_ok stored (h_seams h)" and r: "rec_event r = event" "next_record L (h_ledger h) r"
    and ret: "\<And>h'. same_host h h' \<Longrightarrow> h_tail_uncertain h' = h_tail_uncertain h \<Longrightarrow>
      held stored h' = (if repository (h_seams h) = None then held stored h else held stored h @ [r]) \<Longrightarrow> Q True h'"
    and none: "\<And>h'. unsealed stored L event h h' \<Longrightarrow> Q False h'"
    and exc: "\<And>e h'. unsealed stored L event h h' \<Longrightarrow> E e h'"
  shows "wp (persist r) Q E h"
proof (cases "repository (h_seams h)")
  case None
  then show ?thesis by (simp add: persist_def wp_simps ret)
next
  case (Some rp)
  then have "ledger_repository rp stored" using env by (simp add: env_ok_def)
  from ledger_repository.wp_persist_stored [OF this Some r] Some ret none exc show ?thesis
    by simp
qed

text \<open>
  A seal that returns a record stored it, committed it at the next position and remembered it; a seal
  that returns none, or is interrupted, committed nothing.
\<close>

lemma wp_seal_event:
  assumes env: "env_ok stored (h_seams h)" and dig: "event_digest L event = Inr d"
    and some: "\<And>r h'. sealed_as stored L event h r h' \<Longrightarrow> Q (Some r) h'"
    and none: "\<And>h'. unsealed stored L event h h' \<Longrightarrow> Q None h'"
    and exc: "\<And>e h'. unsealed stored L event h h' \<Longrightarrow> E e h'"
  shows "wp (seal_event L event ts) Q E h"
proof (cases "seal L (h_ledger h) event ts")
  case (Inl e)
  then show ?thesis by (simp add: seal_event_def wp_simps exc quiet_unsealed)
next
  case (Inr s)
  have after: "wp (persist r) (\<lambda>b. wp (if \<not> b then ret None
        else thenM (modify (commit_record r)) (\<lambda>_. thenM (remember L r) (\<lambda>_. ret (Some r)))) Q E) E h'"
    if q: "quiet stored h h'" and c: "countersigned_from s r" for r h'
  proof (rule wp_persist)
    show ev: "rec_event r = event" using c seal_fields [OF Inr] by (auto simp: countersigned_from_def)
    show env': "env_ok stored (h_seams h')" using env q by (simp add: quiet_env)
    have nxt: "next_record L (h_ledger h) r"
      using c seal_next [OF Inr] by (auto simp: countersigned_from_def)
    then show "next_record L (h_ledger h') r" using q by (simp add: quiet_env)
    fix h''
    assume h'': "same_host h' h''" "h_tail_uncertain h'' = h_tail_uncertain h'"
      "held stored h'' = (if repository (h_seams h') = None then held stored h' else held stored h' @ [r])"
    have "sealed_as stored L event h r (remembered r d (commit_record r h''))"
      unfolding sealed_as_def using ev nxt dig h'' q
      by (auto simp: quiet_def intro!: exI [of _ h''] intro: same_host_trans simp: same_host_def)
    then show "wp (if \<not> True then ret None
        else thenM (modify (commit_record r)) (\<lambda>_. thenM (remember L r) (\<lambda>_. ret (Some r)))) Q E h''"
      by (simp add: wp_simps wp_remember ev dig some)
  qed (auto simp: wp_simps intro: none exc unsealed_quiet [OF q])
  show ?thesis
    unfolding seal_event_def wp_thenM wp_gets Inr wp_canonM sum.case
    by (rule wp_countersign [OF env]) (auto simp: wp_thenM wp_ret intro: after exc none quiet_unsealed)
qed

lemma sealed_as_quiet:
  "quiet stored h h' \<Longrightarrow> sealed_as stored L event h' r h'' \<Longrightarrow> sealed_as stored L event h r h''"
  by (auto simp: sealed_as_def quiet_def same_host_def)

lemma wp_seal_now:
  assumes env: "env_ok stored (h_seams h)" and dig: "event_digest L event = Inr d"
    and some: "\<And>r h'. sealed_as stored L event h r h' \<Longrightarrow> Q (Some r) h'"
    and none: "\<And>h'. unsealed stored L event h h' \<Longrightarrow> Q None h'"
    and exc: "\<And>e h'. unsealed stored L event h h' \<Longrightarrow> E e h'"
  shows "wp (seal_now L event) Q E h"
proof -
  have f: "frame stored (clock (h_seams h))" using env by (simp add: env_ok_def)
  show ?thesis
    unfolding seal_now_def wp_withS wp_thenM
    by (rule wp_outside_frame [OF f])
      (auto intro!: wp_seal_event [OF _ dig] exc none some
        intro: env quiet_unsealed unsealed_quiet sealed_as_quiet simp: quiet_env env)
qed

end
