(* ===== verification/HostInv.thy ===== *)
theory HostInv
  imports HostSpec HostSteps
begin

text \<open>
  The host's invariant. \<open>records base h\<close> is the partition's chain as the host knows it: \<open>base\<close>, the
  records it was resumed from, then those it sealed. The chain is well formed, its events are valid and
  \<open>log_ok\<close>, and every index the host keeps is exactly what the chain says.
\<close>

definition records :: "sealed_record list \<Rightarrow> 'w host \<Rightarrow> sealed_record list" where
  "records base h = base @ led_records (h_ledger h)"

abbreviation events :: "sealed_record list \<Rightarrow> 'w host \<Rightarrow> jobj list" where
  "events base h \<equiv> map rec_event (records base h)"

definition good :: "lib \<Rightarrow> jobj \<Rightarrow> bool" where
  "good L e \<longleftrightarrow> first_validation_error L (JDict e) = None \<and> (\<exists>d. event_digest L e = Inr d)"

definition log_inv :: "lib \<Rightarrow> level \<Rightarrow> sealed_record list \<Rightarrow> bool" where
  "log_inv L lv rs \<longleftrightarrow> chain_from L 0 GENESIS_HASH rs \<and> (\<forall>r\<in>set rs. good L (rec_event r)) \<and>
     (\<forall>r\<in>set rs. whole_triple r) \<and> log_ok lv (map rec_event rs)"

definition terminal_in :: "jobj list \<Rightarrow> pystr \<Rightarrow> pystr \<Rightarrow> jobj \<Rightarrow> bool" where
  "terminal_in es sid eid e \<longleftrightarrow> e \<in> set es \<and> dget e SESSION_ID = JStr sid \<and> \<not> attempted e \<and> event_id e = eid"

definition accepted_in :: "jobj list \<Rightarrow> pystr \<Rightarrow> pystr set" where
  "accepted_in es sid = {event_id e | e. e \<in> set es \<and> dget e SESSION_ID = JStr sid \<and> attempted e}"

definition outcomes_ok :: "lib \<Rightarrow> jobj list \<Rightarrow> pystr \<Rightarrow> (pystr \<rightharpoonup> pystr) \<Rightarrow> bool" where
  "outcomes_ok L es sid m \<longleftrightarrow>
     (\<forall>eid. m eid = None \<longrightarrow> (\<forall>e. \<not> terminal_in es sid eid e)) \<and>
     (\<forall>eid d. m eid = Some d \<longrightarrow> (\<exists>e. terminal_in es sid eid e \<and> event_digest L e = Inr d))"

definition decided_ok :: "jobj list \<Rightarrow> pystr \<Rightarrow> (pystr \<rightharpoonup> int set) \<Rightarrow> bool" where
  "decided_ok es sid m \<longleftrightarrow>
     (\<forall>e\<in>set es. dget e SESSION_ID = JStr sid \<longrightarrow>
        (\<forall>k n. numbered_under e = Some (k, n) \<longrightarrow> n \<in> or_default (m k) {}))"

definition session_ok :: "lib \<Rightarrow> level \<Rightarrow> jobj list \<Rightarrow> pystr \<Rightarrow> session \<Rightarrow> bool" where
  "session_ok L lv es sid s \<longleftrightarrow>
     ss_accepted s = accepted_in es sid \<and> outcomes_ok L es sid (ss_outcomes s) \<and>
     ss_resolved s = ss_accepted s \<inter> dom (ss_outcomes s) \<and>
     (lv = L2 \<longrightarrow> decided_ok es sid (ss_decided s))"

definition index_ok :: "lib \<Rightarrow> sealed_record list \<Rightarrow> (pystr \<rightharpoonup> sealed_record) \<Rightarrow> pystr set \<Rightarrow> bool" where
  "index_ok L rs m D \<longleftrightarrow>
     (\<forall>eid r. m eid = Some r \<longrightarrow> r \<in> set rs \<and> attempted (rec_event r) \<and> event_id (rec_event r) = eid) \<and>
     (\<forall>r\<in>set rs. attempted (rec_event r) \<longrightarrow> m (event_id (rec_event r)) \<noteq> None) \<and>
     D = {d. \<exists>r\<in>set rs. event_digest L (rec_event r) = Inr d}"

definition issued_ok :: "jobj list \<Rightarrow> pystr set \<Rightarrow> bool" where
  "issued_ok es I \<longleftrightarrow> (\<forall>e\<in>set es. \<forall>sid. dget e SESSION_ID = JStr sid \<longrightarrow> sid \<in> I)"

definition host_level :: "'w host \<Rightarrow> level" where
  "host_level h = cap_level (h_capability h)"

definition host_inv :: "lib \<Rightarrow> sealed_record list \<Rightarrow> 'w host \<Rightarrow> bool" where
  "host_inv L base h \<longleftrightarrow>
     log_inv L (host_level h) (records base h) \<and>
     led_count (h_ledger h) = int (length (records base h)) \<and>
     led_tail_hash (h_ledger h) = chain_tail GENESIS_HASH (records base h) \<and>
     index_ok L (records base h) (h_sealed_attempts h) (h_sealed_digests h) \<and>
     issued_ok (events base h) (h_issued h) \<and> dom (h_sessions h) \<subseteq> h_issued h \<and>
     (\<forall>sid s. h_sessions h sid = Some s \<longrightarrow> session_ok L (host_level h) (events base h) sid s)"

lemma records_same: "same_host h h' \<Longrightarrow> records base h' = records base h"
  by (simp add: records_def same_host_def)

lemma host_inv_same: "same_host h h' \<Longrightarrow> host_inv L base h' = host_inv L base h"
  by (simp add: host_inv_def records_def host_level_def same_host_def)

section \<open>Sealing one more event\<close>

lemma accepted_in_snoc:
  "accepted_in (es @ [e]) sid =
     (if dget e SESSION_ID = JStr sid \<and> attempted e then insert (event_id e) (accepted_in es sid) else accepted_in es sid)"
  by (auto simp: accepted_in_def)

lemma terminal_in_snoc:
  "terminal_in (es @ [e]) sid eid x \<longleftrightarrow> terminal_in es sid eid x \<or>
     x = e \<and> dget e SESSION_ID = JStr sid \<and> \<not> attempted e \<and> event_id e = eid"
  by (auto simp: terminal_in_def)

lemma outcomes_ok_snoc:
  assumes "outcomes_ok L es sid m" "attempted e \<or> dget e SESSION_ID \<noteq> JStr sid"
  shows "outcomes_ok L (es @ [e]) sid m"
  using assms by (auto simp: outcomes_ok_def terminal_in_snoc)

lemma outcomes_ok_terminal:
  assumes "outcomes_ok L es sid m" "\<not> attempted e" "dget e SESSION_ID = JStr sid" "event_digest L e = Inr d"
  shows "outcomes_ok L (es @ [e]) sid (m(event_id e \<mapsto> d))"
  using assms by (auto simp: outcomes_ok_def terminal_in_snoc)

lemma decided_ok_other:
  "decided_ok es sid m \<Longrightarrow> dget e SESSION_ID \<noteq> JStr sid \<Longrightarrow> decided_ok (es @ [e]) sid m"
  by (auto simp: decided_ok_def)

lemma session_ok_other:
  "session_ok L lv es sid s \<Longrightarrow> dget e SESSION_ID \<noteq> JStr sid \<Longrightarrow> session_ok L lv (es @ [e]) sid s"
  by (auto simp: session_ok_def accepted_in_snoc outcomes_ok_snoc decided_ok_other)

text \<open>What the handlers do to a session with a sealed event.\<close>

definition note_number_if :: "level \<Rightarrow> jobj \<Rightarrow> session \<Rightarrow> session" where
  "note_number_if lv event s =
     (if lv \<noteq> L2 then s else case numbered_under event of None \<Rightarrow> s | Some (k, n) \<Rightarrow> add_decided k n s)"

lemma note_number_if_simps [simp]:
  "ss_accepted (note_number_if lv e s) = ss_accepted s" "ss_outcomes (note_number_if lv e s) = ss_outcomes s"
  "ss_resolved (note_number_if lv e s) = ss_resolved s" "ss_received (note_number_if lv e s) = ss_received s"
  by (simp_all add: note_number_if_def add_decided_def split: option.split)

lemma decided_ok_note:
  assumes "decided_ok es sid (ss_decided s)"
  shows "decided_ok (es @ [e]) sid (ss_decided (note_number_if L2 e s))"
    "decided_ok es sid (ss_decided (note_number_if L2 e s))"
  using assms
  by (auto simp: decided_ok_def note_number_if_def add_decided_def or_default_def split: option.splits)

definition note_sealed :: "level \<Rightarrow> jobj \<Rightarrow> pystr \<Rightarrow> session \<Rightarrow> session" where
  "note_sealed lv event d s =
     (if attempted event then accept_attempt (event_id event) (note_number_if lv event s)
      else resolve_outcome (event_id event) d (note_number_if lv event s))"

lemma note_sealed_fun: "note_sealed lv e d =
    (if attempted e then (\<lambda>s. accept_attempt (event_id e) (note_number_if lv e s))
     else (\<lambda>s. resolve_outcome (event_id e) d (note_number_if lv e s)))"
  by (auto simp: note_sealed_def)

lemma session_ok_sealed:
  assumes ok: "session_ok L lv es sid s" and adm: "admissible lv es e"
    and e: "dget e SESSION_ID = JStr sid" "event_digest L e = Inr d"
  shows "session_ok L lv (es @ [e]) sid (note_sealed lv e d s)"
proof -
  have dec: "lv = L2 \<longrightarrow> decided_ok (es @ [e]) sid (ss_decided (note_number_if lv e s))"
    using ok decided_ok_note(1) by (auto simp: session_ok_def)
  show ?thesis
  proof (cases "attempted e")
    case True
    have "event_id e \<notin> dom (ss_outcomes s)"
    proof
      assume "event_id e \<in> dom (ss_outcomes s)"
      then obtain x where "terminal_in es sid (event_id e) x"
        using ok by (fastforce simp: session_ok_def outcomes_ok_def)
      then show False using adm e by (auto simp: admissible_def same_op_def terminal_in_def)
    qed
    with True ok e dec show ?thesis
      by (auto simp: session_ok_def note_sealed_def accept_attempt_def accepted_in_snoc outcomes_ok_snoc)
  next
    case False
    with ok e dec show ?thesis
      by (auto simp: session_ok_def note_sealed_def resolve_outcome_def accepted_in_snoc outcomes_ok_terminal
          dom_def)
  qed
qed

lemma session_ok_decided:
  "session_ok L lv es sid s \<Longrightarrow> session_ok L lv es sid (note_number_if lv e s)"
  by (auto simp: session_ok_def decided_ok_note)

lemma session_ok_received:
  "session_ok L lv es sid s \<Longrightarrow> session_ok L lv es sid (receive k n s)"
  by (simp add: session_ok_def receive_def split: option.split)

lemma session_ok_accept:
  "session_ok L lv es sid s \<Longrightarrow> eid \<in> accepted_in es sid \<Longrightarrow> session_ok L lv es sid (accept_attempt eid s)
     = session_ok L lv es sid s"
  by (simp add: session_ok_def accept_attempt_def insert_absorb)

lemma index_ok_sealed:
  assumes "index_ok L rs m D" "event_digest L (rec_event r) = Inr d"
  shows "index_ok L (rs @ [r])
    (if attempted (rec_event r) then m(event_id (rec_event r) \<mapsto> r) else m) (insert d D)"
  using assms unfolding index_ok_def by (auto split: if_splits)

lemma log_inv_snoc:
  assumes "log_inv L lv rs" "good L (rec_event r)" "admissible lv (map rec_event rs) (rec_event r)"
    "next_record L led r" "led_count led = int (length rs)" "led_tail_hash led = chain_tail GENESIS_HASH rs"
  shows "log_inv L lv (rs @ [r])"
  using assms by (auto simp: log_inv_def chain_from_append next_record_def)

definition settled :: "sealed_record \<Rightarrow> pystr \<Rightarrow> pystr \<Rightarrow> 'w host \<Rightarrow> 'w host" where
  "settled r sid d h = upd_session sid (note_sealed (host_level h) (rec_event r) d)
     (remembered r d (commit_record r h))"

lemma decide_upd: "decide event sid h = upd_session sid (note_number_if (host_level h) event) h"
  by (cases h; cases "numbered_under event")
    (auto simp: decide_def upd_session_def note_number_if_def host_level_def split: option.split)

lemma upd_session_fields [simp]:
  "h_capability (upd_session sid f h) = h_capability h" "h_partition (upd_session sid f h) = h_partition h"
  "h_log_id (upd_session sid f h) = h_log_id h" "h_seams (upd_session sid f h) = h_seams h"
  "h_ledger (upd_session sid f h) = h_ledger h" "h_issued (upd_session sid f h) = h_issued h"
  "h_sealed_attempts (upd_session sid f h) = h_sealed_attempts h"
  "h_sealed_digests (upd_session sid f h) = h_sealed_digests h"
  "h_tail_uncertain (upd_session sid f h) = h_tail_uncertain h" "h_world (upd_session sid f h) = h_world h"
  "h_rejected_ids (upd_session sid f h) = h_rejected_ids h" "h_anomalies (upd_session sid f h) = h_anomalies h"
  "h_persistence_available (upd_session sid f h) = h_persistence_available h"
  "host_level (upd_session sid f h) = host_level h" "held stored (upd_session sid f h) = held stored h"
  "h_sessions (upd_session sid f h) = (\<lambda>x. if x = sid then map_option f (h_sessions h sid) else h_sessions h x)"
  by (auto simp: upd_session_def host_level_def held_def fun_eq_iff split: option.split)

lemma upd_session_upd: "upd_session sid f (upd_session sid g h) = upd_session sid (\<lambda>s. f (g s)) h"
  by (simp add: upd_session_def split: option.split)

lemma remembered_fields [simp]:
  "h_capability (remembered r d h) = h_capability h" "h_partition (remembered r d h) = h_partition h"
  "h_seams (remembered r d h) = h_seams h" "h_ledger (remembered r d h) = h_ledger h"
  "h_issued (remembered r d h) = h_issued h" "h_sessions (remembered r d h) = h_sessions h"
  "h_tail_uncertain (remembered r d h) = h_tail_uncertain h" "h_world (remembered r d h) = h_world h"
  "host_level (remembered r d h) = host_level h" "held stored (remembered r d h) = held stored h"
  "h_rejected_ids (remembered r d h) = h_rejected_ids h" "h_anomalies (remembered r d h) = h_anomalies h"
  by (simp_all add: remembered_def host_level_def held_def)

lemma commit_record_fields [simp]:
  "h_capability (commit_record r h) = h_capability h" "h_partition (commit_record r h) = h_partition h"
  "h_seams (commit_record r h) = h_seams h" "h_ledger (commit_record r h) = commit r (h_ledger h)"
  "h_issued (commit_record r h) = h_issued h" "h_sessions (commit_record r h) = h_sessions h"
  "h_sealed_attempts (commit_record r h) = h_sealed_attempts h"
  "h_sealed_digests (commit_record r h) = h_sealed_digests h"
  "h_tail_uncertain (commit_record r h) = h_tail_uncertain h" "h_world (commit_record r h) = h_world h"
  "host_level (commit_record r h) = host_level h" "held stored (commit_record r h) = held stored h"
  by (simp_all add: commit_record_def host_level_def held_def)

lemma settled_records: "records base (settled r sid d h) = records base h @ [r]"
  by (simp add: settled_def records_def)

definition sealable :: "lib \<Rightarrow> sealed_record list \<Rightarrow> 'w host \<Rightarrow> jobj \<Rightarrow> bool" where
  "sealable L base h event \<longleftrightarrow> good L event \<and> admissible (host_level h) (events base h) event \<and>
     (\<exists>sid \<in> h_issued h. dget event SESSION_ID = JStr sid)"

text \<open>Sealing a sealable event keeps the invariant, whether its session is still open or not.\<close>

lemma host_inv_settled:
  assumes inv: "host_inv L base h" and seal: "sealable L base h (rec_event r)"
    and nxt: "next_record L (h_ledger h) r"
    and e: "dget (rec_event r) SESSION_ID = JStr sid" "event_digest L (rec_event r) = Inr d"
  shows "host_inv L base (settled r sid d h)"
proof -
  let ?h = "settled r sid d h" and ?e = "rec_event r"
  have rs: "records base ?h = records base h @ [r]" by (rule settled_records)
  have lv: "host_level ?h = host_level h" by (simp add: settled_def)
  have led: "h_ledger ?h = commit r (h_ledger h)" by (simp add: settled_def)
  have "log_inv L (host_level ?h) (records base ?h)"
    unfolding rs lv using inv seal nxt by (auto simp: host_inv_def sealable_def intro!: log_inv_snoc)
  moreover have "index_ok L (records base ?h) (h_sealed_attempts ?h) (h_sealed_digests ?h)"
    unfolding rs using inv index_ok_sealed [OF _ e(2)]
    by (simp add: host_inv_def settled_def remembered_def)
  moreover have "issued_ok (events base ?h) (h_issued ?h)"
    unfolding rs using inv seal e(1) by (auto simp: host_inv_def settled_def issued_ok_def sealable_def)
  moreover have "dom (h_sessions ?h) \<subseteq> h_issued ?h"
    using inv by (auto simp: host_inv_def settled_def dom_def split: if_splits)
  moreover have "session_ok L (host_level ?h) (events base ?h) x s"
    if "h_sessions ?h x = Some s" for x s
  proof (cases "x = sid")
    case True
    with that obtain s0 where s0: "h_sessions h sid = Some s0" "s = note_sealed (host_level h) ?e d s0"
      by (auto simp: settled_def)
    with inv have "session_ok L (host_level h) (events base h) sid s0" by (simp add: host_inv_def)
    with seal e s0 True show ?thesis
      unfolding rs lv by (simp add: sealable_def session_ok_sealed)
  next
    case False
    with that have "h_sessions h x = Some s" by (simp add: settled_def)
    with inv have "session_ok L (host_level h) (events base h) x s" by (simp add: host_inv_def)
    with e(1) False show ?thesis
      unfolding rs lv by (simp add: session_ok_other)
  qed
  ultimately show ?thesis
    using inv unfolding host_inv_def led rs by simp
qed

text \<open>Updates of one session that keep it in step with the log.\<close>

lemma host_inv_upd:
  assumes "host_inv L base h"
    and "\<And>s. session_ok L (host_level h) (events base h) sid s \<Longrightarrow> session_ok L (host_level h) (events base h) sid (f s)"
  shows "host_inv L base (upd_session sid f h)"
  using assms unfolding host_inv_def records_def
  by (auto simp: dom_def split: if_splits)

section \<open>The invariant with the repository\<close>

text \<open>
  The repository holds the host's chain; when an append was left in doubt, it may hold one record
  more, an event the host was entitled to seal.
\<close>

definition store_ok :: "'w store \<Rightarrow> lib \<Rightarrow> sealed_record list \<Rightarrow> 'w host \<Rightarrow> bool" where
  "store_ok stored L base h \<longleftrightarrow> repository (h_seams h) = None \<or>
     held stored h = records base h \<or>
     h_tail_uncertain h \<and> (\<exists>r. held stored h = records base h @ [r] \<and>
       next_record L (h_ledger h) r \<and> sealable L base h (rec_event r))"

definition host_safe :: "'w store \<Rightarrow> lib \<Rightarrow> sealed_record list \<Rightarrow> 'w host \<Rightarrow> bool" where
  "host_safe stored L base h \<longleftrightarrow>
     env_ok stored (h_seams h) \<and> host_inv L base h \<and> store_ok stored L base h"

text \<open>After the tail is settled, nothing is in doubt.\<close>

definition store_exact :: "'w store \<Rightarrow> sealed_record list \<Rightarrow> 'w host \<Rightarrow> bool" where
  "store_exact stored base h \<longleftrightarrow> repository (h_seams h) = None \<or> held stored h = records base h"

lemma store_exact_ok: "store_exact stored base h \<Longrightarrow> store_ok stored L base h"
  by (auto simp: store_exact_def store_ok_def)

end
