(* ===== verification/HostSafe.thy ===== *)
theory HostSafe
  imports HostInv
begin

text \<open>
  Every handler of the host keeps \<open>host_safe\<close>, on every return, exception and cancellation, whatever
  the seams answer; and what each answer says about the log. The proofs follow the handlers: one rule
  per stage (settling the tail, admission, signature, replay), then the paths that compose them.
\<close>

section \<open>Steps that seal nothing\<close>

definition host_exact :: "'w store \<Rightarrow> lib \<Rightarrow> sealed_record list \<Rightarrow> 'w host \<Rightarrow> bool" where
  "host_exact stored L base h \<longleftrightarrow>
     env_ok stored (h_seams h) \<and> host_inv L base h \<and> store_exact stored base h"

lemma exact_safe: "host_exact stored L base h \<Longrightarrow> host_safe stored L base h"
  by (simp add: host_exact_def host_safe_def store_exact_ok)

lemma exact_quiet: "host_exact stored L base h \<Longrightarrow> quiet stored h h' \<Longrightarrow> host_exact stored L base h'"
  using host_inv_same [of h h' L base] records_same [of h h' base]
  by (auto simp: host_exact_def store_exact_def quiet_def same_host_def)

lemma exact_upd:
  assumes "host_exact stored L base h"
    and "\<And>s. session_ok L (host_level h) (events base h) sid s \<Longrightarrow> session_ok L (host_level h) (events base h) sid (f s)"
  shows "host_exact stored L base (upd_session sid f h)"
  using assms by (auto simp: host_exact_def store_exact_def records_def intro: host_inv_upd)

lemma exact_decide: "host_exact stored L base h \<Longrightarrow> host_exact stored L base (decide event sid h)"
  unfolding decide_upd by (erule exact_upd) (rule session_ok_decided)

lemma safe_quiet: "host_safe stored L base h \<Longrightarrow> quiet stored h h' \<Longrightarrow> host_safe stored L base h'"
  using host_inv_same [of h h' L base] records_same [of h h' base]
  unfolding host_safe_def store_ok_def sealable_def quiet_def same_host_def host_level_def by auto

text \<open>\<open>tracked h h'\<close>: nothing changed but the world, the anomalies and what sessions received.\<close>

definition tracked :: "'w host \<Rightarrow> 'w host \<Rightarrow> bool" where
  "tracked h h' \<longleftrightarrow> h_ledger h' = h_ledger h \<and> h_capability h' = h_capability h \<and> h_seams h' = h_seams h \<and>
     h_sealed_attempts h' = h_sealed_attempts h \<and> h_sealed_digests h' = h_sealed_digests h \<and>
     h_persistence_available h' = h_persistence_available h \<and> h_issued h' = h_issued h \<and>
     (\<forall>sid. (h_sessions h' sid = None) = (h_sessions h sid = None)) \<and>
     (\<forall>sid. ss_accepted (session_of_id h' sid) = ss_accepted (session_of_id h sid) \<and>
        ss_outcomes (session_of_id h' sid) = ss_outcomes (session_of_id h sid) \<and>
        ss_decided (session_of_id h' sid) = ss_decided (session_of_id h sid) \<and>
        ss_resolved (session_of_id h' sid) = ss_resolved (session_of_id h sid))"

lemma tracked_refl [simp]: "tracked h h"
  by (simp add: tracked_def)

lemma tracked_records: "tracked h h' \<Longrightarrow> records base h' = records base h"
  by (simp add: tracked_def records_def)

lemma tracked_level: "tracked h h' \<Longrightarrow> host_level h' = host_level h"
  by (simp add: tracked_def host_level_def)

lemma tracked_trans: "tracked h h' \<Longrightarrow> tracked h' h'' \<Longrightarrow> tracked h h''"
  by (simp add: tracked_def)

lemma same_tracked: "same_host h h' \<Longrightarrow> tracked h h'"
  by (simp add: same_host_def tracked_def session_of_id_def)

lemma quiet_tracked: "quiet stored h h' \<Longrightarrow> tracked h h'"
  by (simp add: quiet_def same_tracked)

lemma receive_simps [simp]:
  "ss_accepted (receive k n s) = ss_accepted s" "ss_outcomes (receive k n s) = ss_outcomes s"
  "ss_decided (receive k n s) = ss_decided s" "ss_resolved (receive k n s) = ss_resolved s"
  by (simp_all add: receive_def split: option.split)

lemma tracked_receive: "tracked h (upd_session sid (receive k n) h)"
  by (auto simp: tracked_def session_of_id_def or_default_def split: option.split)

section \<open>Sealing\<close>

lemma safe_unsealed:
  assumes "host_exact stored L base h" "unsealed stored L event h h'" "sealable L base h event"
  shows "host_safe stored L base h'"
proof -
  from assms(2) have same: "same_host h h'" by (simp add: unsealed_def)
  then have lv: "host_level h' = host_level h" and iss: "h_issued h' = h_issued h"
    by (simp_all add: same_host_def host_level_def)
  show ?thesis
    using assms host_inv_same [OF same] records_same [OF same] same
    unfolding host_safe_def host_exact_def store_exact_def store_ok_def unsealed_def sealable_def lv iss
    by (auto simp: same_host_def)
qed

lemma exact_sealed:
  assumes ex: "host_exact stored L base h" and s: "sealed_as stored L event h r h'" and seal: "sealable L base h event"
    and e: "dget event SESSION_ID = JStr sid" "event_digest L event = Inr d"
  shows "host_exact stored L base (upd_session sid (note_sealed (host_level h) event d) h')"
    "records base (upd_session sid f h') = records base h @ [r]"
proof -
  from s obtain h0 where h0: "rec_event r = event" "next_record L (h_ledger h) r" "same_host h h0"
    "held stored h0 = (if repository (h_seams h) = None then held stored h else held stored h @ [r])"
    "h' = remembered r d (commit_record r h0)"
    using e(2) by (auto simp: sealed_as_def)
  have inv: "host_inv L base h0" using ex h0(3) by (simp add: host_exact_def host_inv_same)
  have led: "h_ledger h0 = h_ledger h" and lv: "host_level h0 = host_level h" and
    rs: "records base h0 = records base h" and sm: "h_seams h0 = h_seams h"
    using h0(3) by (simp_all add: same_host_def host_level_def records_def)
  have "sealable L base h0 (rec_event r)"
    using seal h0(1,3) lv rs by (simp add: sealable_def same_host_def)
  then have "host_inv L base (settled r sid d h0)"
    using host_inv_settled [OF inv] h0(1,2) e led by simp
  then have inv': "host_inv L base (upd_session sid (note_sealed (host_level h) event d) h')"
    by (simp add: settled_def h0(1,5) lv)
  show rs': "records base (upd_session sid f h') = records base h @ [r]" for f
    by (simp add: h0(5) records_def led)
  have st: "held stored h' = (if repository (h_seams h) = None then held stored h else held stored h @ [r])"
    by (simp add: h0(4,5))
  have "store_exact stored base (upd_session sid g h')" for g
    using ex st rs' [of g] by (auto simp: host_exact_def store_exact_def h0(5) sm split: if_splits)
  then show "host_exact stored L base (upd_session sid (note_sealed (host_level h) event d) h')"
    using ex inv' by (simp add: host_exact_def h0(5) sm)
qed

text \<open>What the checks of a handler establish.\<close>

definition fresh_number :: "level \<Rightarrow> session \<Rightarrow> jobj \<Rightarrow> bool" where
  "fresh_number lv s e \<longleftrightarrow>
     (lv = L2 \<longrightarrow> (\<forall>k n. numbered_under e = Some (k, n) \<longrightarrow> n \<notin> or_default (ss_decided s k) {}))"

lemma open_session_ok:
  "host_inv L base h \<Longrightarrow> h_sessions h sid \<noteq> None \<Longrightarrow>
     session_ok L (host_level h) (events base h) sid (session_of_id h sid) \<and> sid \<in> h_issued h"
  by (auto simp: host_inv_def session_of_id_def or_default_def dom_def)

lemma fresh_no_same_number:
  assumes "session_ok L lv es sid s" "fresh_number lv s e" "dget e SESSION_ID = JStr sid" "lv = L2" "p \<in> set es"
  shows "\<not> same_number p e"
proof
  assume p: "same_number p e"
  then obtain k n where kn: "numbered_under e = Some (k, n)" by (auto simp: same_number_def)
  with p have "numbered_under p = Some (k, n)" "dget p SESSION_ID = JStr sid"
    using assms(3) by (auto simp: same_number_def)
  then have "n \<in> or_default (ss_decided s k) {}"
    using assms(1,4,5) by (auto simp: session_ok_def decided_ok_def)
  with assms(2,4) kn show False by (simp add: fresh_number_def)
qed

lemma no_outcome_no_terminal:
  assumes "session_ok L lv es sid s" "ss_outcomes s (event_id e) = None" "dget e SESSION_ID = JStr sid" "p \<in> set es"
    "\<not> attempted p"
  shows "\<not> same_op p e"
  using assms by (auto simp: session_ok_def outcomes_ok_def terminal_in_def same_op_def)

lemma sealable_attempt:
  assumes inv: "host_inv L base h" and op: "h_sessions h sid \<noteq> None" and e: "good L e" "dget e SESSION_ID = JStr sid"
    and "attempted e" "h_sealed_attempts h (event_id e) = None"
    and s: "ss_outcomes (session_of_id h sid) (event_id e) = None" "fresh_number (host_level h) (session_of_id h sid) e"
  shows "sealable L base h e"
proof -
  note ok = open_session_ok [OF inv op]
  have "event_id (rec_event r) \<noteq> event_id e" if "r \<in> set (records base h)" "attempted (rec_event r)" for r
    using inv that assms(6) by (auto simp: host_inv_def index_ok_def)
  then show ?thesis
    using ok e assms(5) no_outcome_no_terminal [OF conjunct1 [OF ok] s(1) e(2)]
      fresh_no_same_number [OF conjunct1 [OF ok] s(2) e(2)]
    by (auto simp: sealable_def admissible_def)
qed

lemma sealable_outcome:
  assumes inv: "host_inv L base h" and op: "h_sessions h sid \<noteq> None" and e: "good L e" "dget e SESSION_ID = JStr sid"
    and att: "\<not> attempted e" "event_id e \<in> ss_accepted (session_of_id h sid) \<or> outcome_is e ABORTED"
    and s: "ss_outcomes (session_of_id h sid) (event_id e) = None" "fresh_number (host_level h) (session_of_id h sid) e"
  shows "sealable L base h e"
proof -
  note ok = open_session_ok [OF inv op]
  have "\<exists>p\<in>set (events base h). attempted p \<and> same_op p e" if "event_id e \<in> ss_accepted (session_of_id h sid)"
  proof -
    have "event_id e \<in> accepted_in (events base h) sid" using ok that by (simp add: session_ok_def)
    then show ?thesis using e(2) by (auto simp: accepted_in_def same_op_def)
  qed
  then show ?thesis
    using ok e att no_outcome_no_terminal [OF conjunct1 [OF ok] s(1) e(2)]
      fresh_no_same_number [OF conjunct1 [OF ok] s(2) e(2)]
    by (auto simp: sealable_def admissible_def)
qed

section \<open>The stages of a handler\<close>

lemma good_event: "jcs_total L \<Longrightarrow> first_validation_error L (JDict e) = None \<Longrightarrow>
    \<not> outside_canonical_domain (JDict e) \<Longrightarrow> good L e"
  using canonicalize_total [of L "JDict e"] by (auto simp: good_def event_digest_def)

lemma wp_admit:
  assumes tot: "jcs_total L"
    and refused: "\<And>c h'. quiet stored h h' \<Longrightarrow> Q (Inl c) h'"
    and admitted: "\<And>sid. good L e \<Longrightarrow> attempted e = att \<Longrightarrow> dget e SESSION_ID = JStr sid \<Longrightarrow>
      h_sessions h sid \<noteq> None \<Longrightarrow> expected = None \<or> expected = Some sid \<Longrightarrow> Q (Inr sid) h"
  shows "wp (admit L e expected att) Q E h"
  using refused admitted good_event [OF tot, of e]
  by (auto simp: admit_def session_of_def Let_def wp_simps split: option.split json.split)

lemma exact_receive:
  "host_exact stored L base h \<Longrightarrow> host_exact stored L base (upd_session sid (receive k n) h)"
  by (erule exact_upd) (rule session_ok_received)

lemma wp_verify_signature:
  assumes ex: "host_exact stored L base h"
    and bad: "\<And>c h'. host_exact stored L base h' \<Longrightarrow> tracked h h' \<Longrightarrow> Q (Some c) h'"
    and good: "\<And>h'. host_exact stored L base h' \<Longrightarrow> tracked h h' \<Longrightarrow> Q None h'"
    and exc: "\<And>x h'. host_exact stored L base h' \<Longrightarrow> tracked h h' \<Longrightarrow> E x h'"
  shows "wp (verify_signature e sid) Q E h"
proof (cases "cap_level (h_capability h) \<noteq> L2 \<or> \<not> truthy (dget e SIGNATURE) \<or> numbered_under e = None \<or>
    verifier (h_seams h) = None")
  case True
  then show ?thesis
    using bad [of "flag (event_id e) L2_UNSIGNED L2Unsigned h"] good [OF ex] exc [OF ex]
      exact_quiet [OF ex, of "flag (event_id e) L2_UNSIGNED L2Unsigned h"]
    by (auto simp: verify_signature_def wp_simps quiet_tracked [of undefined] same_tracked split: bool.split option.split)
next
  case False
  then obtain k n v where v: "numbered_under e = Some (k, n)" "verifier (h_seams h) = Some v"
    by auto
  have f: "frame stored (v e)" using ex v(2) by (simp add: host_exact_def env_ok_def)
  have q: "host_exact stored L base h'" "tracked h h'" if "quiet stored h h'" for h'
    using that ex by (auto intro: exact_quiet quiet_tracked)
  have upd: "host_exact stored L base (upd_session sid (receive k n) h')"
    "tracked h (upd_session sid (receive k n) h')" if "quiet stored h h'" for h'
    using q [OF that] by (auto intro: exact_receive tracked_trans tracked_receive)
  show ?thesis
    using False v
    by (simp add: verify_signature_def wp_withS wp_thenM)
      (rule wp_outside_frame [OF f],
       auto simp: wp_simps Let_def intro!: bad [OF q] good [OF upd] exc [OF q] split: option.split)
qed

lemma wp_check_replay:
  assumes "\<And>c h'. quiet stored h h' \<Longrightarrow> Q (Some c) h'"
    and "fresh_number (host_level h) (session_of_id h sid) e \<Longrightarrow> Q None h"
  shows "wp (check_replay e sid) Q E h"
  using assms by (auto simp: check_replay_def fresh_number_def host_level_def wp_simps split: option.split)

section \<open>Settling the tail\<close>

lemma adopt_settled:
  assumes "dget (rec_event r) SESSION_ID = JStr sid" "event_digest L (rec_event r) = Inr d"
  shows "wp (thenM (modify (commit_record r)) (\<lambda>_. thenM (remember L r) (\<lambda>_. adopt L r))) Q E h
    = Q () (settled r sid d h)"
proof -
  have none: "upd_session sid f h' = h'" if "h_sessions h' sid = None" for f and h' :: "'w host"
    using that by (simp add: upd_session_def)
  show ?thesis
    by (auto simp: wp_simps wp_remember assms adopt_def Let_def settled_def none decide_upd upd_session_upd
        note_sealed_fun)
qed

text \<open>What settling may add to the log: the one record the doubt was about.\<close>

definition settled_from :: "'w store \<Rightarrow> sealed_record list \<Rightarrow> 'w host \<Rightarrow> 'w host \<Rightarrow> bool" where
  "settled_from stored base h h' \<longleftrightarrow>
     (if h_tail_uncertain h
      then records base h' = records base h \<or>
        (\<exists>r. records base h' = records base h @ [r] \<and> held stored h = records base h @ [r])
      else h' = h)"

lemma tail_of_snoc [simp]: "tail_of (xs @ [x]) = Some x"
  by (simp add: tail_of_def)

lemma tail_seqno:
  assumes "chain_from L n h rs" "tail_of rs = Some t"
  shows "rec_seqno t = n + int (length rs) - 1"
proof -
  from assms(2) obtain ys where "rs = ys @ [t]"
    by (metis append_butlast_last_id option.sel option.simps(3) tail_of_def)
  with assms(1) show ?thesis by (auto simp: chain_from_append)
qed

lemma settle_step:
  assumes safe: "host_safe stored L base h" and rp: "repository (h_seams h) = Some rp" and unc: "h_tail_uncertain h"
    and exact: "\<And>h'. host_exact stored L base h' \<Longrightarrow> settled_from stored base h h' \<Longrightarrow> Q True h'"
  shows "wp (thenM (case tail_of (held stored h) of
                 None \<Rightarrow> ret ()
               | Some t \<Rightarrow>
                 if rec_seqno t = led_count (h_ledger h) \<and> rec_previous_hash t = digest (h_ledger h)
                 then thenM (modify (commit_record t)) (\<lambda>_. thenM (remember L t) (\<lambda>_. adopt L t))
                 else if rec_seqno t > led_count (h_ledger h)
                 then modify (\<lambda>h. h\<lparr>h_ledger := resume_from (Some t) (h_ledger h)\<rparr>)
                 else ret ()) (\<lambda>_.
             thenM (modify (\<lambda>h. h\<lparr>h_tail_uncertain := False\<rparr>)) (\<lambda>_. ret True))) Q E h"
proof -
  have inv: "host_inv L base h" and env: "env_ok stored (h_seams h)" and st: "store_ok stored L base h"
    using safe by (simp_all add: host_safe_def)
  from st rp consider (same) "held stored h = records base h"
    | (more) r where "held stored h = records base h @ [r]" "next_record L (h_ledger h) r"
        "sealable L base h (rec_event r)"
    by (auto simp: store_ok_def)
  then show ?thesis
  proof cases
    case same
    have "\<not> (rec_seqno t \<ge> led_count (h_ledger h))" if "tail_of (held stored h) = Some t" for t
      using inv that same by (auto simp: host_inv_def log_inv_def dest: tail_seqno)
    moreover have "Q True (h\<lparr>h_tail_uncertain := False\<rparr>)"
    proof (rule exact)
      have s: "same_host h (h\<lparr>h_tail_uncertain := False\<rparr>)" by simp
      show "settled_from stored base h (h\<lparr>h_tail_uncertain := False\<rparr>)"
        using unc by (simp add: settled_from_def records_same [OF s])
      show "host_exact stored L base (h\<lparr>h_tail_uncertain := False\<rparr>)"
        using env same inv by (simp add: host_exact_def store_exact_def host_inv_same [OF s] records_same [OF s])
    qed
    ultimately show ?thesis
      by (auto simp: wp_simps split: option.split)
  next
    case more
    from more(3) obtain sid d where e: "dget (rec_event r) SESSION_ID = JStr sid"
        "event_digest L (rec_event r) = Inr d"
      by (auto simp: sealable_def good_def)
    let ?h = "(settled r sid d h)\<lparr>h_tail_uncertain := False\<rparr>"
    have s: "same_host (settled r sid d h) ?h" by simp
    have "Q True ?h"
    proof (rule exact)
      show "settled_from stored base h ?h"
        using more(1) unc by (simp add: settled_from_def records_same [OF s] settled_records)
      have "held stored ?h = held stored h" "h_seams ?h = h_seams h"
        by (simp_all add: settled_def)
      then show "host_exact stored L base ?h"
        using env more host_inv_settled [OF inv more(3,2) e]
        by (simp add: host_exact_def store_exact_def host_inv_same [OF s] records_same [OF s] settled_records)
    qed
    with more show ?thesis
      using adopt_settled [OF e, where h = h]
      by (simp add: wp_thenM wp_modify wp_ret digest_def next_record_def wp_if)
  qed
qed

lemma wp_settle_tail:
  assumes safe: "host_safe stored L base h"
    and exact: "\<And>h'. host_exact stored L base h' \<Longrightarrow> settled_from stored base h h' \<Longrightarrow> Q True h'"
    and doubt: "\<And>h'. host_safe stored L base h' \<Longrightarrow> h_tail_uncertain h \<Longrightarrow> tracked h h' \<Longrightarrow> Q False h'"
    and exc: "\<And>x h'. host_safe stored L base h' \<Longrightarrow> h_tail_uncertain h \<Longrightarrow> tracked h h' \<Longrightarrow> E x h'"
  shows "wp (settle_tail L) Q E h"
proof (cases "repository (h_seams h) = None \<or> \<not> h_tail_uncertain h")
  case True
  then have "host_exact stored L base h"
    using safe by (auto simp: host_safe_def host_exact_def store_ok_def store_exact_def)
  moreover have "settled_from stored base h h" by (simp add: settled_from_def)
  ultimately show ?thesis
    using True exact [of h] by (auto simp: settle_tail_def wp_simps split: option.split)
next
  case False
  then obtain rp where rp: "repository (h_seams h) = Some rp" and unc: "h_tail_uncertain h" by auto
  then have "ledger_repository rp stored" using safe by (simp add: host_safe_def env_ok_def)
  note load = ledger_repository.wp_load_tail [OF this]
  have after: "host_safe stored L base h'" "tracked h h'" "h_tail_uncertain h'" "repository (h_seams h') = Some rp"
    "held stored h' = held stored h" if "quiet stored h h'" for h'
    using that safe unc rp
    by (auto intro: safe_quiet quiet_tracked simp: quiet_env) (simp add: quiet_def)
  have go: "Q True h''" if "quiet stored h h'" "host_exact stored L base h''" "settled_from stored base h' h''" for h' h''
  proof -
    have "records base h' = records base h" using that(1) by (simp add: quiet_def records_same)
    then have "settled_from stored base h h''"
      using that after [OF that(1)] unc by (auto simp: settled_from_def)
    with exact that(2) show ?thesis by blast
  qed
  show ?thesis
    unfolding settle_tail_def wp_withS rp option.case
    apply (simp add: unc wp_thenM wp_catchM del: wp_case_option)
    apply (rule load)
    subgoal for h'
      apply (simp only: wp_ret wp_withS Let_def option.case)
      apply (subst after(5) [symmetric], assumption)
      apply (rule settle_step; fast intro: after go)
      done
    subgoal for x h'
      by (auto simp: wp_simps intro: doubt exc after unc)
    done
qed

section \<open>The attempt handler\<close>

text \<open>What each answer to an attempt says, given a host with nothing in doubt before it.\<close>

definition attempt_post ::
  "'w store \<Rightarrow> lib \<Rightarrow> sealed_record list \<Rightarrow> jobj \<Rightarrow> 'w host \<Rightarrow> response \<Rightarrow> 'w host \<Rightarrow> bool" where
  "attempt_post stored L base event h resp h' \<longleftrightarrow>
     (case resp of
        Accept a \<Rightarrow> host_exact stored L base h' \<and> (\<exists>r. a = accept_fields r \<and>
          (records base h' = records base h @ [r] \<and> rec_event r = event \<or>
           records base h' = records base h \<and> r \<in> set (records base h) \<and> attempted (rec_event r) \<and>
           canonicalize L (JDict (rec_event r)) = canonicalize L (JDict event)))
      | Reject c \<Rightarrow> host_exact stored L base h' \<and> records base h' = records base h
      | Unavailable \<Rightarrow> host_safe stored L base h' \<and> tracked h h')"

definition attempt_exc ::
  "'w store \<Rightarrow> lib \<Rightarrow> sealed_record list \<Rightarrow> jobj \<Rightarrow> 'w host \<Rightarrow> 'w host \<Rightarrow> bool" where
  "attempt_exc stored L base event h h' \<longleftrightarrow> host_safe stored L base h' \<and>
     (records base h' = records base h \<or> (\<exists>r. records base h' = records base h @ [r] \<and> rec_event r = event))"

abbreviation attempt_wp where
  "attempt_wp stored L base event m h \<equiv>
     wp m (attempt_post stored L base event h) (\<lambda>_. attempt_exc stored L base event h) h"

lemma records_upd [simp]: "records base (upd_session sid f h) = records base h"
  by (simp add: records_def)

lemma records_decide [simp]: "records base (decide event sid h) = records base h"
  by (simp add: decide_upd)

lemma exact_flag: "host_exact stored L base h \<Longrightarrow> host_exact stored L base (flag i k d h)"
  by (erule exact_quiet) simp

lemma exact_reject_id: "host_exact stored L base h \<Longrightarrow> host_exact stored L base (reject_id i h)"
  by (erule exact_quiet) simp

lemma records_flag [simp]: "records base (flag i k d h) = records base h" "records base (reject_id i h) = records base h"
  by (simp_all add: records_def flag_def reject_id_def)

lemma exact_exc: "host_exact stored L base h' \<Longrightarrow> records base h' = records base h \<Longrightarrow> attempt_exc stored L base event h h'"
  by (simp add: attempt_exc_def exact_safe)

lemma refuse_decided_ok:
  assumes "host_exact stored L base h"
  shows "attempt_wp stored L base event (refuse_decided event sid detail) h"
  using assms
  by (simp add: refuse_decided_def wp_simps attempt_post_def exact_flag exact_decide exact_reject_id)

text \<open>The accept of a sealed record either is its fields or fails to be built.\<close>

lemma wp_accept_of: "wp (accept_of L r) Q E h =
    (case accept_error L (accept_fields r) of None \<Rightarrow> Q (Accept (accept_fields r)) h | Some e \<Rightarrow> E (ValidationError e) h)"
  by (simp add: accept_of_def wp_simps split: option.split)

lemma good_canonicalize: "good L e \<Longrightarrow> \<exists>s. canonicalize L (JDict e) = Inr s"
  by (auto simp: good_def event_digest_def split: sum.splits)

lemma answer_sealed_ok:
  assumes ex: "host_exact stored L base h" and op: "h_sessions h sid \<noteq> None" and e: "good L event" "dget event SESSION_ID = JStr sid"
    and r: "h_sealed_attempts h (event_id event) = Some r"
  shows "attempt_wp stored L base event (answer_sealed L event sid r) h"
proof -
  have inv: "host_inv L base h" using ex by (simp add: host_exact_def)
  with r have r': "r \<in> set (records base h)" "attempted (rec_event r)" "event_id (rec_event r) = event_id event"
    "good L (rec_event r)"
    by (auto simp: host_inv_def index_ok_def log_inv_def)
  obtain s t where st: "canonicalize L (JDict (rec_event r)) = Inr s" "canonicalize L (JDict event) = Inr t"
    using good_canonicalize e(1) r'(4) by blast
  have acc: "host_exact stored L base (upd_session sid (accept_attempt (event_id event)) h)"
    if "dget (rec_event r) SESSION_ID = dget event SESSION_ID"
  proof (rule exact_upd [OF ex])
    fix x assume "session_ok L (host_level h) (events base h) sid x"
    moreover have "event_id event \<in> accepted_in (events base h) sid"
      using r' that e(2) by (auto simp: accepted_in_def intro!: exI [of _ "rec_event r"])
    ultimately show "session_ok L (host_level h) (events base h) sid (accept_attempt (event_id event) x)"
      by (simp add: session_ok_accept)
  qed
  show ?thesis
    using r' acc ex refuse_decided_ok [OF ex]
    by (auto simp: answer_sealed_def wp_thenM wp_canonM st wp_if wp_modify wp_ret wp_accept_of attempt_post_def
        intro: exact_exc split: option.split)
qed

lemma attempt_post_tracked:
  "tracked h h' \<Longrightarrow> attempt_post stored L base event h' resp h'' \<Longrightarrow> attempt_post stored L base event h resp h''"
  "tracked h h' \<Longrightarrow> attempt_exc stored L base event h' h'' \<Longrightarrow> attempt_exc stored L base event h h''"
  by (auto simp: attempt_post_def attempt_exc_def tracked_records intro: tracked_trans split: response.splits)

lemma attempt_new_ok:
  assumes ex: "host_exact stored L base h" and op: "h_sessions h sid \<noteq> None"
    and e: "good L event" "dget event SESSION_ID = JStr sid" "attempted event"
    and new: "h_sealed_attempts h (event_id event) = None" "ss_outcomes (session_of_id h sid) (event_id event) = None"
  shows "attempt_wp stored L base event (attempt_new L event sid) h"
proof -
  have inv: "host_inv L base h" and env: "env_ok stored (h_seams h)" using ex by (simp_all add: host_exact_def)
  obtain d where d: "event_digest L event = Inr d" using e(1) by (auto simp: good_def)
  have seal: "wp (seal_now L event) (\<lambda>sealed. wp (sealed_attempt L event sid sealed)
        (attempt_post stored L base event h) (\<lambda>_. attempt_exc stored L base event h))
      (\<lambda>_. attempt_exc stored L base event h) h"
    if fresh: "fresh_number (host_level h) (session_of_id h sid) event"
  proof -
    have able: "sealable L base h event"
      using sealable_attempt [OF inv op e new fresh] .
    have lost: "host_safe stored L base h'" "tracked h h'" if "unsealed stored L event h h'" for h'
      using that safe_unsealed [OF ex that able] by (simp_all add: unsealed_def same_tracked)
    show ?thesis
    proof (rule wp_seal_now [OF env d])
      fix r h' assume s: "sealed_as stored L event h r h'"
      then have lv: "host_level h' = host_level h" and ev: "rec_event r = event"
        by (auto simp: sealed_as_def same_host_def host_level_def)
      have "upd_session sid (accept_attempt (event_id event)) (decide event sid h') =
          upd_session sid (note_sealed (host_level h) event d) h'"
        by (simp add: decide_upd upd_session_upd note_sealed_fun e(3) lv)
      then show "wp (sealed_attempt L event sid (Some r)) (attempt_post stored L base event h)
          (\<lambda>_. attempt_exc stored L base event h) h'"
        using exact_sealed [OF ex s able e(2) d] ev
        by (auto simp: sealed_attempt_def wp_simps wp_accept_of attempt_post_def attempt_exc_def exact_safe
            split: option.split)
    qed (auto simp: sealed_attempt_def wp_ret attempt_post_def attempt_exc_def tracked_records dest: lost)
  qed
  have replayed: "host_exact stored L base h'" "records base h' = records base h" if "quiet stored h h'" for h'
    using that exact_quiet [OF ex that] by (simp_all add: quiet_def records_same)
  show ?thesis
    unfolding attempt_new_def wp_thenM
    by (rule wp_check_replay)
      (auto simp: wp_simps attempt_post_def exact_decide exact_reject_id exact_safe ex seal
        dest: replayed)
qed

lemma handle_admitted_attempt_ok:
  assumes ex: "host_exact stored L base h" and op: "h_sessions h sid \<noteq> None"
    and e: "good L event" "dget event SESSION_ID = JStr sid" "attempted event"
  shows "attempt_wp stored L base event (handle_admitted_attempt L event sid) h"
  unfolding handle_admitted_attempt_def wp_thenM
proof (rule wp_verify_signature [OF ex])
  fix h' assume ex': "host_exact stored L base h'" and tr: "tracked h h'"
  then have op': "h_sessions h' sid \<noteq> None" using op by (simp add: tracked_def)
  note ok = answer_sealed_ok [OF ex' op' e(1,2)] refuse_decided_ok [OF ex'] attempt_new_ok [OF ex' op' e]
  have "attempt_wp stored L base event (case h_sealed_attempts h' (event_id event) of
           Some sealed \<Rightarrow> answer_sealed L event sid sealed
         | None \<Rightarrow>
           if ss_outcomes (session_of_id h' sid) (event_id event) \<noteq> None
           then refuse_decided event sid OutcomeAlreadySealed
           else attempt_new L event sid) h'"
    using ok by (simp split: option.split)
  then have "wp (case h_sealed_attempts h' (event_id event) of
           Some sealed \<Rightarrow> answer_sealed L event sid sealed
         | None \<Rightarrow>
           if ss_outcomes (session_of_id h' sid) (event_id event) \<noteq> None
           then refuse_decided event sid OutcomeAlreadySealed
           else attempt_new L event sid) (attempt_post stored L base event h)
         (\<lambda>_. attempt_exc stored L base event h) h'"
    by (rule wp_conseq) (blast intro: attempt_post_tracked [OF tr])+
  then show "wp (case None of
       Some r \<Rightarrow> thenM (modify (reject_id (event_id event))) (\<lambda>_. ret (Reject r))
     | None \<Rightarrow> withS (\<lambda>h.
         case h_sealed_attempts h (event_id event) of
           Some sealed \<Rightarrow> answer_sealed L event sid sealed
         | None \<Rightarrow>
           if ss_outcomes (session_of_id h sid) (event_id event) \<noteq> None
           then refuse_decided event sid OutcomeAlreadySealed
           else attempt_new L event sid)) (attempt_post stored L base event h)
         (\<lambda>_. attempt_exc stored L base event h) h'"
    by (simp add: wp_withS)
qed (auto simp: wp_simps attempt_post_def exact_reject_id tracked_records intro: exact_exc)

lemma handle_attempt_locked_ok:
  assumes "jcs_total L" "host_exact stored L base h"
  shows "attempt_wp stored L base event (handle_attempt_locked L event expected) h"
  unfolding handle_attempt_locked_def wp_thenM
proof (rule wp_admit [OF assms(1)])
  fix c h' assume q: "quiet stored h h'"
  then have "host_exact stored L base h'" "records base h' = records base h"
    using exact_quiet [OF assms(2) q] by (simp_all add: quiet_def records_same)
  then show "wp (case Inl c of Inl r \<Rightarrow> ret (Reject r) | Inr sid \<Rightarrow> handle_admitted_attempt L event sid)
      (attempt_post stored L base event h) (\<lambda>_. attempt_exc stored L base event h) h'"
    by (simp add: wp_simps attempt_post_def)
qed (use handle_admitted_attempt_ok [OF assms(2)] in simp)

text \<open>From any safe host: the tail is settled first, and only then is the attempt decided.\<close>

definition handled :: "'w store \<Rightarrow> sealed_record list \<Rightarrow> ('w host \<Rightarrow> 'w host \<Rightarrow> bool) \<Rightarrow> 'w host \<Rightarrow> 'w host \<Rightarrow> bool" where
  "handled stored base P h h' \<longleftrightarrow> (\<exists>h0. settled_from stored base h h0 \<and> P h0 h')"

lemma handle_attempt_ok:
  assumes "jcs_total L" "host_safe stored L base h"
  shows "wp (handle_attempt L event expected expired)
    (\<lambda>resp h'. handled stored base (\<lambda>h0. attempt_post stored L base event h0 resp) h h' \<or>
       resp = Unavailable \<and> host_safe stored L base h' \<and> tracked h h')
    (\<lambda>_ h'. handled stored base (attempt_exc stored L base event) h h' \<or> host_safe stored L base h' \<and> tracked h h') h"
proof (cases expired)
  case False
  have "wp (handle_attempt_locked L event expected)
      (\<lambda>resp h'. handled stored base (\<lambda>h0. attempt_post stored L base event h0 resp) h h' \<or>
         resp = Unavailable \<and> host_safe stored L base h' \<and> tracked h h')
      (\<lambda>_ h'. handled stored base (attempt_exc stored L base event) h h' \<or> host_safe stored L base h' \<and> tracked h h') h0"
    if "host_exact stored L base h0" "settled_from stored base h h0" for h0
    by (rule wp_conseq [OF handle_attempt_locked_ok [OF assms(1) that(1)]])
      (use that(2) in \<open>auto simp: handled_def\<close>)
  then show ?thesis
    using False unfolding handle_attempt_def wp_if wp_thenM
    by (auto intro!: wp_settle_tail [OF assms(2)] simp: wp_simps)
qed (simp add: handle_attempt_def wp_ret assms(2))

section \<open>The outcome handler\<close>

definition outcome_post ::
  "'w store \<Rightarrow> lib \<Rightarrow> sealed_record list \<Rightarrow> jobj \<Rightarrow> 'w host \<Rightarrow> disposition \<Rightarrow> 'w host \<Rightarrow> bool" where
  "outcome_post stored L base event h disp h' \<longleftrightarrow>
     (case disp of
        SEALED \<Rightarrow> host_exact stored L base h' \<and> (\<exists>r. records base h' = records base h @ [r] \<and> rec_event r = event)
      | REPEAT \<Rightarrow> host_exact stored L base h' \<and> records base h' = records base h \<and>
          (\<exists>r\<in>set (records base h). event_digest L (rec_event r) = event_digest L event)
      | REFUSED \<Rightarrow> host_exact stored L base h' \<and> records base h' = records base h
      | NOT_RECORDED \<Rightarrow> host_safe stored L base h' \<and> tracked h h')"

definition outcome_exc :: "'w store \<Rightarrow> lib \<Rightarrow> sealed_record list \<Rightarrow> 'w host \<Rightarrow> 'w host \<Rightarrow> bool" where
  "outcome_exc stored L base h h' \<longleftrightarrow> host_safe stored L base h' \<and> tracked h h'"

abbreviation outcome_wp where
  "outcome_wp stored L base event m h \<equiv>
     wp m (outcome_post stored L base event h) (\<lambda>_. outcome_exc stored L base h) h"

lemma refuse_outcome_ok:
  assumes "host_exact stored L base h"
  shows "outcome_wp stored L base event (refuse_outcome event sid k detail) h"
  using assms by (simp add: refuse_outcome_def wp_simps outcome_post_def exact_flag exact_decide)

lemma seal_outcome_ok:
  assumes ex: "host_exact stored L base h" and able: "sealable L base h event" and att: "\<not> attempted event"
    and e: "dget event SESSION_ID = JStr sid" "event_digest L event = Inr d"
  shows "outcome_wp stored L base event (seal_outcome L event sid d) h"
proof -
  have env: "env_ok stored (h_seams h)" using ex by (simp add: host_exact_def)
  have lost: "host_safe stored L base h'" "tracked h h'" if "unsealed stored L event h h'" for h'
    using that safe_unsealed [OF ex that able] by (simp_all add: unsealed_def same_tracked)
  have "wp (seal_now L event) (\<lambda>sealed. wp (sealed_outcome event sid d sealed)
        (outcome_post stored L base event h) (\<lambda>_. outcome_exc stored L base h))
      (\<lambda>_. outcome_exc stored L base h) h"
  proof (rule wp_seal_now [OF env e(2)])
    fix r h' assume s: "sealed_as stored L event h r h'"
    then have lv: "host_level h' = host_level h" and ev: "rec_event r = event"
      by (auto simp: sealed_as_def same_host_def host_level_def)
    have "upd_session sid (resolve_outcome (event_id event) d) (decide event sid h') =
        upd_session sid (note_sealed (host_level h) event d) h'"
      by (simp add: decide_upd upd_session_upd note_sealed_fun att lv)
    then show "wp (sealed_outcome event sid d (Some r)) (outcome_post stored L base event h)
        (\<lambda>_. outcome_exc stored L base h) h'"
      using exact_sealed [OF ex s able e] ev by (simp add: sealed_outcome_def wp_simps outcome_post_def)
  qed (auto simp: sealed_outcome_def wp_ret outcome_post_def outcome_exc_def dest: lost)
  then show ?thesis
    using ex by (simp add: seal_outcome_def wp_withS wp_thenM wp_if wp_ret sealed_outcome_def outcome_post_def exact_safe)
qed

lemma handle_verified_outcome_ok:
  assumes ex: "host_exact stored L base h" and op: "h_sessions h sid \<noteq> None"
    and e: "good L event" "dget event SESSION_ID = JStr sid" "\<not> attempted event"
  shows "outcome_wp stored L base event (handle_verified_outcome L event sid) h"
proof -
  have inv: "host_inv L base h" using ex by (simp add: host_exact_def)
  obtain d where d: "event_digest L event = Inr d" using e(1) by (auto simp: good_def)
  let ?s = "session_of_id h sid" and ?eid = "event_id event"
  have rep: "outcome_post stored L base event h REPEAT h"
    if "ss_outcomes ?s ?eid = Some d \<or> d \<in> h_sealed_digests h"
  proof -
    have "outcomes_ok L (events base h) sid (ss_outcomes ?s)"
      using open_session_ok [OF inv op] by (simp add: session_ok_def)
    then have 1: "\<exists>e\<in>set (events base h). event_digest L e = Inr d" if "ss_outcomes ?s ?eid = Some d"
      using that unfolding outcomes_ok_def terminal_in_def by blast
    have 2: "\<exists>r\<in>set (records base h). event_digest L (rec_event r) = Inr d" if "d \<in> h_sealed_digests h"
      using inv that by (simp add: host_inv_def index_ok_def)
    from that 1 2 have "\<exists>r\<in>set (records base h). event_digest L (rec_event r) = Inr d"
      by auto
    then show ?thesis using ex d by (simp add: outcome_post_def)
  qed
  have refused: "outcome_post stored L base event h REFUSED h'" if "quiet stored h h'" for h'
    using that exact_quiet [OF ex that] by (simp add: outcome_post_def quiet_def records_same)
  have seal: "outcome_wp stored L base event (seal_outcome L event sid d) h"
    if "ss_outcomes ?s ?eid = None" "fresh_number (host_level h) ?s event" "?eid \<in> ss_accepted ?s \<or> outcome_is event ABORTED"
    using seal_outcome_ok [OF ex sealable_outcome [OF inv op e that(3,1,2)] e(3,2) d] .
  show ?thesis
    unfolding handle_verified_outcome_def wp_thenM wp_canonM d sum.case wp_withS Let_def wp_if
    by (auto simp: wp_ret wp_thenM wp_if rep refuse_outcome_ok [OF ex] refused seal
        intro!: wp_check_replay [where stored = stored])
qed

lemma outcome_post_tracked:
  "tracked h h' \<Longrightarrow> outcome_post stored L base event h' disp h'' \<Longrightarrow> outcome_post stored L base event h disp h''"
  "tracked h h' \<Longrightarrow> outcome_exc stored L base h' h'' \<Longrightarrow> outcome_exc stored L base h h''"
  by (auto simp: outcome_post_def outcome_exc_def tracked_records intro: tracked_trans split: disposition.splits)

lemma handle_outcome_locked_ok:
  assumes "jcs_total L" and ex: "host_exact stored L base h"
  shows "outcome_wp stored L base event (handle_outcome_locked L event expected) h"
proof -
  have verified: "outcome_wp stored L base event (thenM (verify_signature event sid) (\<lambda>reason.
       case reason of Some r \<Rightarrow> ret REFUSED | None \<Rightarrow> handle_verified_outcome L event sid)) h"
    if op: "h_sessions h sid \<noteq> None" and e: "good L event" "dget event SESSION_ID = JStr sid" "\<not> attempted event" for sid
    unfolding wp_thenM
  proof (rule wp_verify_signature [OF ex])
    fix h' assume ex': "host_exact stored L base h'" and tr: "tracked h h'"
    then have op': "h_sessions h' sid \<noteq> None" using op by (simp add: tracked_def)
    show "wp (case None of Some r \<Rightarrow> ret REFUSED | None \<Rightarrow> handle_verified_outcome L event sid)
       (outcome_post stored L base event h) (\<lambda>_. outcome_exc stored L base h) h'"
      using wp_conseq [OF handle_verified_outcome_ok [OF ex' op' e]] outcome_post_tracked [OF tr] by simp
  qed (auto simp: wp_ret outcome_post_def outcome_exc_def tracked_records exact_safe)
  have refused: "outcome_post stored L base event h REFUSED h'" if "quiet stored h h'" for h'
    using that exact_quiet [OF ex that] by (simp add: outcome_post_def quiet_def records_same)
  show ?thesis
    unfolding handle_outcome_locked_def wp_thenM
    by (rule wp_admit [OF assms(1), where stored = stored])
      (use refused verified in \<open>auto simp: wp_ret wp_thenM\<close>)
qed

lemma record_outcome_ok:
  assumes "jcs_total L" "host_safe stored L base h"
  shows "wp (record_outcome L event expected)
    (\<lambda>disp h'. handled stored base (\<lambda>h0. outcome_post stored L base event h0 disp) h h' \<or>
       disp = NOT_RECORDED \<and> host_safe stored L base h' \<and> tracked h h')
    (\<lambda>_ h'. handled stored base (outcome_exc stored L base) h h' \<or> host_safe stored L base h' \<and> tracked h h') h"
proof -
  have "wp (handle_outcome_locked L event expected)
      (\<lambda>disp h'. handled stored base (\<lambda>h0. outcome_post stored L base event h0 disp) h h' \<or>
         disp = NOT_RECORDED \<and> host_safe stored L base h' \<and> tracked h h')
      (\<lambda>_ h'. handled stored base (outcome_exc stored L base) h h' \<or> host_safe stored L base h' \<and> tracked h h') h0"
    if "host_exact stored L base h0" "settled_from stored base h h0" for h0
    by (rule wp_conseq [OF handle_outcome_locked_ok [OF assms(1) that(1)]])
      (use that(2) in \<open>auto simp: handled_def\<close>)
  then show ?thesis
    unfolding record_outcome_def wp_thenM wp_if
    by (auto intro!: wp_settle_tail [OF assms(2)] simp: wp_simps)
qed

section \<open>Safety of every call\<close>

lemma attempt_post_safe: "attempt_post stored L base event h resp h' \<Longrightarrow> host_safe stored L base h'"
  by (auto simp: attempt_post_def exact_safe split: response.splits)

lemma outcome_post_safe: "outcome_post stored L base event h disp h' \<Longrightarrow> host_safe stored L base h'"
  by (auto simp: outcome_post_def exact_safe split: disposition.splits)

lemma handle_attempt_safe:
  assumes "jcs_total L"
  shows "keeps (host_safe stored L base) (handle_attempt L event expected expired)"
proof (rule keepsI)
  fix h assume "host_safe stored L base h"
  from handle_attempt_ok [OF assms this]
  show "wp (handle_attempt L event expected expired) (\<lambda>_. host_safe stored L base) (\<lambda>_. host_safe stored L base) h"
    by (rule wp_conseq) (auto simp: handled_def attempt_exc_def dest: attempt_post_safe)
qed

lemma record_outcome_safe:
  assumes "jcs_total L"
  shows "keeps (host_safe stored L base) (record_outcome L event expected)"
proof (rule keepsI)
  fix h assume "host_safe stored L base h"
  from record_outcome_ok [OF assms this]
  show "wp (record_outcome L event expected) (\<lambda>_. host_safe stored L base) (\<lambda>_. host_safe stored L base) h"
    by (rule wp_conseq) (auto simp: handled_def outcome_exc_def dest: outcome_post_safe)
qed

text \<open>Opening and closing a session.\<close>

lemma safe_sessions:
  assumes "host_safe stored L base h"
    and h': "h' = h\<lparr>h_issued := I, h_sessions := S\<rparr>" "h_issued h \<subseteq> I" "dom S \<subseteq> I"
    and ok: "\<And>sid s. S sid = Some s \<Longrightarrow> session_ok L (host_level h) (events base h) sid s"
  shows "host_safe stored L base h'"
proof -
  have f: "records base h' = records base h" "host_level h' = host_level h" "held stored h' = held stored h"
    "h_ledger h' = h_ledger h" "h_seams h' = h_seams h" "h_tail_uncertain h' = h_tail_uncertain h"
    by (simp_all add: h' records_def host_level_def held_def)
  have "host_inv L base h'"
    using assms unfolding host_safe_def host_inv_def f by (auto simp: issued_ok_def)
  moreover have "store_ok stored L base h'"
    using assms(1) h'(2) unfolding host_safe_def store_ok_def f sealable_def by (auto simp: h'(1))
  ultimately show ?thesis using assms(1) by (simp add: host_safe_def f)
qed

lemma unseen_session_ok:
  assumes "issued_ok es I" "sid \<notin> I"
  shows "session_ok L lv es sid new_session"
proof -
  have "dget e SESSION_ID \<noteq> JStr sid" if "e \<in> set es" for e
    using assms that by (auto simp: issued_ok_def)
  then show ?thesis
    by (auto simp: session_ok_def new_session_def accepted_in_def outcomes_ok_def terminal_in_def decided_ok_def)
qed

lemma open_session_safe: "keeps (host_safe stored L base) (open_session sid)"
proof (rule keepsI)
  fix h assume s: "host_safe stored L base h"
  then have inv: "host_inv L base h" by (simp add: host_safe_def)
  have "host_safe stored L base (h\<lparr>h_issued := insert sid (h_issued h),
      h_sessions := (h_sessions h)(sid \<mapsto> new_session)\<rparr>)" if "sid \<notin> h_issued h"
    by (rule safe_sessions [OF s refl])
      (use inv that unseen_session_ok in \<open>auto simp: host_inv_def split: if_splits\<close>)
  then show "wp (open_session sid) (\<lambda>_. host_safe stored L base) (\<lambda>_. host_safe stored L base) h"
    by (simp add: open_session_def wp_simps s)
qed

lemma wp_forM_flags:
  assumes "\<And>h'. quiet stored h h' \<Longrightarrow> Q () h'"
  shows "wp (forM xs (\<lambda>eid. modify (flag eid k d))) Q E h"
  using assms
proof (induction xs arbitrary: h)
  case (Cons x xs)
  show ?case
    by (simp add: wp_simps) (rule Cons.IH, rule Cons.prems, simp add: quiet_trans [of stored h "flag x k d h"])
qed (simp add: wp_simps)

lemma close_session_safe: "keeps (host_safe stored L base) (close_session sid)"
proof (rule keepsI)
  fix h assume s: "host_safe stored L base h"
  have "host_safe stored L base (h\<lparr>h_sessions := (h_sessions h)(sid := None)\<rparr>)"
    by (rule safe_sessions [OF s, where I = "h_issued h"])
      (use s in \<open>auto simp: host_safe_def host_inv_def split: if_splits\<close>)
  then show "wp (close_session sid) (\<lambda>_. host_safe stored L base) (\<lambda>_. host_safe stored L base) h"
    by (auto simp: close_session_def wp_simps s intro!: wp_forM_flags [where stored = stored]
        intro: safe_quiet split: option.split)
qed

end
