(* ===== verification/HostReach.thy ===== *)
theory HostReach
  imports HostSafe
begin

text \<open>
  Restarting a host from its persisted chain, and the reachable states of a host: any sequence of
  calls and restarts, over any outside world that keeps the repository's contract.
\<close>

section \<open>Restoring a session\<close>

lemma session_ok_cong:
  "ss_accepted t = ss_accepted s \<Longrightarrow> ss_outcomes t = ss_outcomes s \<Longrightarrow> ss_resolved t = ss_resolved s \<Longrightarrow>
     (lv = L2 \<Longrightarrow> \<forall>k. or_default (ss_decided s k) {} \<subseteq> or_default (ss_decided t k) {}) \<Longrightarrow>
     session_ok L lv es sid s \<Longrightarrow> session_ok L lv es sid t"
  by (simp add: session_ok_def decided_ok_def) (meson subsetD)

lemma restore_records_append:
  "restore_records L sid (rs @ rs') s =
     (case restore_records L sid rs s of Inl e \<Rightarrow> Inl e | Inr t \<Rightarrow> restore_records L sid rs' t)"
  by (induction rs arbitrary: s) (simp_all split: sum.split)

lemma good_sid: "good L e \<Longrightarrow> \<exists>sid. dget e SESSION_ID = JStr sid"
  by (auto simp: good_def dest: valid_event_session)

lemma restore_record_ok:
  assumes ok: "session_ok L lv es sid s" and adm: "admissible lv es (rec_event r)" and e: "good L (rec_event r)"
  shows "\<exists>t. restore_record L sid r s = Inr t \<and> session_ok L lv (es @ [rec_event r]) sid t"
proof (cases "dget (rec_event r) SESSION_ID = JStr sid")
  case False
  then show ?thesis using session_ok_other [OF ok False] by (simp add: restore_record_def)
next
  case True
  let ?e = "rec_event r"
  obtain d where d: "event_digest L ?e = Inr d" using e by (auto simp: good_def)
  have v: "dget ?e SPEC_VERSION_F = JStr SPEC_VERSION" using e by (auto simp: good_def dest: valid_event_version)
  let ?s = "case numbered_under ?e of None \<Rightarrow> s | Some (k, n) \<Rightarrow> note_number k n s"
  let ?t = "if attempted ?e then accept_attempt (event_id ?e) ?s else resolve_outcome (event_id ?e) d ?s"
  have "session_ok L lv (es @ [?e]) sid ?t"
    by (rule session_ok_cong [OF _ _ _ _ session_ok_sealed [OF ok adm True d]])
      (auto simp: note_sealed_def note_number_if_def note_number_def add_decided_def accept_attempt_def
        resolve_outcome_def split: option.splits)
  then show ?thesis
    using True v d by (auto simp: restore_record_def Let_def)
qed

lemma restored_session_ok:
  assumes "log_inv L lv rs"
  shows "\<exists>t. restored_session L sid rs = Inr t \<and> session_ok L lv (map rec_event rs) sid t"
  using assms
proof (induction rs rule: rev_induct)
  case Nil
  show ?case
    using unseen_session_ok [of "[]" "{}" sid] by (simp add: restored_session_def issued_ok_def)
next
  case (snoc r rs)
  then have "log_inv L lv rs" "good L (rec_event r)" "admissible lv (map rec_event rs) (rec_event r)"
    by (auto simp: log_inv_def chain_from_append)
  with snoc.IH restore_record_ok show ?case
    by (fastforce simp: restored_session_def restore_records_append)
qed

lemma merge_tracker_ok: "session_ok L lv es sid s \<Longrightarrow> session_ok L lv es sid (merge_tracker st s)"
  by (rule session_ok_cong [where s = s])
    (auto simp: merge_tracker_def or_default_def split: option.splits)

section \<open>Restarting\<close>

lemma index_ok_Nil: "index_ok L [] Map.empty {}"
  by (simp add: index_ok_def)

text \<open>The host while \<open>resume\<close> replays the records \<open>seen\<close> of its chain.\<close>

definition replaying :: "lib \<Rightarrow> 'w host \<Rightarrow> sealed_record list \<Rightarrow> 'w host \<Rightarrow> bool" where
  "replaying L h0 seen h \<longleftrightarrow>
     h_ledger h = h_ledger h0 \<and> h_capability h = h_capability h0 \<and> h_seams h = h_seams h0 \<and>
     h_partition h = h_partition h0 \<and> h_sessions h = h_sessions h0 \<and> h_world h = h_world h0 \<and>
     h_tail_uncertain h = h_tail_uncertain h0 \<and>
     index_ok L seen (h_sealed_attempts h) (h_sealed_digests h) \<and> issued_ok (map rec_event seen) (h_issued h)"

lemma wp_replay:
  assumes "\<forall>r\<in>set rs. good L (rec_event r)" "replaying L h0 seen h"
    and "\<And>h'. replaying L h0 (seen @ rs) h' \<Longrightarrow> Q () h'"
  shows "wp (forM rs (\<lambda>r. thenM (remember L r) (\<lambda>_. modify (note_issued (rec_event r))))) Q E h"
  using assms
proof (induction rs arbitrary: seen h)
  case (Cons r rs)
  then obtain d sid where d: "event_digest L (rec_event r) = Inr d" "dget (rec_event r) SESSION_ID = JStr sid"
    using good_sid [of L "rec_event r"] by (auto simp: good_def)
  have "replaying L h0 (seen @ [r]) (issue sid (remembered r d h))"
    using Cons.prems(2) index_ok_sealed [OF _ d(1)] d(2)
    by (auto simp: replaying_def remembered_def issue_def issued_ok_def)
  then have "wp (forM rs (\<lambda>r. thenM (remember L r) (\<lambda>_. modify (note_issued (rec_event r))))) Q E
      (issue sid (remembered r d h))"
    by (rule Cons.IH [rotated]) (use Cons.prems in auto)
  moreover have "note_issued (rec_event r) (remembered r d h) = issue sid (remembered r d h)"
    by (simp add: note_issued_def d)
  ultimately show ?case by (simp add: wp_simps wp_remember d)
qed (simp add: wp_simps)

text \<open>The host once it has replayed all of \<open>rs\<close>, while it restores sessions.\<close>

definition restoring :: "lib \<Rightarrow> level \<Rightarrow> 'w host \<Rightarrow> sealed_record list \<Rightarrow> 'w host \<Rightarrow> bool" where
  "restoring L lv h0 rs h \<longleftrightarrow>
     h_ledger h = h_ledger h0 \<and> h_capability h = h_capability h0 \<and> h_seams h = h_seams h0 \<and>
     h_partition h = h_partition h0 \<and> h_world h = h_world h0 \<and> h_tail_uncertain h = h_tail_uncertain h0 \<and>
     index_ok L rs (h_sealed_attempts h) (h_sealed_digests h) \<and> issued_ok (map rec_event rs) (h_issued h) \<and>
     dom (h_sessions h) \<subseteq> h_issued h \<and>
     (\<forall>sid s. h_sessions h sid = Some s \<longrightarrow> session_ok L lv (map rec_event rs) sid s)"

lemma wp_restore_sessions:
  assumes "log_inv L lv rs" "restoring L lv h0 rs h" "\<And>h'. restoring L lv h0 rs h' \<Longrightarrow> Q () h'"
  shows "wp (forM entries (restore_session L rs)) Q E h"
  using assms(2)
proof (induction entries arbitrary: h)
  case Nil
  then show ?case using assms(3) by (simp add: wp_simps)
next
  case (Cons x xs)
  obtain t where t: "restored_session L (os_session_id x) rs = Inr t"
      "session_ok L lv (map rec_event rs) (os_session_id x) t"
    using restored_session_ok [OF assms(1)] by blast
  have "restoring L lv h0 rs (issue (os_session_id x) h
      \<lparr>h_sessions := (h_sessions (issue (os_session_id x) h))(os_session_id x \<mapsto> merge_tracker (os_signers x) t)\<rparr>)"
    using Cons.prems merge_tracker_ok [OF t(2)]
    by (auto simp: restoring_def issue_def issued_ok_def split: if_splits)
  from Cons.IH [OF this] show ?case by (simp add: wp_simps restore_session_def t)
qed

lemma resume_tail:
  assumes "chain_from L 0 GENESIS_HASH rs"
  shows "led_count (resume_from (tail_of rs) led) = int (length rs)"
    "led_tail_hash (resume_from (tail_of rs) led) = chain_tail GENESIS_HASH rs"
    "led_records (resume_from (tail_of rs) led) = []"
proof -
  have "rec_seqno (last rs) = int (length rs) - 1" if "rs \<noteq> []"
    using tail_seqno [OF assms, of "last rs"] that by (simp add: tail_of_def)
  then show "led_count (resume_from (tail_of rs) led) = int (length rs)"
    "led_tail_hash (resume_from (tail_of rs) led) = chain_tail GENESIS_HASH rs"
    "led_records (resume_from (tail_of rs) led) = []"
    by (auto simp: resume_from_def tail_of_def chain_tail_def)
qed

lemma new_host_fields:
  assumes "new_host p cap sm log w = Inr h"
  shows "h_partition h = p" "h_capability h = cap" "h_seams h = sm" "h_sessions h = Map.empty" "h_issued h = {}"
    "\<not> h_tail_uncertain h" "h_sealed_attempts h = Map.empty" "h_sealed_digests h = {}" "h_world h = w"
    "h_ledger h = new_ledger p" "h_persistence_available h" "h_anomalies h = []"
  using assms by (auto simp: new_host_def split: if_splits)

lemma new_host_safe:
  assumes "new_host p cap sm log w = Inr h" "env_ok stored sm" "stored w p = [] \<or> repository sm = None"
  shows "host_exact stored L [] h"
  using new_host_fields [OF assms(1)] assms(2,3)
  by (auto simp: host_exact_def host_inv_def log_inv_def records_def new_ledger_def store_exact_def held_def
      issued_ok_def index_ok_Nil)

lemma resume_exact:
  assumes new: "new_host p cap sm log w = Inr h0" and env: "env_ok stored sm" and rp: "repository sm = Some rp"
    and log: "log_inv L (cap_level cap) (stored w p)"
  shows "wp (resume L rp entries) (\<lambda>_. host_exact stored L (stored w p))
    (\<lambda>e h'. fst (rp_read_all rp p w) = Exc e) h0"
proof -
  let ?rs = "stored w p"
  note f0 = new_host_fields [OF new]
  have "ledger_repository rp stored" using env rp by (simp add: env_ok_def)
  note read = ledger_repository.wp_read_all [OF this]
  have held: "held stored h0 = ?rs" by (simp add: held_def f0)
  have resumed: "wp (resume_records L ?rs entries) (\<lambda>_. host_exact stored L ?rs) (\<lambda>_ _. False) h1"
    if q: "quiet stored h0 h1" for h1
  proof -
    let ?h = "h1\<lparr>h_ledger := resume_from (tail_of ?rs) (h_ledger h1)\<rparr>"
    have h1: "h_sessions h1 = Map.empty" "h_issued h1 = {}" "h_sealed_attempts h1 = Map.empty"
      "h_sealed_digests h1 = {}" "h_capability h1 = cap" "h_seams h1 = sm" "h_partition h1 = p"
      "\<not> h_tail_uncertain h1" "stored (h_world h1) p = ?rs"
      using q f0 by (auto simp: quiet_def same_host_def held_def)
    have tail: "led_count (h_ledger ?h) = int (length ?rs)"
      "led_tail_hash (h_ledger ?h) = chain_tail GENESIS_HASH ?rs" "led_records (h_ledger ?h) = []"
      using log resume_tail by (auto simp: log_inv_def)
    have start: "replaying L ?h [] ?h"
      by (simp add: replaying_def h1 index_ok_Nil issued_ok_def)
    have fin: "host_exact stored L ?rs h'" if "restoring L (cap_level cap) ?h ?rs h'" for h'
    proof -
      have rs: "records ?rs h' = ?rs" and lv: "host_level h' = cap_level cap" and
        fields: "h_ledger h' = h_ledger ?h" "h_seams h' = sm" "held stored h' = ?rs"
        using that tail(3) h1 by (simp_all add: restoring_def records_def host_level_def held_def)
      show ?thesis
        using that log env tail
        unfolding host_exact_def host_inv_def store_exact_def rs lv fields
        by (simp add: restoring_def)
    qed
    have flags: "wp (flag_unresolved ?rs S) (\<lambda>_. host_exact stored L ?rs) (\<lambda>_ _. False) h'"
      if "restoring L (cap_level cap) ?h ?rs h'" for h' S
      unfolding flag_unresolved_def
      by (rule wp_forM_flags [where stored = stored]) (rule exact_quiet [OF fin [OF that]])
    have sess: "restoring L (cap_level cap) ?h ?rs h'" if "replaying L ?h ?rs h'" for h'
      using that h1 by (simp add: replaying_def restoring_def)
    have good: "\<forall>r\<in>set ?rs. good L (rec_event r)" using log by (simp add: log_inv_def)
    show ?thesis
      unfolding resume_records_def wp_thenM wp_modify
      by (rule wp_replay [OF good start], rule wp_restore_sessions [OF log sess]) (auto intro: flags)
  qed
  show ?thesis
    unfolding resume_def wp_withS wp_thenM
    by (rule read) (use held in \<open>auto intro: wp_conseq [OF resumed] simp: f0\<close>)
qed

section \<open>Reachable hosts\<close>

datatype host_call =
    CallAttempt jobj "pystr option" bool
  | CallOutcome jobj "pystr option"
  | CallOpen pystr
  | CallClose pystr
  | CallPersistence bool

text \<open>The host after a call, whatever the call answered or raised.\<close>

definition run_call :: "lib \<Rightarrow> host_call \<Rightarrow> 'w host \<Rightarrow> 'w host" where
  "run_call L c h = (case c of
      CallAttempt event expected expired \<Rightarrow> snd (handle_attempt L event expected expired h)
    | CallOutcome event expected \<Rightarrow> snd (handle_outcome L event expected h)
    | CallOpen sid \<Rightarrow> snd (open_session sid h)
    | CallClose sid \<Rightarrow> snd (close_session sid h)
    | CallPersistence b \<Rightarrow> h\<lparr>h_persistence_available := b\<rparr>)"

text \<open>
  \<open>reachable stored L lv base h\<close>: a host of level \<open>lv\<close>, built over an empty chain, reaches \<open>h\<close> by calls
  and restarts; \<open>base\<close> is the chain it was last restarted from. A restart keeps the repository and the
  world; the other seams, the capability and the sessions to restore may be others. A restart that fails
  leaves no host, so only one that returns is a step.
\<close>

inductive reachable :: "'w store \<Rightarrow> lib \<Rightarrow> level \<Rightarrow> sealed_record list \<Rightarrow> 'w host \<Rightarrow> bool"
  for stored :: "'w store" and L :: lib and lv :: level where
  built: "new_host p cap sm log w = Inr h \<Longrightarrow> cap_level cap = lv \<Longrightarrow> env_ok stored sm \<Longrightarrow>
     stored w p = [] \<or> repository sm = None \<Longrightarrow> reachable stored L lv [] h"
| call: "reachable stored L lv base h \<Longrightarrow> reachable stored L lv base (run_call L c h)"
| restarted: "reachable stored L lv base h \<Longrightarrow> repository (h_seams h) = Some rp \<Longrightarrow>
     new_host (h_partition h) cap sm log (h_world h) = Inr h0 \<Longrightarrow> cap_level cap = lv \<Longrightarrow> env_ok stored sm \<Longrightarrow>
     repository sm = Some rp \<Longrightarrow> resume L rp entries h0 = (Ret (), h') \<Longrightarrow>
     reachable stored L lv (held stored h) h'"

lemma handle_outcome_safe:
  assumes "jcs_total L"
  shows "keeps (host_safe stored L base) (handle_outcome L event expected)"
  using record_outcome_safe [OF assms, of stored base event expected]
  by (simp add: keeps_wp handle_outcome_def wp_simps)

lemma persistence_safe: "host_safe stored L base h \<Longrightarrow> host_safe stored L base (h\<lparr>h_persistence_available := b\<rparr>)"
  by (simp add: host_safe_def host_inv_def store_ok_def sealable_def records_def host_level_def held_def)

lemma run_call_safe:
  assumes "jcs_total L" "host_safe stored L base h"
  shows "host_safe stored L base (run_call L c h)"
  using assms
  by (cases c) (auto simp: run_call_def intro: keepsD [OF handle_attempt_safe] keepsD [OF handle_outcome_safe]
      keepsD [OF open_session_safe] keepsD [OF close_session_safe] persistence_safe)

text \<open>No call changes the host's configuration.\<close>

definition config :: "'w host \<Rightarrow> audit_capability \<times> pystr \<times> pystr \<times> 'w seams" where
  "config h = (h_capability h, h_partition h, h_log_id h, h_seams h)"

lemma config_simps [simp]:
  "config (flag i k d h) = config h" "config (doubt_tail h) = config h" "config (reject_id i h) = config h"
  "config (upd_session sid f h) = config h" "config (decide e sid h) = config h"
  "config (commit_record r h) = config h" "config (h\<lparr>h_tail_uncertain := u\<rparr>) = config h"
  "config (h\<lparr>h_ledger := l\<rparr>) = config h" "config (h\<lparr>h_sealed_digests := D\<rparr>) = config h"
  "config (h\<lparr>h_sealed_attempts := A\<rparr>) = config h" "config (h\<lparr>h_sessions := S\<rparr>) = config h"
  "config (h\<lparr>h_issued := I\<rparr>) = config h" "config (h\<lparr>h_world := w\<rparr>) = config h"
  "config (h\<lparr>h_persistence_available := b\<rparr>) = config h"
  by (simp_all add: config_def flag_def doubt_tail_def reject_id_def decide_upd upd_session_def commit_record_def
      split: option.split)

lemma keeps_config_outside [keeps_intros]: "keeps (\<lambda>h. config h = c) (outside m)"
  by (auto simp: keeps_def outside_def split: prod.split)

lemma keeps_json_str [keeps_intros]:
  "(\<And>s. keeps I (f s)) \<Longrightarrow> keeps I m \<Longrightarrow> keeps I (case v of JStr s \<Rightarrow> f s | _ \<Rightarrow> m)"
  by (cases v) auto

lemma config_remember [keeps_intros]: "keeps (\<lambda>h. config h = c) (remember L r)"
  unfolding remember_def Let_def by (rule keeps_intros | simp)+

lemma config_adopt [keeps_intros]: "keeps (\<lambda>h. config h = c) (adopt L r)"
  unfolding adopt_def Let_def by (rule keeps_intros | simp)+

lemma config_settle_tail [keeps_intros]: "keeps (\<lambda>h. config h = c) (settle_tail L)"
  unfolding settle_tail_def Let_def by (rule keeps_intros | simp)+

lemma config_countersign_record [keeps_intros]: "keeps (\<lambda>h. config h = c) (countersign_record L r)"
  unfolding countersign_record_def Let_def by (rule keeps_intros | simp)+

lemma config_persist [keeps_intros]: "keeps (\<lambda>h. config h = c) (persist r)"
  unfolding persist_def Let_def by (rule keeps_intros | simp)+

lemma config_seal_event [keeps_intros]: "keeps (\<lambda>h. config h = c) (seal_event L e ts)"
  unfolding seal_event_def Let_def by (rule keeps_intros | simp)+

lemma config_seal_now [keeps_intros]: "keeps (\<lambda>h. config h = c) (seal_now L e)"
  unfolding seal_now_def Let_def by (rule keeps_intros | simp)+

lemma config_session_of [keeps_intros]: "keeps (\<lambda>h. config h = c) (session_of e x)"
  unfolding session_of_def Let_def by (rule keeps_intros | simp)+

lemma config_admit [keeps_intros]: "keeps (\<lambda>h. config h = c) (admit L e x b)"
  unfolding admit_def Let_def by (rule keeps_intros | simp)+

lemma config_verify_signature [keeps_intros]: "keeps (\<lambda>h. config h = c) (verify_signature e sid)"
  unfolding verify_signature_def Let_def by (rule keeps_intros | simp)+

lemma config_check_replay [keeps_intros]: "keeps (\<lambda>h. config h = c) (check_replay e sid)"
  unfolding check_replay_def Let_def by (rule keeps_intros | simp)+

lemma config_accept_of [keeps_intros]: "keeps (\<lambda>h. config h = c) (accept_of L r)"
  unfolding accept_of_def Let_def by (rule keeps_intros | simp)+

lemma config_refuse_decided [keeps_intros]: "keeps (\<lambda>h. config h = c) (refuse_decided e sid t)"
  unfolding refuse_decided_def Let_def by (rule keeps_intros | simp)+

lemma config_answer_sealed [keeps_intros]: "keeps (\<lambda>h. config h = c) (answer_sealed L e sid r)"
  unfolding answer_sealed_def Let_def by (rule keeps_intros | simp)+

lemma config_sealed_attempt [keeps_intros]: "keeps (\<lambda>h. config h = c) (sealed_attempt L e sid x)"
  unfolding sealed_attempt_def Let_def by (rule keeps_intros | simp)+

lemma config_attempt_new [keeps_intros]: "keeps (\<lambda>h. config h = c) (attempt_new L e sid)"
  unfolding attempt_new_def Let_def by (rule keeps_intros | simp)+

lemma config_handle_admitted_attempt [keeps_intros]: "keeps (\<lambda>h. config h = c) (handle_admitted_attempt L e sid)"
  unfolding handle_admitted_attempt_def Let_def by (rule keeps_intros | simp)+

lemma config_handle_attempt_locked [keeps_intros]: "keeps (\<lambda>h. config h = c) (handle_attempt_locked L e x)"
  unfolding handle_attempt_locked_def Let_def by (rule keeps_intros | simp)+

lemma config_handle_attempt [keeps_intros]: "keeps (\<lambda>h. config h = c) (handle_attempt L e x b)"
  unfolding handle_attempt_def Let_def by (rule keeps_intros | simp)+

lemma config_refuse_outcome [keeps_intros]: "keeps (\<lambda>h. config h = c) (refuse_outcome e sid k t)"
  unfolding refuse_outcome_def Let_def by (rule keeps_intros | simp)+

lemma config_sealed_outcome [keeps_intros]: "keeps (\<lambda>h. config h = c) (sealed_outcome e sid d x)"
  unfolding sealed_outcome_def Let_def by (rule keeps_intros | simp)+

lemma config_seal_outcome [keeps_intros]: "keeps (\<lambda>h. config h = c) (seal_outcome L e sid d)"
  unfolding seal_outcome_def Let_def by (rule keeps_intros | simp)+

lemma config_handle_verified_outcome [keeps_intros]: "keeps (\<lambda>h. config h = c) (handle_verified_outcome L e sid)"
  unfolding handle_verified_outcome_def Let_def by (rule keeps_intros | simp)+

lemma config_handle_outcome_locked [keeps_intros]: "keeps (\<lambda>h. config h = c) (handle_outcome_locked L e x)"
  unfolding handle_outcome_locked_def Let_def by (rule keeps_intros | simp)+

lemma config_record_outcome [keeps_intros]: "keeps (\<lambda>h. config h = c) (record_outcome L e x)"
  unfolding record_outcome_def Let_def by (rule keeps_intros | simp)+

lemma config_handle_outcome [keeps_intros]: "keeps (\<lambda>h. config h = c) (handle_outcome L e x)"
  unfolding handle_outcome_def Let_def by (rule keeps_intros | simp)+

lemma config_open_session [keeps_intros]: "keeps (\<lambda>h. config h = c) (open_session sid)"
  unfolding open_session_def Let_def by (rule keeps_intros | simp)+

lemma config_close_session [keeps_intros]: "keeps (\<lambda>h. config h = c) (close_session sid)"
  unfolding close_session_def Let_def by (rule keeps_intros | simp)+

text \<open>The stored chain is itself a valid log, the record in doubt included.\<close>

lemma stored_log:
  assumes "host_safe stored L base h" "repository (h_seams h) \<noteq> None"
  shows "log_inv L (host_level h) (held stored h)"
proof -
  have inv: "log_inv L (host_level h) (records base h)" "led_count (h_ledger h) = int (length (records base h))"
    "led_tail_hash (h_ledger h) = chain_tail GENESIS_HASH (records base h)"
    using assms(1) by (simp_all add: host_safe_def host_inv_def)
  from assms consider "held stored h = records base h"
    | r where "held stored h = records base h @ [r]" "next_record L (h_ledger h) r" "sealable L base h (rec_event r)"
    by (auto simp: host_safe_def store_ok_def)
  then show ?thesis
  proof cases
    case 2
    then show ?thesis
      using log_inv_snoc [OF inv(1) _ _ 2(2) inv(2,3)] by (simp add: sealable_def)
  qed (simp add: inv)
qed

lemma run_call_config: "config (run_call L c h) = config h"
  by (cases c) (auto simp: run_call_def intro: keepsD [OF config_handle_attempt] keepsD [OF config_handle_outcome]
      keepsD [OF config_open_session] keepsD [OF config_close_session])

lemma config_resume: "keeps (\<lambda>h. config h = c) (resume L rp entries)"
  unfolding resume_def resume_records_def flag_unresolved_def restore_session_def
  by (rule keeps_intros | simp add: note_issued_def issue_def split: json.split)+

lemma config_level: "config h = config h' \<Longrightarrow> host_level h = host_level h'"
  by (simp add: config_def host_level_def)

text \<open>Every reachable host is safe.\<close>

lemma reachable_safe:
  assumes "jcs_total L" "reachable stored L lv base h"
  shows "host_safe stored L base h \<and> host_level h = lv"
  using assms(2)
proof induction
  case (built p cap sm log w h)
  then show ?case
    using exact_safe [OF new_host_safe [OF built(1,3)]] new_host_fields [OF built(1)]
    by (auto simp: host_level_def)
next
  case (call base h c)
  then show ?case
    using run_call_safe [OF assms(1)] config_level [OF run_call_config] by metis
next
  case (restarted base h rp cap sm log h0 entries h')
  have "log_inv L lv (held stored h)"
    using stored_log [of stored L base h] restarted by simp
  then have "wp (resume L rp entries) (\<lambda>_. host_exact stored L (held stored h)) (\<lambda>_ _. True) h0"
    using wp_conseq [OF resume_exact [OF restarted(3,5,6)]] restarted(4) by (simp add: held_def)
  then have "host_exact stored L (held stored h) h'"
    using restarted(7) by (rule wp_Ret)
  moreover have "config h' = config h0"
    using keepsD [OF config_resume [of "config h0" L rp entries], of h0] restarted(7) by simp
  then have "host_level h' = lv"
    using new_host_fields(2) [OF restarted(3)] restarted(4) by (simp add: config_def host_level_def)
  ultimately show ?case by (simp add: exact_safe)
qed

lemma reachable_chain:
  "jcs_total L \<Longrightarrow> reachable stored L lv base h \<Longrightarrow> chain_from L 0 GENESIS_HASH (records base h)"
  by (drule (1) reachable_safe) (simp add: host_safe_def host_inv_def log_inv_def)

end
