(* ===== verification/Verify.thy ===== *)
theory Verify
  imports Ledger
begin

text \<open>
  \<open>src/auditable_mcp/verify.py\<close>: the offline verifier of a sealed chain. The loop of \<open>verify_chain\<close> is
  \<open>check_records\<close>, over the state \<open>vstate\<close>; one definition per check of its body. Records have the
  types the source declares; a correlation key is the tuple \<open>id_of\<close> returns, as a list of JSON values, kept
  in a set that compares as Python does (\<open>py_eq\<close>: \<open>1 == 1.0 == True\<close>) and that raises \<open>TypeError\<close> on an
  unhashable member. A \<open>signature_checker\<close> or \<open>countersignature_checker\<close> is any function.
\<close>

section \<open>Python equality and hashing of JSON values\<close>

fun number_of :: "json \<Rightarrow> pyfloat option" where
  "number_of (JBool b) = Some (PyFin (if b then 1 else 0) 0)"
| "number_of (JInt n) = Some (PyFin n 0)"
| "number_of (JFloat f) = Some f"
| "number_of _ = None"

fun number_eq :: "pyfloat \<Rightarrow> pyfloat \<Rightarrow> bool" where
  "number_eq (PyFin m e) (PyFin n f) = (m * 2 ^ nat (e - min e f) = n * 2 ^ nat (f - min e f))"
| "number_eq (PyInf a) (PyInf b) = (a = b)"
| "number_eq _ _ = False"

fun plain_eq :: "json \<Rightarrow> json \<Rightarrow> bool" where
  "plain_eq JNull JNull = True"
| "plain_eq (JStr s) (JStr t) = (s = t)"
| "plain_eq _ _ = False"

text \<open>\<open>==\<close> of two values of which one at least is a primitive.\<close>

definition py_eq :: "json \<Rightarrow> json \<Rightarrow> bool" where
  "py_eq a b = (case (number_of a, number_of b) of
      (Some x, Some y) \<Rightarrow> number_eq x y
    | (None, None) \<Rightarrow> plain_eq a b
    | _ \<Rightarrow> False)"

fun hashable_value :: "json \<Rightarrow> bool" where
  "hashable_value (JList _) = False"
| "hashable_value (JDict _) = False"
| "hashable_value _ = True"

type_synonym ckey = "json list"

definition key_eq :: "ckey \<Rightarrow> ckey \<Rightarrow> bool" where
  "key_eq a b = list_all2 py_eq a b"

definition key_in :: "ckey \<Rightarrow> ckey list \<Rightarrow> bool" where
  "key_in k ks = list_ex (key_eq k) ks"

section \<open>Options and reports\<close>

record expected_identity =
  ei_log_id :: pystr
  ei_host_key_ids :: "pystr set"

datatype vdetail =
    ExpectedSeq int int
  | NotCanonical canon_error
  | BrokenLink
  | HashDiffers
  | NoMatchingAttempt ckey
  | SealedTwice pystr pystr int
  | PrincipalDiffers json
  | EventSignatureBad
  | Uncountersigned
  | PartialTriple
  | CountersignatureBad pystr
  | NoBinding
  | LogIdDiffers "pystr option"
  | HostKeyDiffers "pystr option"
  | MissingSignerSeq pystr pystr int int
  | AnchorDiffers pystr pystr
  | NotSchema schema_error
  | VersionBackwards pystr pystr

record verify_issue =
  vi_seq :: "int option"
  vi_kind :: code
  vi_detail :: vdetail

record verify_report =
  vr_ok :: bool
  vr_count :: nat
  vr_computed_digest :: pystr
  vr_issues :: "verify_issue list"
  vr_unchecked :: "pystr list"

definition vr_complete :: "verify_report \<Rightarrow> bool" where
  "vr_complete report = (vr_ok report \<and> vr_unchecked report = [])"

definition issue_at :: "int \<Rightarrow> code \<Rightarrow> vdetail \<Rightarrow> verify_issue" where
  "issue_at n k d = \<lparr>vi_seq = Some n, vi_kind = k, vi_detail = d\<rparr>"

record adapter =
  id_of :: "jobj \<Rightarrow> ckey option"
  is_attempt :: "jobj \<Rightarrow> bool"
  event_of :: "jobj \<Rightarrow> json"
  principal_of :: "jobj \<Rightarrow> json"

definition get_or :: "jobj \<Rightarrow> pystr \<Rightarrow> json \<Rightarrow> json" where
  "get_or d k v = (case map_of d k of None \<Rightarrow> v | Some x \<Rightarrow> x)"

definition top_level_id :: "jobj \<Rightarrow> ckey option" where
  "top_level_id event =
     (if dget event ID = JNull then None
      else Some [get_or event SESSION_ID (dget event (ustr ''call_id'')), dget event ID])"

definition top_level_is_attempt :: "jobj \<Rightarrow> bool" where
  "top_level_is_attempt event = outcome_is event ATTEMPTED"

definition default_adapter :: adapter where
  "default_adapter = \<lparr>id_of = top_level_id, is_attempt = top_level_is_attempt, event_of = JDict,
     principal_of = (\<lambda>_. JNull)\<rparr>"

record verify_options =
  vo_adapter :: adapter
  vo_expected_principal :: "json option"
  vo_countersignature_checker :: "(pystr \<Rightarrow> pystr \<Rightarrow> byte list \<Rightarrow> bool) option"
  vo_signature_checker :: "(jobj \<Rightarrow> bool) option"
  vo_expected_identity :: "expected_identity option"
  vo_countersignature_required :: bool

definition default_options :: verify_options where
  "default_options = \<lparr>vo_adapter = default_adapter, vo_expected_principal = None,
     vo_countersignature_checker = None, vo_signature_checker = None, vo_expected_identity = None,
     vo_countersignature_required = False\<rparr>"

section \<open>The accounting of signer numbers\<close>

definition count_of :: "json \<Rightarrow> int option" where
  "count_of v = (case v of
      JInt n \<Rightarrow> if 0 \<le> n \<and> n \<le> MAX_SAFE_INTEGER then Some n else None
    | JFloat f \<Rightarrow> if float_is_integer f \<and> 0 \<le> int_of_float f \<and> int_of_float f \<le> MAX_SAFE_INTEGER
                  then Some (int_of_float f) else None
    | _ \<Rightarrow> None)"

definition numbered :: "jobj \<Rightarrow> (pystr \<times> pystr \<times> int) option" where
  "numbered event = (case (dget event KEY_ID, dget event SESSION_ID, count_of (dget event SIGNER_SEQ)) of
      (JStr k, JStr sid, Some n) \<Rightarrow> Some (k, sid, n) | _ \<Rightarrow> None)"

fun runs_from :: "int \<Rightarrow> int list \<Rightarrow> (int \<times> int) list" where
  "runs_from following [] = []"
| "runs_from following (v # vs) =
     (if v > following then [(following, v - 1)] else []) @ runs_from (v + 1) vs"

definition missing_runs :: "int set \<Rightarrow> (int \<times> int) list" where
  "missing_runs present = runs_from 0 (sorted_list_of_set present)"

text \<open>One refusal takes the smallest missing value below its own.\<close>

definition take_missing :: "int \<Rightarrow> (int \<times> int) list \<Rightarrow> (int \<times> int) list" where
  "take_missing refusal missing = (case missing of
      [] \<Rightarrow> []
    | (first, final) # rest \<Rightarrow>
        if first \<ge> refusal then missing
        else if first + 1 > final then rest else (first + 1, final) # rest)"

definition account :: "int list \<Rightarrow> (int \<times> int) list \<Rightarrow> (int \<times> int) list" where
  "account refusals missing = fold take_missing refusals missing"

definition refusal_reasons :: "code list" where
  "refusal_reasons = [HOST_REJECTED, HOST_UNAVAILABLE]"

type_synonym group = "(int \<times> jobj \<times> bool) list"

record accounting =
  ac_attempts :: "ckey list"
  ac_groups :: "((pystr \<times> pystr) \<times> group) list"

definition group_add :: "pystr \<times> pystr \<Rightarrow> int \<times> jobj \<times> bool \<Rightarrow> ((pystr \<times> pystr) \<times> group) list \<Rightarrow> ((pystr \<times> pystr) \<times> group) list" where
  "group_add k x gs = AList.update k ((case map_of gs k of None \<Rightarrow> [] | Some g \<Rightarrow> g) @ [x]) gs"

definition account_event :: "json \<Rightarrow> accounting \<Rightarrow> exn + accounting" where
  "account_event v acc = (case v of
      JDict event \<Rightarrow>
        let key = [dget event SESSION_ID, dget event ID] in
        if \<not> list_all hashable_value key then Inl TypeError
        else let correlated = key_in key (ac_attempts acc);
                 acc' = (if outcome_is event ATTEMPTED then acc\<lparr>ac_attempts := key # ac_attempts acc\<rparr> else acc)
             in Inr (case numbered event of
                  None \<Rightarrow> acc'
                | Some (k, sid, n) \<Rightarrow> acc'\<lparr>ac_groups := group_add (k, sid) (n, event, correlated) (ac_groups acc')\<rparr>)
    | _ \<Rightarrow> Inr acc)"

fun account_events :: "json list \<Rightarrow> accounting \<Rightarrow> exn + accounting" where
  "account_events [] acc = Inr acc"
| "account_events (v # vs) acc =
     (case account_event v acc of Inl e \<Rightarrow> Inl e | Inr acc' \<Rightarrow> account_events vs acc')"

definition is_refusal :: "int \<times> jobj \<times> bool \<Rightarrow> bool" where
  "is_refusal = (\<lambda>(n, event, correlated). outcome_is event ABORTED \<and>
     dget event REASON \<in> set (map (\<lambda>c. JStr (code_str c)) refusal_reasons) \<and> \<not> correlated)"

text \<open>An aborted event's \<open>reason\<close> is looked up in a frozenset, which hashes it.\<close>

definition reasons_hashable :: "group \<Rightarrow> bool" where
  "reasons_hashable g = list_all (\<lambda>(n, event, correlated). outcome_is event ABORTED \<longrightarrow> hashable_value (dget event REASON)) g"

definition group_unaccounted :: "group \<Rightarrow> (int \<times> int) list" where
  "group_unaccounted g = account (sort (map fst (filter is_refusal g))) (missing_runs (fst ` set g))"

definition unaccounted_signer_seq :: "json list \<Rightarrow> exn + (pystr \<times> pystr \<times> int \<times> int) list" where
  "unaccounted_signer_seq events =
     (case account_events events \<lparr>ac_attempts = [], ac_groups = []\<rparr> of
        Inl e \<Rightarrow> Inl e
      | Inr acc \<Rightarrow>
          if \<not> list_all (\<lambda>(k, g). reasons_hashable g) (ac_groups acc) then Inl TypeError
          else Inr (concat (map (\<lambda>((k, sid), g). map (\<lambda>(a, b). (k, sid, a, b)) (group_unaccounted g)) (ac_groups acc))))"

section \<open>The checks of one record\<close>

text \<open>
  The state of the loop of \<open>verify_chain\<close>; \<open>Linked\<close> is the outcome of recomputing a record's hash: the
  recomputed link, and whether the record could be hashed.
\<close>

record vstate =
  vs_issues :: "verify_issue list"
  vs_attempted :: "ckey list"
  vs_numbered :: "(pystr \<times> pystr \<times> int) set"
  vs_prev :: pystr
  vs_countersignature_unchecked :: bool
  vs_l2_unchecked :: bool

definition initial_vstate :: vstate where
  "initial_vstate = \<lparr>vs_issues = [], vs_attempted = [], vs_numbered = {}, vs_prev = GENESIS_HASH,
     vs_countersignature_unchecked = False, vs_l2_unchecked = False\<rparr>"

definition check_seq :: "nat \<Rightarrow> sealed_record \<Rightarrow> verify_issue list" where
  "check_seq index r =
     (if rec_seqno r \<noteq> int index then [issue_at (rec_seqno r) SEQ_GAP (ExpectedSeq (int index) (rec_seqno r))] else [])"

definition recompute :: "lib \<Rightarrow> pystr \<Rightarrow> sealed_record \<Rightarrow> canon_error + pystr" where
  "recompute L prev r = compute_record_hash L (rec_event r) (rec_seqno r) (rec_host_ts r) prev"

definition hashable_record :: "lib \<Rightarrow> pystr \<Rightarrow> sealed_record \<Rightarrow> bool" where
  "hashable_record L prev r = (case recompute L prev r of Inl _ \<Rightarrow> False | Inr _ \<Rightarrow> True)"

definition next_link :: "lib \<Rightarrow> pystr \<Rightarrow> sealed_record \<Rightarrow> pystr" where
  "next_link L prev r = (case recompute L prev r of Inl _ \<Rightarrow> rec_record_hash r | Inr h \<Rightarrow> h)"

definition check_hash :: "lib \<Rightarrow> pystr \<Rightarrow> sealed_record \<Rightarrow> verify_issue list" where
  "check_hash L prev r = (case recompute L prev r of
      Inl e \<Rightarrow> [issue_at (rec_seqno r) SCHEMA_INVALID (NotCanonical e)]
    | Inr h \<Rightarrow>
        (if rec_previous_hash r \<noteq> prev then [issue_at (rec_seqno r) RECORD_HASH_MISMATCH BrokenLink] else []) @
        (if rec_record_hash r \<noteq> h then [issue_at (rec_seqno r) RECORD_HASH_MISMATCH HashDiffers] else []))"

definition is_aborted :: "json \<Rightarrow> bool" where
  "is_aborted inner = (case inner of JDict d \<Rightarrow> outcome_is d ABORTED | _ \<Rightarrow> False)"

definition check_correlation ::
  "adapter \<Rightarrow> sealed_record \<Rightarrow> ckey list \<Rightarrow> exn + verify_issue list \<times> ckey list" where
  "check_correlation A r attempts =
     (case id_of A (rec_event r) of
        None \<Rightarrow> Inr ([], attempts)
      | Some key \<Rightarrow>
          if \<not> list_all hashable_value key then Inl TypeError
          else if is_attempt A (rec_event r) then Inr ([], key # attempts)
          else if \<not> key_in key attempts \<and> \<not> is_aborted (event_of A (rec_event r))
          then Inr ([issue_at (rec_seqno r) ORPHANED_OUTCOME (NoMatchingAttempt key)], attempts)
          else Inr ([], attempts))"

definition inner_numbered :: "json \<Rightarrow> (pystr \<times> pystr \<times> int) option" where
  "inner_numbered inner = (case inner of JDict d \<Rightarrow> numbered d | _ \<Rightarrow> None)"

definition check_number ::
  "adapter \<Rightarrow> sealed_record \<Rightarrow> (pystr \<times> pystr \<times> int) set \<Rightarrow> verify_issue list \<times> (pystr \<times> pystr \<times> int) set" where
  "check_number A r seen =
     (case inner_numbered (event_of A (rec_event r)) of
        None \<Rightarrow> ([], seen)
      | Some (k, sid, n) \<Rightarrow>
          (if (k, sid, n) \<in> seen then [issue_at (rec_seqno r) REPLAY_DETECTED (SealedTwice k sid n)] else [],
           insert (k, sid, n) seen))"

definition check_principal :: "verify_options \<Rightarrow> sealed_record \<Rightarrow> verify_issue list" where
  "check_principal opts r = (case vo_expected_principal opts of
      None \<Rightarrow> []
    | Some p \<Rightarrow> if \<not> py_eq (principal_of (vo_adapter opts) (rec_event r)) p
                then [issue_at (rec_seqno r) PRINCIPAL_MISMATCH (PrincipalDiffers p)] else [])"

definition signed_event :: "json \<Rightarrow> jobj option" where
  "signed_event inner = (case inner of JDict d \<Rightarrow> if dget d SIGNATURE \<noteq> JNull then Some d else None | _ \<Rightarrow> None)"

text \<open>The event's own signature: the issues, and whether it is left unchecked.\<close>

definition check_signature :: "verify_options \<Rightarrow> bool \<Rightarrow> sealed_record \<Rightarrow> verify_issue list \<times> bool" where
  "check_signature opts hashable r =
     (case (if hashable then signed_event (event_of (vo_adapter opts) (rec_event r)) else None) of
        None \<Rightarrow> ([], False)
      | Some d \<Rightarrow> (case vo_signature_checker opts of
            None \<Rightarrow> ([], True)
          | Some check \<Rightarrow>
              (if outside_canonical_domain (JDict d) \<or> \<not> check d
               then [issue_at (rec_seqno r) SIGNATURE_INVALID EventSignatureBad] else [], False)))"

definition triple_present :: "sealed_record \<Rightarrow> nat" where
  "triple_present r = length (filter (\<lambda>x. x \<noteq> None) [rec_host_signature r, rec_host_key_id r, rec_log_id r])"

definition countersigned_payload :: "lib \<Rightarrow> sealed_record \<Rightarrow> pystr \<Rightarrow> byte list option" where
  "countersigned_payload L r lid =
     (case countersignature_payload L (rec_seqno r) (rec_host_ts r) lid (rec_previous_hash r) (rec_record_hash r) of
        Inl _ \<Rightarrow> None | Inr b \<Rightarrow> Some b)"

definition check_countersignature :: "lib \<Rightarrow> verify_options \<Rightarrow> bool \<Rightarrow> sealed_record \<Rightarrow> verify_issue list \<times> bool" where
  "check_countersignature L opts hashable r =
     (if triple_present r = 0 \<and> vo_countersignature_required opts
      then ([issue_at (rec_seqno r) HOST_SIGNATURE_INVALID Uncountersigned], False)
      else if triple_present r \<noteq> 0 \<and> triple_present r \<noteq> 3
      then ([issue_at (rec_seqno r) HOST_SIGNATURE_INVALID PartialTriple], False)
      else case (hashable, rec_host_signature r, rec_host_key_id r, rec_log_id r) of
        (True, Some sig, Some kid, Some lid) \<Rightarrow>
          (case vo_countersignature_checker opts of
             None \<Rightarrow> ([], True)
           | Some check \<Rightarrow>
               (case countersigned_payload L r lid of
                  Some payload \<Rightarrow> if check kid sig payload then ([], False)
                    else ([issue_at (rec_seqno r) HOST_SIGNATURE_INVALID (CountersignatureBad kid)], False)
                | None \<Rightarrow> ([issue_at (rec_seqno r) HOST_SIGNATURE_INVALID (CountersignatureBad kid)], False)))
      | _ \<Rightarrow> ([], False))"

definition identity_mismatch :: "sealed_record \<Rightarrow> nat \<Rightarrow> expected_identity \<Rightarrow> vdetail option" where
  "identity_mismatch r present expected =
     (if present \<noteq> 3 then Some NoBinding
      else if rec_log_id r \<noteq> Some (ei_log_id expected) then Some (LogIdDiffers (rec_log_id r))
      else if rec_host_key_id r \<notin> Some ` ei_host_key_ids expected then Some (HostKeyDiffers (rec_host_key_id r))
      else None)"

definition check_identity :: "verify_options \<Rightarrow> sealed_record \<Rightarrow> verify_issue list" where
  "check_identity opts r = (case vo_expected_identity opts of
      None \<Rightarrow> []
    | Some expected \<Rightarrow> (case identity_mismatch r (triple_present r) expected of
        None \<Rightarrow> [] | Some d \<Rightarrow> [issue_at (rec_seqno r) PRINCIPAL_MISMATCH d]))"

section \<open>The chain\<close>

definition check_record :: "lib \<Rightarrow> verify_options \<Rightarrow> nat \<Rightarrow> sealed_record \<Rightarrow> vstate \<Rightarrow> exn + vstate" where
  "check_record L opts index r st =
     (case check_correlation (vo_adapter opts) r (vs_attempted st) of
        Inl e \<Rightarrow> Inl e
      | Inr (orphans, attempts) \<Rightarrow>
          let hashable = hashable_record L (vs_prev st) r;
              (replays, seen) = check_number (vo_adapter opts) r (vs_numbered st);
              (bad_signature, l2) = check_signature opts hashable r;
              (bad_countersignature, cs) = check_countersignature L opts hashable r
          in Inr \<lparr>vs_issues = vs_issues st @ check_seq index r @ check_hash L (vs_prev st) r @ orphans @ replays @
                     check_principal opts r @ bad_signature @ bad_countersignature @ check_identity opts r,
                  vs_attempted = attempts, vs_numbered = seen, vs_prev = next_link L (vs_prev st) r,
                  vs_countersignature_unchecked = (vs_countersignature_unchecked st \<or> cs),
                  vs_l2_unchecked = (vs_l2_unchecked st \<or> l2)\<rparr>)"

fun check_records :: "lib \<Rightarrow> verify_options \<Rightarrow> nat \<Rightarrow> sealed_record list \<Rightarrow> vstate \<Rightarrow> exn + vstate" where
  "check_records L opts index [] st = Inr st"
| "check_records L opts index (r # rs) st =
     (case check_record L opts index r st of Inl e \<Rightarrow> Inl e | Inr st' \<Rightarrow> check_records L opts (index + 1) rs st')"

definition gap_issues :: "(pystr \<times> pystr \<times> int \<times> int) list \<Rightarrow> verify_issue list" where
  "gap_issues gaps = map (\<lambda>(k, sid, a, b).
     \<lparr>vi_seq = None, vi_kind = SIGNER_SEQ_GAP, vi_detail = MissingSignerSeq k sid a b\<rparr>) gaps"

definition digest_issues :: "pystr option \<Rightarrow> pystr \<Rightarrow> verify_issue list" where
  "digest_issues anchored computed = (case anchored of
      None \<Rightarrow> []
    | Some a \<Rightarrow> if a \<noteq> computed
        then [\<lparr>vi_seq = None, vi_kind = DIGEST_MISMATCH, vi_detail = AnchorDiffers a computed\<rparr>] else [])"

fun is_primitive :: "json \<Rightarrow> bool" where
  "is_primitive (JStr _) = True"
| "is_primitive (JInt _) = True"
| "is_primitive (JFloat _) = True"
| "is_primitive (JBool _) = True"
| "is_primitive _ = False"

definition verify_chain ::
  "lib \<Rightarrow> verify_options \<Rightarrow> sealed_record list \<Rightarrow> pystr option \<Rightarrow> exn + verify_report" where
  "verify_chain L opts records anchored =
     (if \<exists>p. vo_expected_principal opts = Some p \<and> \<not> is_primitive p then Inl ValueError
      else case check_records L opts 0 records initial_vstate of
        Inl e \<Rightarrow> Inl e
      | Inr st \<Rightarrow>
          (case unaccounted_signer_seq (map (\<lambda>r. event_of (vo_adapter opts) (rec_event r)) records) of
             Inl e \<Rightarrow> Inl e
           | Inr gaps \<Rightarrow>
               let issues = vs_issues st @ gap_issues gaps @ digest_issues anchored (vs_prev st) in
               Inr \<lparr>vr_ok = (length issues = 0), vr_count = length records, vr_computed_digest = vs_prev st,
                    vr_issues = issues,
                    vr_unchecked = (if vs_countersignature_unchecked st then [ustr ''countersignature''] else []) @
                      (if vs_l2_unchecked st then [ustr ''level-2-signature''] else [])\<rparr>))"

section \<open>The ledger\<close>

definition sealed_error :: "lib \<Rightarrow> json \<Rightarrow> schema_error option" where
  "sealed_error L event = (case first_sealed_validation_error L event of
      Some e \<Rightarrow> Some e
    | None \<Rightarrow> if outside_canonical_domain event then Some OutsideDomain else None)"

fun index_in :: "'a list \<Rightarrow> 'a \<Rightarrow> nat option" where
  "index_in [] x = None"
| "index_in (y # ys) x = (if x = y then Some 0 else map_option Suc (index_in ys x))"

definition version_rank :: "pystr \<Rightarrow> nat option" where
  "version_rank v = index_in KNOWN_SPEC_VERSIONS v"

definition version_of :: "json \<Rightarrow> (nat \<times> pystr) option" where
  "version_of inner = (case inner of
      JDict d \<Rightarrow> (case dget d SPEC_VERSION_F of JStr v \<Rightarrow> map_option (\<lambda>n. (n, v)) (version_rank v) | _ \<Rightarrow> None)
    | _ \<Rightarrow> None)"

fun version_regressions_from :: "adapter \<Rightarrow> (nat \<times> pystr) option \<Rightarrow> sealed_record list \<Rightarrow> verify_issue list" where
  "version_regressions_from A latest [] = []"
| "version_regressions_from A latest (r # rs) =
     (case version_of (event_of A (rec_event r)) of
        None \<Rightarrow> version_regressions_from A latest rs
      | Some (n, v) \<Rightarrow> (case latest of
          Some (m, w) \<Rightarrow> if n < m
            then issue_at (rec_seqno r) SCHEMA_INVALID (VersionBackwards v w) # version_regressions_from A latest rs
            else version_regressions_from A (Some (n, v)) rs
        | None \<Rightarrow> version_regressions_from A (Some (n, v)) rs))"

definition version_regressions :: "adapter \<Rightarrow> sealed_record list \<Rightarrow> verify_issue list" where
  "version_regressions A records = version_regressions_from A None records"

definition schema_issues :: "lib \<Rightarrow> adapter \<Rightarrow> sealed_record list \<Rightarrow> verify_issue list \<Rightarrow> verify_issue list" where
  "schema_issues L A records found =
     (let already = map vi_seq (filter (\<lambda>i. vi_kind i = SCHEMA_INVALID) found)
      in concat (map (\<lambda>r. if Some (rec_seqno r) \<in> set already then []
           else case sealed_error L (event_of A (rec_event r)) of
             None \<Rightarrow> [] | Some e \<Rightarrow> [issue_at (rec_seqno r) SCHEMA_INVALID (NotSchema e)]) records))"

definition verify_ledger ::
  "lib \<Rightarrow> verify_options \<Rightarrow> sealed_record list \<Rightarrow> pystr option \<Rightarrow> exn + verify_report" where
  "verify_ledger L opts records anchored =
     (case verify_chain L opts records anchored of
        Inl e \<Rightarrow> Inl e
      | Inr report \<Rightarrow>
          let found = schema_issues L (vo_adapter opts) records (vr_issues report) @
                version_regressions (vo_adapter opts) records
          in if found = [] then Inr report
             else Inr (report\<lparr>vr_ok := False, vr_issues := vr_issues report @ found\<rparr>))"

end
