(* ===== verification/VerifyFacts.thy ===== *)
theory VerifyFacts
  imports Verify
begin

text \<open>
  What the verifier's checks establish. Each fact follows the loop \<open>check_records\<close> by induction, with the
  issues one record adds classified by their kind (\<open>check_kinds\<close>).
\<close>

section \<open>Issues by kind\<close>

definition kinds :: "verify_issue list \<Rightarrow> code set" where
  "kinds new = vi_kind ` set new"

lemma kinds_simps [simp]: "kinds [] = {}" "kinds (i # new) = insert (vi_kind i) (kinds new)"
  "kinds (xs @ ys) = kinds xs \<union> kinds ys"
  by (auto simp: kinds_def)

lemma kind_issue_at [simp]: "vi_kind (issue_at n k d) = k"
  by (simp add: issue_at_def)

lemma check_kinds:
  "kinds (check_seq n r) \<subseteq> {SEQ_GAP}"
  "kinds (check_hash L prev r) \<subseteq> {RECORD_HASH_MISMATCH, SCHEMA_INVALID}"
  "check_correlation A r ks = Inr (new, ks') \<Longrightarrow> kinds new \<subseteq> {ORPHANED_OUTCOME}"
  "kinds (fst (check_number A r seen)) \<subseteq> {REPLAY_DETECTED}"
  "kinds (check_principal opts r) \<subseteq> {PRINCIPAL_MISMATCH}"
  "kinds (fst (check_signature opts b r)) \<subseteq> {SIGNATURE_INVALID}"
  "kinds (fst (check_countersignature L opts b r)) \<subseteq> {HOST_SIGNATURE_INVALID}"
  "kinds (check_identity opts r) \<subseteq> {PRINCIPAL_MISMATCH}"
proof -
  show "kinds (check_seq n r) \<subseteq> {SEQ_GAP}" by (simp add: check_seq_def)
  show "kinds (check_hash L prev r) \<subseteq> {RECORD_HASH_MISMATCH, SCHEMA_INVALID}"
    by (simp add: check_hash_def split: sum.split)
  show "check_correlation A r ks = Inr (new, ks') \<Longrightarrow> kinds new \<subseteq> {ORPHANED_OUTCOME}"
    by (auto simp: check_correlation_def split: option.splits if_splits)
  show "kinds (fst (check_number A r seen)) \<subseteq> {REPLAY_DETECTED}"
    by (simp add: check_number_def split: option.split)
  show "kinds (check_principal opts r) \<subseteq> {PRINCIPAL_MISMATCH}"
    by (simp add: check_principal_def split: option.split)
  show "kinds (fst (check_signature opts b r)) \<subseteq> {SIGNATURE_INVALID}"
    by (simp add: check_signature_def split: option.split)
  show "kinds (fst (check_countersignature L opts b r)) \<subseteq> {HOST_SIGNATURE_INVALID}"
    by (simp add: check_countersignature_def split: option.split bool.split)
  show "kinds (check_identity opts r) \<subseteq> {PRINCIPAL_MISMATCH}"
    by (simp add: check_identity_def split: option.split)
qed

lemma kinds_gap: "kinds (gap_issues gs) \<subseteq> {SIGNER_SEQ_GAP}"
  by (auto simp: kinds_def gap_issues_def)

lemma kinds_digest: "kinds (digest_issues a c) \<subseteq> {DIGEST_MISMATCH}"
  by (auto simp: kinds_def digest_issues_def split: option.split)

text \<open>One step of the loop, by its parts.\<close>

definition other_issues :: "lib \<Rightarrow> verify_options \<Rightarrow> bool \<Rightarrow> sealed_record \<Rightarrow> verify_issue list" where
  "other_issues L opts b r = check_principal opts r @ fst (check_signature opts b r) @
     fst (check_countersignature L opts b r) @ check_identity opts r"

lemma check_record_Inr:
  assumes "check_record L opts n r st = Inr st'"
  obtains orphans where
    "check_correlation (vo_adapter opts) r (vs_attempted st) = Inr (orphans, vs_attempted st')"
    "vs_issues st' = vs_issues st @ check_seq n r @ check_hash L (vs_prev st) r @ orphans @
       fst (check_number (vo_adapter opts) r (vs_numbered st)) @
       other_issues L opts (hashable_record L (vs_prev st) r) r"
    "vs_numbered st' = snd (check_number (vo_adapter opts) r (vs_numbered st))"
    "vs_prev st' = next_link L (vs_prev st) r"
  using assms
  by (auto simp: check_record_def other_issues_def Let_def split: sum.splits prod.splits)

lemma check_records_Cons:
  assumes "check_records L opts n (r # rs) st = Inr st'"
  obtains st1 where "check_record L opts n r st = Inr st1" "check_records L opts (n + 1) rs st1 = Inr st'"
  using assms by (auto split: sum.splits)

lemma kinds_other: "kinds (other_issues L opts b r) \<subseteq> {PRINCIPAL_MISMATCH, SIGNATURE_INVALID, HOST_SIGNATURE_INVALID}"
  using check_kinds(5) [where opts = opts and r = r] check_kinds(6) [where opts = opts and b = b and r = r]
    check_kinds(7) [where L = L and opts = opts and b = b and r = r] check_kinds(8) [where opts = opts and r = r]
  unfolding other_issues_def kinds_simps by blast

section \<open>Chain integrity\<close>

definition chain_kinds :: "code set" where
  "chain_kinds = {SEQ_GAP, RECORD_HASH_MISMATCH, SCHEMA_INVALID}"

lemma check_link:
  "kinds (check_seq n r @ check_hash L prev r) \<inter> chain_kinds = {} \<longleftrightarrow>
     rec_seqno r = int n \<and> rec_previous_hash r = prev \<and>
     compute_record_hash L (rec_event r) (rec_seqno r) (rec_host_ts r) prev = Inr (rec_record_hash r)"
  by (auto simp: check_seq_def check_hash_def recompute_def chain_kinds_def split: sum.splits)

lemma check_records_chain:
  assumes "check_records L opts n rs st = Inr st'"
  shows "\<exists>new. vs_issues st' = vs_issues st @ new \<and>
    (kinds new \<inter> chain_kinds = {} \<longleftrightarrow> chain_from L (int n) (vs_prev st) rs) \<and>
    (chain_from L (int n) (vs_prev st) rs \<longrightarrow> vs_prev st' = chain_tail (vs_prev st) rs)"
  using assms
proof (induction rs arbitrary: n st)
  case Nil
  then show ?case by simp
next
  case (Cons r rs)
  obtain st1 where st1: "check_record L opts n r st = Inr st1" "check_records L opts (n + 1) rs st1 = Inr st'"
    using Cons.prems by (rule check_records_Cons)
  obtain orphans where o: "check_correlation (vo_adapter opts) r (vs_attempted st) = Inr (orphans, vs_attempted st1)"
      "vs_issues st1 = vs_issues st @ check_seq n r @ check_hash L (vs_prev st) r @ orphans @
       fst (check_number (vo_adapter opts) r (vs_numbered st)) @ other_issues L opts (hashable_record L (vs_prev st) r) r"
      "vs_prev st1 = next_link L (vs_prev st) r"
    using st1(1) by (rule check_record_Inr)
  obtain new where new: "vs_issues st' = vs_issues st1 @ new"
    "kinds new \<inter> chain_kinds = {} \<longleftrightarrow> chain_from L (int (n + 1)) (vs_prev st1) rs"
    "chain_from L (int (n + 1)) (vs_prev st1) rs \<longrightarrow> vs_prev st' = chain_tail (vs_prev st1) rs"
    using Cons.IH [OF st1(2)] by blast
  let ?link = "check_seq n r @ check_hash L (vs_prev st) r"
  let ?rest = "orphans @ fst (check_number (vo_adapter opts) r (vs_numbered st)) @
    other_issues L opts (hashable_record L (vs_prev st) r) r"
  have rest: "kinds ?rest \<inter> chain_kinds = {}"
    using check_kinds(3) [OF o(1)] check_kinds(4) [where A = "vo_adapter opts" and r = r and seen = "vs_numbered st"]
      kinds_other [of L opts "hashable_record L (vs_prev st) r" r]
    by (auto simp: chain_kinds_def)
  have link: "kinds ?link \<inter> chain_kinds = {} \<Longrightarrow> vs_prev st1 = rec_record_hash r"
    unfolding check_link o(3) by (auto simp: next_link_def recompute_def split: sum.split)
  have "kinds (?link @ ?rest @ new) \<inter> chain_kinds = {} \<longleftrightarrow> chain_from L (int n) (vs_prev st) (r # rs)"
  proof
    assume k: "kinds (?link @ ?rest @ new) \<inter> chain_kinds = {}"
    then have "kinds ?link \<inter> chain_kinds = {}" "kinds new \<inter> chain_kinds = {}" by auto
    with link new(2) show "chain_from L (int n) (vs_prev st) (r # rs)"
      unfolding check_link by (auto simp: add.commute)
  next
    assume c: "chain_from L (int n) (vs_prev st) (r # rs)"
    then have l: "kinds ?link \<inter> chain_kinds = {}" unfolding check_link by simp
    with c link new(2) have "kinds new \<inter> chain_kinds = {}" by (auto simp: add.commute)
    with l rest show "kinds (?link @ ?rest @ new) \<inter> chain_kinds = {}" by auto
  qed
  moreover have "chain_from L (int n) (vs_prev st) (r # rs) \<longrightarrow> vs_prev st' = chain_tail (vs_prev st) (r # rs)"
  proof
    assume c: "chain_from L (int n) (vs_prev st) (r # rs)"
    then have "kinds ?link \<inter> chain_kinds = {}" unfolding check_link by simp
    with c link new(3) show "vs_prev st' = chain_tail (vs_prev st) (r # rs)" by (auto simp: add.commute)
  qed
  moreover have "vs_issues st' = vs_issues st @ (?link @ ?rest @ new)" using new(1) o(2) by simp
  ultimately show ?case by blast
qed

lemma verify_chain_Inr:
  assumes "verify_chain L opts rs anchored = Inr report"
  obtains st gaps where "check_records L opts 0 rs initial_vstate = Inr st"
    "unaccounted_signer_seq (map (\<lambda>r. event_of (vo_adapter opts) (rec_event r)) rs) = Inr gaps"
    "vr_issues report = vs_issues st @ gap_issues gaps @ digest_issues anchored (vs_prev st)"
    "vr_computed_digest report = vs_prev st" "vr_ok report = (vr_issues report = [])" "vr_count report = length rs"
  using assms by (auto simp: verify_chain_def Let_def split: if_splits sum.splits)

lemma initial_simps [simp]: "vs_issues initial_vstate = []" "vs_prev initial_vstate = GENESIS_HASH"
  "vs_attempted initial_vstate = []" "vs_numbered initial_vstate = {}"
  by (simp_all add: initial_vstate_def)

lemma verify_chain_iff:
  assumes "verify_chain L opts rs anchored = Inr report"
  shows "kinds (vr_issues report) \<inter> chain_kinds = {} \<longleftrightarrow> chain_from L 0 GENESIS_HASH rs"
    "chain_from L 0 GENESIS_HASH rs \<Longrightarrow> vr_computed_digest report = chain_tail GENESIS_HASH rs"
    "DIGEST_MISMATCH \<notin> kinds (vr_issues report) \<Longrightarrow> anchored = Some a \<Longrightarrow> vr_computed_digest report = a"
proof -
  obtain st gaps where v: "check_records L opts 0 rs initial_vstate = Inr st"
    "vr_issues report = vs_issues st @ gap_issues gaps @ digest_issues anchored (vs_prev st)"
    "vr_computed_digest report = vs_prev st"
    using assms by (rule verify_chain_Inr)
  have g: "kinds (gap_issues gaps @ digest_issues anchored (vs_prev st)) \<inter> chain_kinds = {}"
    using kinds_gap [of gaps] kinds_digest [of anchored "vs_prev st"] by (auto simp: chain_kinds_def)
  show "kinds (vr_issues report) \<inter> chain_kinds = {} \<longleftrightarrow> chain_from L 0 GENESIS_HASH rs"
    using check_records_chain [OF v(1)] g v(2) by (auto simp: Int_Un_distrib2)
  show "chain_from L 0 GENESIS_HASH rs \<Longrightarrow> vr_computed_digest report = chain_tail GENESIS_HASH rs"
    using check_records_chain [OF v(1)] v(3) by auto
  show "DIGEST_MISMATCH \<notin> kinds (vr_issues report) \<Longrightarrow> anchored = Some a \<Longrightarrow> vr_computed_digest report = a"
    using v(2,3) by (auto simp: digest_issues_def split: if_splits)
qed

section \<open>Replays and orphans\<close>

definition record_numbers :: "adapter \<Rightarrow> sealed_record list \<Rightarrow> (pystr \<times> pystr \<times> int) list" where
  "record_numbers A rs = List.map_filter (\<lambda>r. inner_numbered (event_of A (rec_event r))) rs"

lemma record_numbers_Cons [simp]:
  "record_numbers A [] = []"
  "record_numbers A (r # rs) = (case inner_numbered (event_of A (rec_event r)) of
     None \<Rightarrow> record_numbers A rs | Some x \<Rightarrow> x # record_numbers A rs)"
  by (auto simp: record_numbers_def map_filter_simps split: option.split)

lemma link_kinds: "REPLAY_DETECTED \<notin> kinds (check_seq n r @ check_hash L prev r)"
  "ORPHANED_OUTCOME \<notin> kinds (check_seq n r @ check_hash L prev r)"
  "PRINCIPAL_MISMATCH \<notin> kinds (check_seq n r @ check_hash L prev r)"
  by (auto simp: check_seq_def check_hash_def split: sum.split)

lemma check_number_replay: "REPLAY_DETECTED \<in> kinds (fst (check_number A r seen)) \<longleftrightarrow>
    (\<exists>x\<in>seen. inner_numbered (event_of A (rec_event r)) = Some x)"
  by (auto simp: check_number_def split: option.split)

lemma check_number_seen: "snd (check_number A r seen) = seen \<union> set (record_numbers A [r])"
  by (auto simp: check_number_def split: option.split)

lemma check_records_replay:
  assumes "check_records L opts n rs st = Inr st'"
  shows "\<exists>new. vs_issues st' = vs_issues st @ new \<and>
    (REPLAY_DETECTED \<in> kinds new \<longleftrightarrow>
       \<not> (distinct (record_numbers (vo_adapter opts) rs) \<and> vs_numbered st \<inter> set (record_numbers (vo_adapter opts) rs) = {}))"
  using assms
proof (induction rs arbitrary: n st)
  case (Cons r rs)
  let ?A = "vo_adapter opts"
  obtain st1 where st1: "check_record L opts n r st = Inr st1" "check_records L opts (n + 1) rs st1 = Inr st'"
    using Cons.prems by (rule check_records_Cons)
  obtain orphans where o: "check_correlation ?A r (vs_attempted st) = Inr (orphans, vs_attempted st1)"
      "vs_issues st1 = vs_issues st @ check_seq n r @ check_hash L (vs_prev st) r @ orphans @
       fst (check_number ?A r (vs_numbered st)) @ other_issues L opts (hashable_record L (vs_prev st) r) r"
      "vs_numbered st1 = snd (check_number ?A r (vs_numbered st))"
    using st1(1) by (rule check_record_Inr)
  obtain new where new: "vs_issues st' = vs_issues st1 @ new"
    "REPLAY_DETECTED \<in> kinds new \<longleftrightarrow>
       \<not> (distinct (record_numbers ?A rs) \<and> vs_numbered st1 \<inter> set (record_numbers ?A rs) = {})"
    using Cons.IH [OF st1(2)] by blast
  let ?here = "check_seq n r @ check_hash L (vs_prev st) r @ orphans @
       fst (check_number ?A r (vs_numbered st)) @ other_issues L opts (hashable_record L (vs_prev st) r) r"
  have "REPLAY_DETECTED \<in> kinds ?here \<longleftrightarrow> (\<exists>x\<in>vs_numbered st. inner_numbered (event_of ?A (rec_event r)) = Some x)"
    using link_kinds(1) [of n r L "vs_prev st"] check_kinds(3) [OF o(1)] check_number_replay [of ?A r "vs_numbered st"]
      kinds_other [of L opts "hashable_record L (vs_prev st) r" r]
    by auto
  then have "REPLAY_DETECTED \<in> kinds (?here @ new) \<longleftrightarrow>
       \<not> (distinct (record_numbers ?A (r # rs)) \<and> vs_numbered st \<inter> set (record_numbers ?A (r # rs)) = {})"
    using new(2) o(3) check_number_seen [of ?A r "vs_numbered st"] by (auto split: option.splits)
  moreover have "vs_issues st' = vs_issues st @ (?here @ new)" using new(1) o(2) by simp
  ultimately show ?case by blast
qed simp

lemma verify_chain_replay:
  assumes "verify_chain L opts rs anchored = Inr report"
  shows "REPLAY_DETECTED \<in> kinds (vr_issues report) \<longleftrightarrow> \<not> distinct (record_numbers (vo_adapter opts) rs)"
proof -
  obtain st gaps where v: "check_records L opts 0 rs initial_vstate = Inr st"
    "vr_issues report = vs_issues st @ gap_issues gaps @ digest_issues anchored (vs_prev st)"
    using assms by (rule verify_chain_Inr)
  then show ?thesis
    using check_records_replay [OF v(1)] kinds_gap [of gaps] kinds_digest [of anchored "vs_prev st"] by auto
qed

text \<open>An orphan: a terminal outcome, not aborted, with no attempt of its key before it.\<close>

fun orphan_in :: "adapter \<Rightarrow> ckey list \<Rightarrow> sealed_record list \<Rightarrow> bool" where
  "orphan_in A ks [] = False"
| "orphan_in A ks (r # rs) = (case id_of A (rec_event r) of
     None \<Rightarrow> orphan_in A ks rs
   | Some k \<Rightarrow> if is_attempt A (rec_event r) then orphan_in A (k # ks) rs
       else (\<not> key_in k ks \<and> \<not> is_aborted (event_of A (rec_event r))) \<or> orphan_in A ks rs)"

lemma check_records_orphan:
  assumes "check_records L opts n rs st = Inr st'"
  shows "\<exists>new. vs_issues st' = vs_issues st @ new \<and>
    (ORPHANED_OUTCOME \<in> kinds new \<longleftrightarrow> orphan_in (vo_adapter opts) (vs_attempted st) rs)"
  using assms
proof (induction rs arbitrary: n st)
  case (Cons r rs)
  let ?A = "vo_adapter opts"
  obtain st1 where st1: "check_record L opts n r st = Inr st1" "check_records L opts (n + 1) rs st1 = Inr st'"
    using Cons.prems by (rule check_records_Cons)
  obtain orphans where o: "check_correlation ?A r (vs_attempted st) = Inr (orphans, vs_attempted st1)"
      "vs_issues st1 = vs_issues st @ check_seq n r @ check_hash L (vs_prev st) r @ orphans @
       fst (check_number ?A r (vs_numbered st)) @ other_issues L opts (hashable_record L (vs_prev st) r) r"
    using st1(1) by (rule check_record_Inr)
  obtain new where new: "vs_issues st' = vs_issues st1 @ new"
    "ORPHANED_OUTCOME \<in> kinds new \<longleftrightarrow> orphan_in ?A (vs_attempted st1) rs"
    using Cons.IH [OF st1(2)] by blast
  let ?here = "check_seq n r @ check_hash L (vs_prev st) r @ orphans @
       fst (check_number ?A r (vs_numbered st)) @ other_issues L opts (hashable_record L (vs_prev st) r) r"
  have "ORPHANED_OUTCOME \<in> kinds ?here \<longleftrightarrow> orphans \<noteq> []"
    using link_kinds(2) [of n r L "vs_prev st"] check_kinds(3) [OF o(1)]
      check_kinds(4) [where A = ?A and r = r and seen = "vs_numbered st"]
      kinds_other [of L opts "hashable_record L (vs_prev st) r" r]
    by (cases orphans) auto
  then have "ORPHANED_OUTCOME \<in> kinds (?here @ new) \<longleftrightarrow> orphan_in ?A (vs_attempted st) (r # rs)"
    using new(2) o(1) by (auto simp: check_correlation_def split: option.splits if_splits)
  moreover have "vs_issues st' = vs_issues st @ (?here @ new)" using new(1) o(2) by simp
  ultimately show ?case by blast
qed simp

lemma verify_chain_orphan:
  assumes "verify_chain L opts rs anchored = Inr report"
  shows "ORPHANED_OUTCOME \<in> kinds (vr_issues report) \<longleftrightarrow> orphan_in (vo_adapter opts) [] rs"
proof -
  obtain st gaps where v: "check_records L opts 0 rs initial_vstate = Inr st"
    "vr_issues report = vs_issues st @ gap_issues gaps @ digest_issues anchored (vs_prev st)"
    using assms by (rule verify_chain_Inr)
  then show ?thesis
    using check_records_orphan [OF v(1)] kinds_gap [of gaps] kinds_digest [of anchored "vs_prev st"] by auto
qed

section \<open>Missing signer numbers\<close>

definition values_of :: "(int \<times> int) list \<Rightarrow> int set" where
  "values_of runs = (\<Union>(a, b)\<in>set runs. {a..b})"

lemma values_of_simps [simp]: "values_of [] = {}" "values_of ((a, b) # rs) = {a..b} \<union> values_of rs"
  "values_of (xs @ ys) = values_of xs \<union> values_of ys"
  by (auto simp: values_of_def)

text \<open>Runs are non-empty, ascending and maximal: no two of them touch.\<close>

fun runs_ok :: "int \<Rightarrow> (int \<times> int) list \<Rightarrow> bool" where
  "runs_ok low [] = True"
| "runs_ok low ((a, b) # rs) = (low \<le> a \<and> a \<le> b \<and> runs_ok (b + 2) rs)"

lemma runs_ok_mono: "runs_ok low rs \<Longrightarrow> low' \<le> low \<Longrightarrow> runs_ok low' rs"
  by (cases rs) auto

lemma runs_ok_below: "runs_ok low rs \<Longrightarrow> x \<in> values_of rs \<Longrightarrow> low \<le> x"
  by (induction low rs rule: runs_ok.induct) fastforce+

lemma sorted_above: "sorted (v # vs) \<Longrightarrow> distinct (v # vs) \<Longrightarrow> \<forall>u\<in>set vs. v + 1 \<le> (u::int)"
  by (auto simp: add1_zle_eq order.strict_iff_order)

lemma sorted_last: "sorted vs \<Longrightarrow> x \<in> set vs \<Longrightarrow> x \<le> last vs"
  by (induction vs) auto

lemma runs_from_ok:
  "sorted vs \<Longrightarrow> distinct vs \<Longrightarrow> \<forall>v\<in>set vs. f \<le> v \<Longrightarrow> runs_ok f (runs_from f vs)"
proof (induction f vs rule: runs_from.induct)
  case (2 f v vs)
  then have ok: "runs_ok (v + 1) (runs_from (v + 1) vs)" using sorted_above [OF 2(2,3)] by simp
  then show ?case using 2(4) by (auto intro: runs_ok_mono)
qed simp

lemma runs_from_values:
  "sorted vs \<Longrightarrow> distinct vs \<Longrightarrow> \<forall>v\<in>set vs. f \<le> v \<Longrightarrow> vs \<noteq> [] \<Longrightarrow>
     values_of (runs_from f vs) = {f..last vs} - set vs"
proof (induction f vs rule: runs_from.induct)
  case (2 f v vs)
  then have above: "\<forall>u\<in>set vs. v + 1 \<le> u" using sorted_above by blast
  show ?case
  proof (cases "vs = []")
    case True
    then show ?thesis using 2(4) by auto
  next
    case False
    with 2 above have ih: "values_of (runs_from (v + 1) vs) = {v + 1..last vs} - set vs" by simp
    have "v < last vs" using above last_in_set [OF False] by fastforce
    with False ih above 2(4) show ?thesis by (auto simp: not_less)
  qed
qed simp

lemma missing_runs_values:
  assumes "finite present" "present \<noteq> {}" "\<forall>v\<in>present. 0 \<le> v"
  shows "values_of (missing_runs present) = {0..Max present} - present"
    "runs_ok 0 (missing_runs present)"
proof -
  let ?vs = "sorted_list_of_set present"
  have vs: "sorted ?vs" "distinct ?vs" "set ?vs = present" "?vs \<noteq> []" using assms by auto
  then have "last ?vs \<in> present" "\<forall>x\<in>present. x \<le> last ?vs"
    using last_in_set [of ?vs] sorted_last [of ?vs] by auto
  then have "last ?vs = Max present"
    using assms(1) by (auto intro!: Max_eqI [symmetric])
  with vs assms(3) show "values_of (missing_runs present) = {0..Max present} - present"
    unfolding missing_runs_def by (simp add: runs_from_values)
  show "runs_ok 0 (missing_runs present)"
    unfolding missing_runs_def using vs assms(3) by (simp add: runs_from_ok)
qed

text \<open>The reference accounting, on the set of missing values: the smallest below the refusal is taken.\<close>

definition take_smallest :: "int \<Rightarrow> int set \<Rightarrow> int set" where
  "take_smallest refusal missing =
     (if \<exists>m\<in>missing. m < refusal then missing - {Min missing} else missing)"

lemma take_missing_ok: "runs_ok low rs \<Longrightarrow> runs_ok low (take_missing n rs)"
  by (cases rs) (auto simp: take_missing_def elim!: runs_ok_mono)

lemma values_finite: "finite (values_of rs)"
  by (auto simp: values_of_def)

lemma take_missing_values:
  assumes "runs_ok low rs"
  shows "values_of (take_missing n rs) = take_smallest n (values_of rs)"
proof (cases rs)
  case Nil
  then show ?thesis by (simp add: take_missing_def take_smallest_def)
next
  case (Cons run rest)
  obtain a b where ab: "run = (a, b)" by (cases run)
  with assms Cons have ok: "a \<le> b" "runs_ok (b + 2) rest" by auto
  have above: "b + 2 \<le> x" if "x \<in> values_of rest" for x using runs_ok_below [OF ok(2) that] .
  have min: "Min (values_of rs) = a"
    by (rule Min_eqI) (use Cons ab ok above in \<open>fastforce simp: values_finite\<close>)+
  show ?thesis
  proof (cases "a \<ge> n")
    case True
    then have "\<not> (\<exists>m\<in>values_of rs. m < n)" using Cons ab above ok by fastforce
    then show ?thesis using True Cons ab by (simp add: take_missing_def take_smallest_def)
  next
    case False
    then have "\<exists>m\<in>values_of rs. m < n" using Cons ab ok by (auto intro!: bexI [of _ a])
    then have "take_smallest n (values_of rs) = values_of rs - {a}" by (simp add: take_smallest_def min)
    also have "\<dots> = values_of (take_missing n rs)"
      using False Cons ab ok above by (auto simp: take_missing_def dest: above)
    finally show ?thesis by simp
  qed
qed

lemma account_values:
  "runs_ok low rs \<Longrightarrow> values_of (account ns rs) = fold take_smallest ns (values_of rs) \<and> runs_ok low (account ns rs)"
  by (induction ns arbitrary: rs) (simp_all add: account_def take_missing_ok take_missing_values)

section \<open>When the verifier raises\<close>

definition hash_safe :: "adapter \<Rightarrow> sealed_record \<Rightarrow> bool" where
  "hash_safe A r \<longleftrightarrow> (\<forall>k. id_of A (rec_event r) = Some k \<longrightarrow> list_all hashable_value k) \<and>
     (\<forall>d. event_of A (rec_event r) = JDict d \<longrightarrow>
        hashable_value (dget d SESSION_ID) \<and> hashable_value (dget d ID) \<and>
        (outcome_is d ABORTED \<longrightarrow> hashable_value (dget d REASON)))"

lemma check_record_returns: "hash_safe A r \<Longrightarrow> A = vo_adapter opts \<Longrightarrow> \<exists>st'. check_record L opts n r st = Inr st'"
  by (auto simp: check_record_def check_correlation_def hash_safe_def Let_def split: prod.split option.split)

lemma check_records_returns:
  "\<forall>r\<in>set rs. hash_safe (vo_adapter opts) r \<Longrightarrow> \<exists>st'. check_records L opts n rs st = Inr st'"
proof (induction rs arbitrary: n st)
  case (Cons r rs)
  then obtain st1 where "check_record L opts n r st = Inr st1"
    using check_record_returns by (metis list.set_intros(1))
  with Cons show ?case by simp
qed simp

lemma group_add_all:
  "list_all (\<lambda>(k, g). reasons_hashable g) gs \<Longrightarrow> reasons_hashable [x] \<Longrightarrow>
     list_all (\<lambda>(k, g). reasons_hashable g) (group_add k x gs)"
proof -
  assume gs: "list_all (\<lambda>(k, g). reasons_hashable g) gs" and x: "reasons_hashable [x]"
  have g: "reasons_hashable ((case map_of gs k of None \<Rightarrow> [] | Some g \<Rightarrow> g) @ [x])"
  proof (cases "map_of gs k")
    case (Some g)
    then have "reasons_hashable g" using gs map_of_SomeD by (fastforce simp: list_all_iff)
    with Some x show ?thesis by (simp add: reasons_hashable_def)
  qed (simp add: x)
  have "list_all (\<lambda>(k, g). reasons_hashable g) (AList.update k y gs)"
    if "reasons_hashable y" for y
    using gs that by (induction gs) auto
  with g show ?thesis by (simp add: group_add_def)
qed

lemma account_events_returns:
  assumes "\<forall>v\<in>set vs. \<forall>d. v = JDict d \<longrightarrow> hashable_value (dget d SESSION_ID) \<and> hashable_value (dget d ID) \<and>
      (outcome_is d ABORTED \<longrightarrow> hashable_value (dget d REASON))"
    and "list_all (\<lambda>(k, g). reasons_hashable g) (ac_groups acc)"
  shows "\<exists>acc'. account_events vs acc = Inr acc' \<and> list_all (\<lambda>(k, g). reasons_hashable g) (ac_groups acc')"
  using assms
proof (induction vs arbitrary: acc)
  case (Cons v vs)
  have "\<exists>acc1. account_event v acc = Inr acc1 \<and> list_all (\<lambda>(k, g). reasons_hashable g) (ac_groups acc1)"
  proof (cases "\<exists>d. v = JDict d")
    case True
    then show ?thesis
      using Cons.prems by (auto simp: account_event_def Let_def reasons_hashable_def [of "[_]"]
          intro!: group_add_all split: option.split)
  next
    case False
    then show ?thesis using Cons.prems by (cases v) (simp_all add: account_event_def)
  qed
  then show ?case using Cons by fastforce
qed simp

lemma verify_chain_returns:
  assumes "\<forall>r\<in>set rs. hash_safe (vo_adapter opts) r" "\<forall>p. vo_expected_principal opts = Some p \<longrightarrow> is_primitive p"
  shows "\<exists>report. verify_chain L opts rs anchored = Inr report"
proof -
  obtain st where st: "check_records L opts 0 rs initial_vstate = Inr st"
    using check_records_returns [OF assms(1)] by blast
  let ?events = "map (\<lambda>r. event_of (vo_adapter opts) (rec_event r)) rs"
  obtain acc where acc: "account_events ?events \<lparr>ac_attempts = [], ac_groups = []\<rparr> = Inr acc"
    "list_all (\<lambda>(k, g). reasons_hashable g) (ac_groups acc)"
    using account_events_returns [of ?events "\<lparr>ac_attempts = [], ac_groups = []\<rparr>"] assms(1)
    by (auto simp: hash_safe_def)
  show ?thesis
    using st acc assms(2) by (auto simp: verify_chain_def unaccounted_signer_seq_def Let_def)
qed

section \<open>Two chains with one digest\<close>

definition record_text :: "lib \<Rightarrow> sealed_record \<Rightarrow> canon_error + pystr" where
  "record_text L r = canonicalize L (record_preimage (rec_event r) (rec_seqno r) (rec_host_ts r) (rec_previous_hash r))"

definition same_sealed :: "lib \<Rightarrow> sealed_record \<Rightarrow> sealed_record \<Rightarrow> bool" where
  "same_sealed L r r' \<longleftrightarrow> canonicalize L (JDict (rec_event r)) = canonicalize L (JDict (rec_event r')) \<and>
     rec_seqno r = rec_seqno r' \<and> rec_host_ts r = rec_host_ts r' \<and>
     rec_previous_hash r = rec_previous_hash r' \<and> rec_record_hash r = rec_record_hash r'"

text \<open>The three ways the outside functions could fail the chain, each an explicit exhibit.\<close>

definition collision :: "lib \<Rightarrow> bool" where
  "collision L \<longleftrightarrow> (\<exists>a b. a \<noteq> b \<and> sha256 L a = sha256 L b)"

definition genesis_preimage :: "lib \<Rightarrow> bool" where
  "genesis_preimage L \<longleftrightarrow> (\<exists>a. hexlify (sha256 L a) = GENESIS_HASH)"

definition ambiguous_text :: "lib \<Rightarrow> bool" where
  "ambiguous_text L \<longleftrightarrow> (\<exists>e n t p e' n' t' p' s.
     canonicalize L (record_preimage e n t p) = Inr s \<and> canonicalize L (record_preimage e' n' t' p') = Inr s \<and>
     \<not> (canonicalize L (JDict e) = canonicalize L (JDict e') \<and> n = n' \<and> t = t' \<and> p = p'))"

definition broken_lib :: "lib \<Rightarrow> bool" where
  "broken_lib L \<longleftrightarrow> collision L \<or> genesis_preimage L \<or> ambiguous_text L"

lemma sha_text_inj:
  "sha256_hex L s = sha256_hex L t \<Longrightarrow> scalars s \<Longrightarrow> scalars t \<Longrightarrow> s = t \<or> collision L"
  unfolding sha256_hex_def collision_def by (metis hexlify_inj utf8_inj)

lemma chain_last:
  "chain_from L n h (rs @ [r]) \<Longrightarrow> \<exists>s. record_text L r = Inr s \<and> rec_record_hash r = sha256_hex L s \<and>
     rec_previous_hash r = chain_tail h rs \<and> scalars s"
  by (auto simp: chain_from_append record_text_def compute_record_hash_Inr intro: canonicalize_scalars)

lemma chains_with_one_digest:
  assumes "chain_from L 0 GENESIS_HASH rs" "chain_from L 0 GENESIS_HASH rs'"
    "chain_tail GENESIS_HASH rs = chain_tail GENESIS_HASH rs'"
  shows "list_all2 (same_sealed L) rs rs' \<or> broken_lib L"
  using assms
proof (induction rs arbitrary: rs' rule: rev_induct)
  case Nil
  show ?case
  proof (cases rs' rule: rev_cases)
    case (snoc ys r)
    with Nil have "chain_from L 0 GENESIS_HASH (ys @ [r])" "rec_record_hash r = GENESIS_HASH" by simp_all
    with chain_last have "genesis_preimage L" unfolding genesis_preimage_def sha256_hex_def by metis
    then show ?thesis by (simp add: broken_lib_def)
  qed simp
next
  case (snoc r rs)
  obtain s where s: "record_text L r = Inr s" "rec_record_hash r = sha256_hex L s"
    "rec_previous_hash r = chain_tail GENESIS_HASH rs" "scalars s"
    using chain_last [OF snoc.prems(1)] by blast
  show ?case
  proof (cases rs' rule: rev_cases)
    case Nil
    with snoc.prems(3) s(2) have "genesis_preimage L" unfolding genesis_preimage_def sha256_hex_def
      by (metis chain_tail_simps(1,2))
    then show ?thesis by (simp add: broken_lib_def)
  next
    case (snoc ys r')
    obtain t where t: "record_text L r' = Inr t" "rec_record_hash r' = sha256_hex L t"
      "rec_previous_hash r' = chain_tail GENESIS_HASH ys" "scalars t"
      using chain_last snoc.prems(2) snoc by metis
    have hash: "rec_record_hash r = rec_record_hash r'" using snoc.prems(3) snoc by simp
    show ?thesis
    proof (cases "broken_lib L")
      case False
      then have "s = t" using sha_text_inj [of L s t] s t hash by (auto simp: broken_lib_def)
      with s(1) t(1) False have same: "same_sealed L r r'"
        using hash unfolding broken_lib_def ambiguous_text_def record_text_def same_sealed_def by blast
      then have "chain_tail GENESIS_HASH rs = chain_tail GENESIS_HASH ys" using s(3) t(3) by (simp add: same_sealed_def)
      moreover have "chain_from L 0 GENESIS_HASH rs" "chain_from L 0 GENESIS_HASH ys"
        using snoc.prems(1,2) snoc by (simp_all add: chain_from_append)
      ultimately have "list_all2 (same_sealed L) rs ys" using snoc.IH False by blast
      with same snoc show ?thesis by (simp add: list_all2_appendI)
    qed simp
  qed
qed

end
