(* ===== verification/HostVerify.thy ===== *)
theory HostVerify
  imports HostReach VerifyFacts
begin

text \<open>
  The host and the verifier together: what \<open>verify_ledger\<close> reports of a chain whose log keeps the host's
  promises (\<open>log_inv\<close>), with the default adapter and no registry.
\<close>

lemma default_adapter_simps [simp]:
  "id_of default_adapter = top_level_id" "is_attempt default_adapter = top_level_is_attempt"
  "event_of default_adapter = JDict" "principal_of default_adapter = (\<lambda>_. JNull)"
  by (simp_all add: default_adapter_def)

lemma valid_event_reason:
  "first_validation_error L (JDict d) = None \<Longrightarrow> dget d REASON = JNull \<or> (\<exists>s. dget d REASON = JStr s)"
  by (drule valid_event_optional [OF _ event_members(8)]) (auto simp: abort_reason_type_def plain_ok_TLiteral)

lemma valid_key:
  assumes "first_validation_error L (JDict d) = None"
  obtains sid where "dget d SESSION_ID = JStr sid" "dget d ID = JStr (event_id d)"
    "top_level_id d = Some [JStr sid, JStr (event_id d)]"
proof -
  obtain sid i where s: "dget d SESSION_ID = JStr sid" "dget d ID = JStr i"
    using valid_event_session [OF assms] valid_event_id [OF assms] by blast
  then have "get_or d SESSION_ID x = JStr sid" for x
    by (auto simp: get_or_def dget_def split: option.splits)
  then show ?thesis using that s by (simp add: top_level_id_def event_id_def)
qed

lemma good_valid: "good L e \<Longrightarrow> first_validation_error L (JDict e) = None"
  by (simp add: good_def)

lemma good_domain: "good L e \<Longrightarrow> \<not> outside_canonical_domain (JDict e)"
  by (auto simp: good_def event_digest_def canonicalize_Inr split: sum.splits)

lemma good_hash_safe: "good L (rec_event r) \<Longrightarrow> hash_safe default_adapter r"
proof -
  assume g: "good L (rec_event r)"
  obtain sid where "dget (rec_event r) SESSION_ID = JStr sid" "dget (rec_event r) ID = JStr (event_id (rec_event r))"
    "top_level_id (rec_event r) = Some [JStr sid, JStr (event_id (rec_event r))]"
    using valid_key [OF good_valid [OF g]] by blast
  with valid_event_reason [OF good_valid [OF g]] show ?thesis
    by (auto simp: hash_safe_def)
qed

section \<open>No orphan, no replay\<close>

lemma key_eq_strings: "key_eq [JStr a, JStr b] [JStr c, JStr d] \<longleftrightarrow> a = c \<and> b = d"
  by (simp add: key_eq_def py_eq_def)

lemma orphan_in_iff:
  "orphan_in A ks rs \<longleftrightarrow> (\<exists>i<length rs. \<exists>k. id_of A (rec_event (rs ! i)) = Some k \<and>
     \<not> is_attempt A (rec_event (rs ! i)) \<and> \<not> is_aborted (event_of A (rec_event (rs ! i))) \<and> \<not> key_in k ks \<and>
     (\<forall>j<i. \<forall>k'. is_attempt A (rec_event (rs ! j)) \<longrightarrow> id_of A (rec_event (rs ! j)) = Some k' \<longrightarrow> \<not> key_eq k k'))"
proof (induction rs arbitrary: ks)
  case (Cons r rs)
  have shift: "(\<exists>i<length (r # rs). P i) \<longleftrightarrow> P 0 \<or> (\<exists>i<length rs. P (Suc i))" for P
    by (auto simp: less_Suc_eq_0_disj)
  have all: "(\<forall>j<Suc i. Q j) \<longleftrightarrow> Q 0 \<and> (\<forall>j<i. Q (Suc j))" for Q and i :: nat
    by (auto simp: less_Suc_eq_0_disj)
  show ?case
    unfolding shift all
    by (cases "id_of A (rec_event r)") (auto simp: Cons.IH key_in_def)
qed simp

lemma log_no_orphan:
  assumes "\<forall>r\<in>set rs. good L (rec_event r)" "log_ok lv (map rec_event rs)"
  shows "\<not> orphan_in default_adapter [] rs"
proof
  assume "orphan_in default_adapter [] rs"
  then obtain i k where i: "i < length rs" "top_level_id (rec_event (rs ! i)) = Some k"
    "\<not> attempted (rec_event (rs ! i))" "\<not> outcome_is (rec_event (rs ! i)) ABORTED"
    "\<forall>j<i. \<forall>k'. attempted (rec_event (rs ! j)) \<longrightarrow> top_level_id (rec_event (rs ! j)) = Some k' \<longrightarrow> \<not> key_eq k k'"
    by (auto simp: orphan_in_iff top_level_is_attempt_def is_aborted_def)
  obtain j where j: "j < i" "attempted (rec_event (rs ! j))" "same_op (rec_event (rs ! j)) (rec_event (rs ! i))"
    using log_outcome_after_attempt [OF assms(2), of i] i by auto
  have v: "first_validation_error L (JDict (rec_event (rs ! i))) = None"
    "first_validation_error L (JDict (rec_event (rs ! j))) = None"
    using assms(1) i(1) j(1) by (simp_all add: good_valid)
  obtain s where "dget (rec_event (rs ! i)) SESSION_ID = JStr s"
    "top_level_id (rec_event (rs ! i)) = Some [JStr s, JStr (event_id (rec_event (rs ! i)))]"
    using valid_key [OF v(1)] by blast
  moreover obtain t where "dget (rec_event (rs ! j)) SESSION_ID = JStr t"
    "top_level_id (rec_event (rs ! j)) = Some [JStr t, JStr (event_id (rec_event (rs ! j)))]"
    using valid_key [OF v(2)] by blast
  ultimately show False using i(2,5) j by (auto simp: same_op_def key_eq_strings)
qed

lemma numbered_same:
  "numbered e = Some (k, sid, n) \<Longrightarrow> dget e SESSION_ID = JStr sid \<and> numbered_under e = Some (k, n)"
  by (auto simp: numbered_def numbered_under_def signer_seq_def count_of_def split: json.splits if_splits)

lemma distinct_numbers:
  "(\<And>i j. i < j \<Longrightarrow> j < length rs \<Longrightarrow> numbered (rec_event (rs ! j)) \<noteq> None \<Longrightarrow>
     numbered (rec_event (rs ! i)) \<noteq> numbered (rec_event (rs ! j))) \<Longrightarrow> distinct (record_numbers default_adapter rs)"
proof (induction rs)
  case (Cons r rs)
  have ih: "distinct (record_numbers default_adapter rs)"
    by (rule Cons.IH) (use Cons.prems [of "Suc _" "Suc _"] in simp)
  have set_eq: "set (record_numbers default_adapter rs) = {x. \<exists>r\<in>set rs. numbered (rec_event r) = Some x}" for rs
    by (induction rs) (auto simp: inner_numbered_def split: option.splits)
  have "numbered (rec_event r) \<noteq> numbered (rec_event (rs ! j))" if "j < length rs" "numbered (rec_event (rs ! j)) \<noteq> None" for j
    using Cons.prems [of 0 "Suc j"] that by simp
  then have "\<forall>r'\<in>set rs. numbered (rec_event r') \<noteq> None \<longrightarrow> numbered (rec_event r) \<noteq> numbered (rec_event r')"
    by (metis in_set_conv_nth)
  with ih show ?case
    by (auto simp: set_eq inner_numbered_def split: option.splits)
qed simp

lemma log_no_replay:
  assumes "log_ok L2 (map rec_event rs)"
  shows "distinct (record_numbers default_adapter rs)"
proof (rule distinct_numbers)
  fix i j assume ij: "i < j" "j < length rs" "numbered (rec_event (rs ! j)) \<noteq> None"
  show "numbered (rec_event (rs ! i)) \<noteq> numbered (rec_event (rs ! j))"
  proof
    assume "numbered (rec_event (rs ! i)) = numbered (rec_event (rs ! j))"
    moreover obtain k sid n where "numbered (rec_event (rs ! j)) = Some (k, sid, n)" using ij(3) by auto
    ultimately have "same_number (rec_event (rs ! i)) (rec_event (rs ! j))"
      using numbered_same [of "rec_event (rs ! i)" k sid n] numbered_same [of "rec_event (rs ! j)" k sid n]
      by (simp add: same_number_def)
    with log_number_unique [OF assms, of i j] ij show False by simp
  qed
qed

section \<open>Schema and versions\<close>

lemma good_sealed_error: "good L e \<Longrightarrow> sealed_error L (JDict e) = None"
  using good_domain valid_event_sealed [OF good_valid] by (simp add: sealed_error_def)

lemma good_version: "good L (rec_event r) \<Longrightarrow> version_of (JDict (rec_event r)) = Some (4, SPEC_VERSION)"
  using valid_event_version [OF good_valid [of L "rec_event r"]]
  by (simp add: version_of_def version_rank_def KNOWN_SPEC_VERSIONS_def SPEC_VERSION_def)

lemma good_no_regressions:
  "\<forall>r\<in>set rs. good L (rec_event r) \<Longrightarrow> latest \<in> {None, Some (4, SPEC_VERSION)} \<Longrightarrow>
     version_regressions_from default_adapter latest rs = []"
proof (induction rs arbitrary: latest)
  case (Cons r rs)
  then have "version_of (event_of default_adapter (rec_event r)) = Some (4, SPEC_VERSION)"
    by (auto dest: good_version)
  with Cons show ?case by (auto split: option.split)
qed simp

lemma whole_triple_present: "whole_triple r \<Longrightarrow> triple_present r = 0 \<or> triple_present r = 3"
  by (auto simp: whole_triple_def triple_present_def)

lemma default_other: "whole_triple r \<Longrightarrow> other_issues L default_options b r = []"
  using whole_triple_present [of r]
  by (auto simp: other_issues_def default_options_def check_principal_def check_signature_def check_identity_def
      check_countersignature_def split: option.split bool.split)

lemma check_records_other:
  assumes "check_records L opts n rs st = Inr st'" "\<forall>r\<in>set rs. \<forall>b. other_issues L opts b r = []"
  shows "kinds (vs_issues st') \<subseteq> kinds (vs_issues st) \<union> chain_kinds \<union> {ORPHANED_OUTCOME, REPLAY_DETECTED}"
  using assms
proof (induction rs arbitrary: n st)
  case (Cons r rs)
  obtain st1 where st1: "check_record L opts n r st = Inr st1" "check_records L opts (n + 1) rs st1 = Inr st'"
    using Cons.prems(1) by (rule check_records_Cons)
  obtain orphans where o: "check_correlation (vo_adapter opts) r (vs_attempted st) = Inr (orphans, vs_attempted st1)"
      "vs_issues st1 = vs_issues st @ check_seq n r @ check_hash L (vs_prev st) r @ orphans @
       fst (check_number (vo_adapter opts) r (vs_numbered st)) @ other_issues L opts (hashable_record L (vs_prev st) r) r"
    using st1(1) by (rule check_record_Inr)
  have "kinds (vs_issues st1) \<subseteq> kinds (vs_issues st) \<union> chain_kinds \<union> {ORPHANED_OUTCOME, REPLAY_DETECTED}"
    using o(2) Cons.prems(2) check_kinds(1) [of n r] check_kinds(2) [where L = L and prev = "vs_prev st" and r = r]
      check_kinds(3) [OF o(1)] check_kinds(4) [where A = "vo_adapter opts" and r = r and seen = "vs_numbered st"]
    by (auto simp: chain_kinds_def)
  with Cons.IH [OF st1(2)] Cons.prems(2) show ?case by auto
qed auto

section \<open>The host's chain, verified\<close>

lemma log_inv_verified:
  assumes log: "log_inv L lv rs"
  shows "\<exists>report. verify_ledger L default_options rs (Some (chain_tail GENESIS_HASH rs)) = Inr report \<and>
    kinds (vr_issues report) \<subseteq> {SIGNER_SEQ_GAP} \<union> (if lv = L2 then {} else {REPLAY_DETECTED}) \<and>
    vr_computed_digest report = chain_tail GENESIS_HASH rs \<and> vr_count report = length rs"
proof -
  let ?tail = "chain_tail GENESIS_HASH rs"
  have good: "\<forall>r\<in>set rs. good L (rec_event r)" and whole: "\<forall>r\<in>set rs. whole_triple r"
    and chain: "chain_from L 0 GENESIS_HASH rs" and ord: "log_ok lv (map rec_event rs)"
    using log by (auto simp: log_inv_def)
  have A: "vo_adapter default_options = default_adapter" by (simp add: default_options_def)
  obtain report where report: "verify_chain L default_options rs (Some ?tail) = Inr report"
    using verify_chain_returns [of rs default_options L "Some ?tail"] good good_hash_safe
    by (auto simp: A) (auto simp: default_options_def)
  obtain st gaps where v: "check_records L default_options 0 rs initial_vstate = Inr st"
    "vr_issues report = vs_issues st @ gap_issues gaps @ digest_issues (Some ?tail) (vs_prev st)"
    "vr_computed_digest report = vs_prev st" "vr_count report = length rs"
    using report by (rule verify_chain_Inr)
  have tail: "vs_prev st = ?tail" using verify_chain_iff(2) [OF report chain] v(3) by simp
  have "kinds (vs_issues st) \<subseteq> chain_kinds \<union> {ORPHANED_OUTCOME, REPLAY_DETECTED}"
    using check_records_other [OF v(1)] whole default_other by simp
  moreover have "kinds (vr_issues report) \<inter> chain_kinds = {}" using verify_chain_iff(1) [OF report] chain by simp
  moreover have "ORPHANED_OUTCOME \<notin> kinds (vr_issues report)"
    using verify_chain_orphan [OF report] log_no_orphan [OF good ord] by (simp add: A)
  moreover have "lv = L2 \<longrightarrow> REPLAY_DETECTED \<notin> kinds (vr_issues report)"
    using verify_chain_replay [OF report] log_no_replay ord by (auto simp: A)
  ultimately have kinds: "kinds (vr_issues report) \<subseteq> {SIGNER_SEQ_GAP} \<union> (if lv = L2 then {} else {REPLAY_DETECTED})"
    using v(2) tail kinds_gap [of gaps] by (cases lv) (auto simp: digest_issues_def chain_kinds_def)
  have none: "\<And>r. r \<in> set rs \<Longrightarrow> sealed_error L (JDict (rec_event r)) = None"
    using good good_sealed_error by simp
  have "schema_issues L default_adapter rs (vr_issues report) = []"
    unfolding schema_issues_def Let_def concat_eq_Nil_conv by (auto simp: none)
  moreover have "version_regressions default_adapter rs = []"
    using good_no_regressions [OF good] by (simp add: version_regressions_def)
  ultimately have "verify_ledger L default_options rs (Some ?tail) = Inr report"
    using report by (simp add: verify_ledger_def A Let_def)
  with kinds v(3,4) tail show ?thesis by simp
qed

end
