(* ===== verification/Json_Text.thy ===== *)
theory Json_Text
  imports Canonical
begin

text \<open>
  The two functions of Python's \<open>json\<close> module the SDK uses: \<open>json.dumps\<close> with compact separators, and
  \<open>json.loads\<close>. The decoder is the scanner of CPython: whitespace, the literals (\<open>NaN\<close> and the infinities
  included), numbers, strings with their escapes and joined surrogate pairs, arrays and objects, a
  repeated member keeping its first place and its last value. The text of a finite float and its
  reading are the parameters \<open>float_text\<close> and \<open>float_read\<close>.

  A nested value is decoded with fuel; \<open>json_loads\<close> gives as much as the text can ask for, and
  \<open>scan_fuel\<close> shows that more changes nothing.
\<close>

section \<open>Encoding\<close>

fun decimal :: "nat \<Rightarrow> pystr" where
  "decimal n = (if n < 10 then [48 + n] else decimal (n div 10) @ [48 + n mod 10])"

declare decimal.simps [simp del]

definition int_text :: "int \<Rightarrow> pystr" where
  "int_text n = (if n < 0 then 45 # decimal (nat (- n)) else decimal (nat n))"

definition hex4 :: "nat \<Rightarrow> pystr" where
  "hex4 n = [hex_digit (n div 4096 mod 16), hex_digit (n div 256 mod 16), hex_digit (n div 16 mod 16),
     hex_digit (n mod 16)]"

definition u_escape :: "nat \<Rightarrow> pystr" where
  "u_escape n = 92 # 117 # hex4 n"

text \<open>The escapes of \<open>ensure_ascii=False\<close> and, with \<open>ascii_only\<close>, those of the default.\<close>

definition escape_char :: "bool \<Rightarrow> nat \<Rightarrow> pystr" where
  "escape_char ascii_only c =
     (if c = 34 then [92, 34] else if c = 92 then [92, 92]
      else if c = 8 then [92, 98] else if c = 12 then [92, 102] else if c = 10 then [92, 110]
      else if c = 13 then [92, 114] else if c = 9 then [92, 116]
      else if c < 32 then u_escape c
      else if ascii_only \<and> 126 < c then
        (if c < 0x10000 then u_escape c
         else u_escape (0xD800 + (c - 0x10000) div 1024) @ u_escape (0xDC00 + (c - 0x10000) mod 1024))
      else [c])"

definition string_text :: "bool \<Rightarrow> pystr \<Rightarrow> pystr" where
  "string_text ascii_only s = 34 # concat (map (escape_char ascii_only) s) @ [34]"

fun comma_join :: "pystr list \<Rightarrow> pystr" where
  "comma_join [] = []"
| "comma_join [x] = x"
| "comma_join (x # xs) = x @ 44 # comma_join xs"

fun json_dumps :: "lib \<Rightarrow> bool \<Rightarrow> json \<Rightarrow> pystr" where
  "json_dumps L a JNull = ustr ''null''"
| "json_dumps L a (JBool b) = (if b then ustr ''true'' else ustr ''false'')"
| "json_dumps L a (JInt n) = int_text n"
| "json_dumps L a (JFloat f) = (case f of
      PyNaN \<Rightarrow> ustr ''NaN''
    | PyInf positive \<Rightarrow> (if positive then ustr ''Infinity'' else ustr ''-Infinity'')
    | PyFin m e \<Rightarrow> float_text L f)"
| "json_dumps L a (JStr s) = string_text a s"
| "json_dumps L a (JList xs) = 91 # comma_join (map (json_dumps L a) xs) @ [93]"
| "json_dumps L a (JDict d) =
     123 # comma_join (map (\<lambda>kv. string_text a (fst kv) @ 58 # json_dumps L a (snd kv)) d) @ [125]"

section \<open>Decoding\<close>

definition is_ws :: "nat \<Rightarrow> bool" where
  "is_ws c = (c = 32 \<or> c = 9 \<or> c = 10 \<or> c = 13)"

abbreviation skip_ws :: "pystr \<Rightarrow> pystr" where
  "skip_ws s \<equiv> dropWhile is_ws s"

definition ascii_digit :: "nat \<Rightarrow> bool" where
  "ascii_digit c = (48 \<le> c \<and> c \<le> 57)"

definition read_decimal :: "pystr \<Rightarrow> nat" where
  "read_decimal s = foldl (\<lambda>n c. n * 10 + (c - 48)) 0 s"

definition hex_value :: "nat \<Rightarrow> nat option" where
  "hex_value c = (if 48 \<le> c \<and> c \<le> 57 then Some (c - 48)
     else if 97 \<le> c \<and> c \<le> 102 then Some (c - 87)
     else if 65 \<le> c \<and> c \<le> 70 then Some (c - 55) else None)"

fun read_hex4 :: "pystr \<Rightarrow> (nat \<times> pystr) option" where
  "read_hex4 (a # b # c # d # r) =
     (case (hex_value a, hex_value b, hex_value c, hex_value d) of
        (Some w, Some x, Some y, Some z) \<Rightarrow> Some (w * 4096 + x * 256 + y * 16 + z, r)
      | _ \<Rightarrow> None)"
| "read_hex4 _ = None"

definition plain_escape :: "nat \<Rightarrow> nat option" where
  "plain_escape c = (if c = 34 \<or> c = 92 \<or> c = 47 then Some c else if c = 98 then Some 8
     else if c = 102 then Some 12 else if c = 110 then Some 10 else if c = 114 then Some 13
     else if c = 116 then Some 9 else None)"

text \<open>After \<open>\u\<close>: the code unit, joined with a following low surrogate when it is a high one.\<close>

definition read_unit :: "pystr \<Rightarrow> (nat \<times> pystr) option" where
  "read_unit s = (case read_hex4 s of
      None \<Rightarrow> None
    | Some (u, r) \<Rightarrow>
        if 0xD800 \<le> u \<and> u \<le> 0xDBFF \<and> take 2 r = [92, 117] then
          (case read_hex4 (drop 2 r) of
             Some (v, r') \<Rightarrow> if 0xDC00 \<le> v \<and> v \<le> 0xDFFF
               then Some (0x10000 + (u - 0xD800) * 1024 + (v - 0xDC00), r') else Some (u, r)
           | None \<Rightarrow> Some (u, r))
        else Some (u, r))"

text \<open>The characters of a string up to its closing quote; a control character is an error.\<close>

lemma read_hex4_shorter: "read_hex4 s = Some (u, r) \<Longrightarrow> length r < length s"
  by (cases s rule: read_hex4.cases) (auto split: option.splits)

lemma read_unit_shorter: "read_unit s = Some (u, r) \<Longrightarrow> length r < length s"
  by (auto simp: read_unit_def split: option.splits prod.splits if_splits dest!: read_hex4_shorter)

function read_chars :: "pystr \<Rightarrow> (pystr \<times> pystr) option" where
  "read_chars s = (case s of
      [] \<Rightarrow> None
    | c # r \<Rightarrow>
        if c = 34 then Some ([], r)
        else if c = 92 then
          (case r of
             [] \<Rightarrow> None
           | e # r' \<Rightarrow>
               if e = 117 then
                 (case read_unit r' of
                    None \<Rightarrow> None
                  | Some (u, r'') \<Rightarrow> map_option (\<lambda>(t, x). (u # t, x)) (read_chars r''))
               else (case plain_escape e of
                    None \<Rightarrow> None
                  | Some u \<Rightarrow> map_option (\<lambda>(t, x). (u # t, x)) (read_chars r')))
        else if c < 32 then None
        else map_option (\<lambda>(t, x). (c # t, x)) (read_chars r))"
  by auto
termination
  by (relation "measure length") (auto dest: read_unit_shorter)

declare read_chars.simps [simp del]

text \<open>\<open>-?(0|[1-9]\d*)(\.\d+)?([eE][-+]?\d+)?\<close>: an int, or a float when a fraction or an exponent follows.\<close>

definition read_int_part :: "pystr \<Rightarrow> (pystr \<times> pystr) option" where
  "read_int_part s = (case s of
      [] \<Rightarrow> None
    | c # r \<Rightarrow> if c = 48 then Some ([c], r)
        else if 49 \<le> c \<and> c \<le> 57 then Some (c # takeWhile ascii_digit r, dropWhile ascii_digit r)
        else None)"

definition read_fraction :: "pystr \<Rightarrow> pystr \<times> pystr" where
  "read_fraction s =
     (if take 1 s = [46] \<and> drop 1 s \<noteq> [] \<and> ascii_digit (hd (drop 1 s))
      then (46 # takeWhile ascii_digit (drop 1 s), dropWhile ascii_digit (drop 1 s)) else ([], s))"

definition read_exponent :: "pystr \<Rightarrow> pystr \<times> pystr" where
  "read_exponent s =
     (if take 1 s = [101] \<or> take 1 s = [69] then
        (let r = drop 1 s; sign = (if take 1 r = [43] \<or> take 1 r = [45] then take 1 r else []);
             ds = drop (length sign) r
         in if ds \<noteq> [] \<and> ascii_digit (hd ds)
            then (take 1 s @ sign @ takeWhile ascii_digit ds, dropWhile ascii_digit ds) else ([], s))
      else ([], s))"

definition read_sign :: "pystr \<Rightarrow> pystr \<times> pystr" where
  "read_sign s = (if take 1 s = [45] then ([45], drop 1 s) else ([], s))"

definition number_value :: "lib \<Rightarrow> pystr \<Rightarrow> pystr \<Rightarrow> pystr \<Rightarrow> json" where
  "number_value L sign digits rest =
     (if rest = [] then JInt (if sign = [] then int (read_decimal digits) else - int (read_decimal digits))
      else JFloat (float_read L (sign @ digits @ rest)))"

definition read_number :: "lib \<Rightarrow> pystr \<Rightarrow> (json \<times> pystr) option" where
  "read_number L s =
     (case read_sign s of (sign, r) \<Rightarrow>
      case read_int_part r of
        None \<Rightarrow> None
      | Some (digits, r1) \<Rightarrow>
          (case read_fraction r1 of (fraction, r2) \<Rightarrow>
           case read_exponent r2 of (exponent, r3) \<Rightarrow>
             Some (number_value L sign digits (fraction @ exponent), r3)))"

definition literals :: "(pystr \<times> json) list" where
  "literals = [(ustr ''null'', JNull), (ustr ''true'', JBool True), (ustr ''false'', JBool False),
     (ustr ''NaN'', JFloat PyNaN), (ustr ''Infinity'', JFloat (PyInf True)),
     (ustr ''-Infinity'', JFloat (PyInf False))]"

definition read_literal :: "pystr \<Rightarrow> (json \<times> pystr) option" where
  "read_literal s = map_option (\<lambda>(t, v). (v, drop (length t) s))
     (find (\<lambda>(t, v). take (length t) s = t) literals)"

text \<open>\<open>scan\<close> reads a value, \<open>scan_items\<close> and \<open>scan_members\<close> the rest of an array and an object.\<close>

fun scan :: "lib \<Rightarrow> nat \<Rightarrow> pystr \<Rightarrow> (json \<times> pystr) option"
  and scan_items :: "lib \<Rightarrow> nat \<Rightarrow> pystr \<Rightarrow> (json list \<times> pystr) option"
  and scan_members :: "lib \<Rightarrow> nat \<Rightarrow> pystr \<Rightarrow> (jobj \<times> pystr) option" where
  "scan L 0 s = None"
| "scan L (Suc n) s =
     (case s of
        [] \<Rightarrow> None
      | c # r \<Rightarrow>
          if c = 34 then map_option (\<lambda>(t, x). (JStr t, x)) (read_chars r)
          else if c = 91 then
            (if take 1 (skip_ws r) = [93] then Some (JList [], drop 1 (skip_ws r))
             else map_option (\<lambda>(vs, x). (JList vs, x)) (scan_items L n (skip_ws r)))
          else if c = 123 then
            (if take 1 (skip_ws r) = [125] then Some (JDict [], drop 1 (skip_ws r))
             else map_option (\<lambda>(ms, x). (JDict (fold (\<lambda>(k, v). AList.update k v) ms []), x))
                    (scan_members L n (skip_ws r)))
          else case read_literal s of Some x \<Rightarrow> Some x | None \<Rightarrow> read_number L s)"
| "scan_items L 0 s = None"
| "scan_items L (Suc n) s =
     (case scan L n s of
        None \<Rightarrow> None
      | Some (v, r) \<Rightarrow>
          (case skip_ws r of
             [] \<Rightarrow> None
           | c # r' \<Rightarrow>
               if c = 93 then Some ([v], r')
               else if c = 44 then map_option (\<lambda>(vs, x). (v # vs, x)) (scan_items L n (skip_ws r'))
               else None))"
| "scan_members L 0 s = None"
| "scan_members L (Suc n) s =
     (case s of
        [] \<Rightarrow> None
      | q # s' \<Rightarrow>
          if q \<noteq> 34 then None
          else case read_chars s' of
            None \<Rightarrow> None
          | Some (k, r) \<Rightarrow>
              if take 1 (skip_ws r) \<noteq> [58] then None
              else case scan L n (skip_ws (drop 1 (skip_ws r))) of
                None \<Rightarrow> None
              | Some (v, r') \<Rightarrow>
                  (case skip_ws r' of
                     [] \<Rightarrow> None
                   | c # r'' \<Rightarrow>
                       if c = 125 then Some ([(k, v)], r'')
                       else if c = 44 then map_option (\<lambda>(ms, x). ((k, v) # ms, x)) (scan_members L n (skip_ws r''))
                       else None))"

definition json_loads :: "lib \<Rightarrow> pystr \<Rightarrow> json option" where
  "json_loads L s =
     (if take 1 s = [0xFEFF] then None
      else case scan L (2 * length s + 1) (skip_ws s) of
        None \<Rightarrow> None
      | Some (v, r) \<Rightarrow> if skip_ws r = [] then Some v else None)"

section \<open>Decoding makes progress, and the fuel is enough\<close>

lemma length_skip_ws: "length (skip_ws s) \<le> length s"
  by (rule length_dropWhile_le)

lemma read_chars_cases:
  "read_chars [] = None"
  "read_chars (34 # r) = Some ([], r)"
  "read_chars [92] = None"
  "read_chars (92 # 117 # r) = (case read_unit r of None \<Rightarrow> None
     | Some (u, x) \<Rightarrow> map_option (\<lambda>(t, y). (u # t, y)) (read_chars x))"
  "e \<noteq> 117 \<Longrightarrow> read_chars (92 # e # r) = (case plain_escape e of None \<Rightarrow> None
     | Some u \<Rightarrow> map_option (\<lambda>(t, y). (u # t, y)) (read_chars r))"
  "c \<noteq> 34 \<Longrightarrow> c \<noteq> 92 \<Longrightarrow> read_chars (c # r) =
     (if c < 32 then None else map_option (\<lambda>(t, y). (c # t, y)) (read_chars r))"
  by (subst read_chars.simps; simp)+

lemma read_chars_shorter: "read_chars s = Some (t, r) \<Longrightarrow> length r < length s"
proof (induction s arbitrary: t r rule: length_induct)
  case (1 s)
  have ih: "read_chars s' = Some (t', r') \<Longrightarrow> length s' < length s \<Longrightarrow> length r' < length s" for s' t' r'
    using "1.IH" less_trans by blast
  show ?case
  proof (cases s)
    case (Cons c r0)
    show ?thesis
    proof (cases "c = 92")
      case True
      show ?thesis
      proof (cases r0)
        case Nil
        with "1.prems" Cons True show ?thesis by (simp add: read_chars_cases)
      next
        case (Cons e r1)
        with "1.prems" \<open>s = c # r0\<close> True ih show ?thesis
          by (cases "e = 117") (auto simp: read_chars_cases split: option.splits dest!: read_unit_shorter)
      qed
    next
      case False
      with "1.prems" Cons ih show ?thesis
        by (cases "c = 34") (auto simp: read_chars_cases split: if_splits)
    qed
  qed (use "1.prems" in \<open>simp add: read_chars_cases\<close>)
qed

lemma read_int_part_shorter: "read_int_part s = Some (d, r) \<Longrightarrow> length r < length s"
  by (auto simp: read_int_part_def less_Suc_eq_le length_dropWhile_le split: list.splits if_splits)

lemma length_dropWhile_drop: "length (dropWhile P (drop k s)) \<le> length s"
  by (rule le_trans [OF length_dropWhile_le]) simp

lemma read_fraction_shorter: "read_fraction s = (d, r) \<Longrightarrow> length r \<le> length s"
  by (simp add: read_fraction_def length_dropWhile_drop split: if_splits) (metis length_dropWhile_drop)

lemma read_exponent_shorter: "read_exponent s = (d, r) \<Longrightarrow> length r \<le> length s"
  unfolding read_exponent_def Let_def drop_drop
  by (simp split: if_splits) (metis length_dropWhile_drop)+

lemma read_sign_shorter: "read_sign s = (d, r) \<Longrightarrow> length r \<le> length s"
  by (auto simp: read_sign_def split: if_splits)

lemma read_number_shorter: "read_number L s = Some (v, r) \<Longrightarrow> length r < length s"
  by (auto simp: read_number_def split: option.splits prod.splits dest!: read_sign_shorter read_int_part_shorter
      read_fraction_shorter read_exponent_shorter)

lemma find_in: "find P xs = Some x \<Longrightarrow> x \<in> set xs \<and> P x"
  by (induction xs) (auto split: if_splits)

lemma read_literal_shorter: "read_literal s = Some (v, r) \<Longrightarrow> length r < length s"
proof -
  assume "read_literal s = Some (v, r)"
  then obtain x where x: "find (\<lambda>(t, v). take (length t) s = t) literals = Some x" "r = drop (length (fst x)) s"
    by (auto simp: read_literal_def)
  from find_in [OF x(1)] have "fst x \<noteq> []" "take (length (fst x)) s = fst x" by (auto simp: literals_def)
  with x(2) show ?thesis by (cases s) auto
qed

lemma skip_ws_Cons: "skip_ws s = c # r \<Longrightarrow> length r < length s"
  using length_skip_ws [of s] by simp

lemma drop_skip_ws: "take 1 (skip_ws s) = [c] \<Longrightarrow> length (drop 1 (skip_ws s)) < length s"
  using length_skip_ws [of s] by (cases "skip_ws s") auto

lemma scan_shorter:
  "scan L n s = Some (v, r) \<Longrightarrow> length r < length s"
  "scan_items L n s = Some (vs, r) \<Longrightarrow> length r < length s"
  "scan_members L n s = Some (ms, r) \<Longrightarrow> length r < length s"
proof (induction n arbitrary: s v r vs ms)
  case (Suc n)
  note ih = Suc.IH
  {
    case 1
    then obtain c x where s: "s = c # x" by (cases s) auto
    note le = length_skip_ws [of x]
    consider "c = 34" | "c = 91" | "c = 123" | "c \<noteq> 34" "c \<noteq> 91" "c \<noteq> 123" by blast
    then show ?case
    proof cases
      case 1
      with \<open>scan L (Suc n) s = Some (v, r)\<close> s show ?thesis by (auto dest: read_chars_shorter)
    next
      case 2
      with \<open>scan L (Suc n) s = Some (v, r)\<close> s le show ?thesis
        by (auto split: if_splits dest: ih(2) drop_skip_ws)
    next
      case 3
      with \<open>scan L (Suc n) s = Some (v, r)\<close> s le show ?thesis
        by (auto split: if_splits dest: ih(3) drop_skip_ws)
    next
      case 4
      with \<open>scan L (Suc n) s = Some (v, r)\<close> s show ?thesis
        by (auto split: option.splits dest: read_literal_shorter read_number_shorter)
    qed
  next
    case 2
    then obtain v1 r1 c r2 where "scan L n s = Some (v1, r1)" "skip_ws r1 = c # r2"
      and "r = r2 \<or> (\<exists>ws. scan_items L n (skip_ws r2) = Some (ws, r))"
      by (auto split: option.splits list.splits if_splits)
    then show ?case using ih(1) ih(2) skip_ws_Cons length_skip_ws
      by (metis le_less_trans less_trans linorder_not_less)
  next
    case 3
    then obtain s1 k r1 v1 r2 c r3 where s: "s = 34 # s1" "read_chars s1 = Some (k, r1)"
      "scan L n (skip_ws (drop 1 (skip_ws r1))) = Some (v1, r2)" "skip_ws r2 = c # r3"
      and r: "r = r3 \<or> (\<exists>ws. scan_members L n (skip_ws r3) = Some (ws, r))"
      by (auto split: option.splits list.splits if_splits)
    from s have "length r3 < length s"
      using ih(1) [OF s(3)] read_chars_shorter [OF s(2)] skip_ws_Cons [OF s(4)]
        length_skip_ws [of "drop 1 (skip_ws r1)"] length_skip_ws [of r1] by simp
    then show ?case using r ih(3) length_skip_ws [of r3] by fastforce
  }
qed simp_all

lemma scan_fuel_step:
  "2 * length s \<le> n \<Longrightarrow> scan L (Suc n) s = scan L n s"
  "2 * length s < n \<Longrightarrow> scan_items L (Suc n) s = scan_items L n s"
  "2 * length s < n \<Longrightarrow> scan_members L (Suc n) s = scan_members L n s"
proof (induction n arbitrary: s)
  case (Suc n)
  note ih = Suc.IH
  {
    case 1
    show ?case
    proof (cases s)
      case (Cons c x)
      then have "2 * length (skip_ws x) < n" using 1 length_skip_ws [of x] by simp
      then show ?thesis
        using Cons by (simp only: scan.simps list.case ih(2) ih(3))
    qed simp
  next
    case 2
    have "scan_items L (Suc n) (skip_ws r2) = scan_items L n (skip_ws r2)"
      if "scan L n s = Some (v, r1)" "skip_ws r1 = c # r2" for v r1 c r2
      using 2 scan_shorter(1) [OF that(1)] skip_ws_Cons [OF that(2)] length_skip_ws [of r2] by (intro ih(2)) simp
    note step = this
    have first: "scan L (Suc n) s = scan L n s" using 2 by (intro ih(1)) simp
    show ?case
    proof (cases "scan L n s")
      case (Some x)
      obtain v r1 where x: "x = (v, r1)" by (cases x)
      show ?thesis
      proof (cases "skip_ws r1")
        case (Cons c r2)
        note Some = Some [unfolded x]
        show ?thesis
          by (simp only: scan_items.simps(2) [of L "Suc n" s] scan_items.simps(2) [of L n s] first Some option.case prod.case Cons list.case step [OF Some Cons])
      qed (simp only: scan_items.simps(2) [of L "Suc n" s] scan_items.simps(2) [of L n s] first Some x option.case prod.case list.case)
    qed (simp only: scan_items.simps(2) [of L "Suc n" s] scan_items.simps(2) [of L n s] first option.case)
  next
    case 3
    have a: "scan L (Suc n) x = scan L n x"
      if "s = q # s1" "read_chars s1 = Some (k, r)" "x = skip_ws (drop 1 (skip_ws r))" for q s1 k r x
      using 3 that read_chars_shorter [OF that(2)] length_skip_ws [of "drop 1 (skip_ws r)"] length_skip_ws [of r]
      by (intro ih(1)) simp
    have b: "scan_members L (Suc n) (skip_ws r2) = scan_members L n (skip_ws r2)"
      if "s = q # s1" "read_chars s1 = Some (k, r)" "scan L n (skip_ws (drop 1 (skip_ws r))) = Some (v, r1)"
        "skip_ws r1 = c # r2" for q s1 k r v r1 c r2
      using 3 that(1) read_chars_shorter [OF that(2)] scan_shorter(1) [OF that(3)] skip_ws_Cons [OF that(4)]
        length_skip_ws [of "drop 1 (skip_ws r)"] length_skip_ws [of r] length_skip_ws [of r2]
      by (intro ih(3)) simp
    show ?case
    proof (cases s)
      case (Cons q s1)
      show ?thesis
      proof (cases "read_chars s1")
        case (Some y)
        obtain k r where y: "y = (k, r)" by (cases y)
        note Some = Some [unfolded y]
        note first = a [OF Cons Some refl]
        show ?thesis
        proof (cases "scan L n (skip_ws (drop 1 (skip_ws r)))")
          case None
          show ?thesis by (simp only: scan_members.simps(2) [of L "Suc n" "q # s1"] scan_members.simps(2) [of L n "q # s1"] Cons list.case Some option.case prod.case first None)
        next
          case v: (Some z)
          obtain v r1 where z: "z = (v, r1)" by (cases z)
          note v = v [unfolded z]
          show ?thesis
          proof (cases "skip_ws r1")
            case c: (Cons c r2)
            show ?thesis
              by (simp only: scan_members.simps(2) [of L "Suc n" "q # s1"] scan_members.simps(2) [of L n "q # s1"] Cons list.case Some option.case prod.case first v c b [OF Cons Some v c])
          qed (simp only: scan_members.simps(2) [of L "Suc n" "q # s1"] scan_members.simps(2) [of L n "q # s1"] Cons list.case Some option.case prod.case first v)
        qed
      qed (simp only: scan_members.simps(2) [of L "Suc n" "q # s1"] scan_members.simps(2) [of L n "q # s1"] Cons list.case option.case)
    qed simp
  }
qed simp_all

lemma scan_fuel: "2 * length s \<le> n \<Longrightarrow> scan L n s = scan L (2 * length s) s"
  by (induction n rule: nat_induct_at_least) (simp_all only: scan_fuel_step)

section \<open>What was encoded is decoded\<close>

text \<open>
  \<open>float_law\<close>: the text of a float is a JSON number with a fraction or an exponent, and reads back as that
  float (\<open>repr\<close> and \<open>float\<close> round-trip). A float has one representation \<open>m * 2 ^ e\<close> with \<open>m\<close> odd; \<open>json_normal\<close>
  asks for that one, and that no member of an object is repeated, as in a Python value.
\<close>

definition all_digits :: "pystr \<Rightarrow> bool" where
  "all_digits s = (s \<noteq> [] \<and> list_all ascii_digit s)"

definition json_float_text :: "pystr \<Rightarrow> bool" where
  "json_float_text t \<longleftrightarrow> (\<exists>sign digits fraction exponent. t = sign @ digits @ fraction @ exponent \<and>
     (sign = [] \<or> sign = [45]) \<and> all_digits digits \<and> (hd digits = 48 \<longrightarrow> digits = [48]) \<and>
     (fraction = [] \<or> (\<exists>ds. fraction = 46 # ds \<and> all_digits ds)) \<and>
     (exponent = [] \<or> (\<exists>c sg ds. exponent = c # sg @ ds \<and> (c = 101 \<or> c = 69) \<and>
        (sg = [] \<or> sg = [43] \<or> sg = [45]) \<and> all_digits ds)) \<and>
     (fraction \<noteq> [] \<or> exponent \<noteq> []))"

fun float_normal :: "pyfloat \<Rightarrow> bool" where
  "float_normal (PyFin m e) = (odd m \<or> m = 0 \<and> e = 0)"
| "float_normal _ = True"

definition float_law :: "lib \<Rightarrow> bool" where
  "float_law L = (\<forall>m e. float_normal (PyFin m e) \<longrightarrow> json_float_text (float_text L (PyFin m e)) \<and>
     float_read L (float_text L (PyFin m e)) = PyFin m e)"

fun json_normal :: "json \<Rightarrow> bool" where
  "json_normal (JFloat f) = float_normal f"
| "json_normal (JList xs) = list_all json_normal xs"
| "json_normal (JDict d) = (distinct (map fst d) \<and> list_all (\<lambda>kv. json_normal (snd kv)) d)"
| "json_normal _ = True"

text \<open>What may follow a value.\<close>

definition ends :: "pystr \<Rightarrow> bool" where
  "ends r = (r = [] \<or> hd r \<in> {44, 93, 125})"

lemma ends_simps [simp]: "ends []" "ends (44 # r)" "ends (93 # r)" "ends (125 # r)"
  by (simp_all add: ends_def)

lemma ascii_digit_48 [simp]: "n < 10 \<Longrightarrow> ascii_digit (48 + n)"
  by (simp add: ascii_digit_def)

lemma decimal_digits: "all_digits (decimal n)"
proof (induction n rule: decimal.induct)
  case (1 n)
  then show ?case by (subst decimal.simps) (simp add: all_digits_def)
qed

lemma decimal_hd: "hd (decimal n) = 48 \<longleftrightarrow> n = 0"
proof (induction n rule: decimal.induct)
  case (1 n)
  show ?case
  proof (cases "n < 10")
    case False
    then have "decimal (n div 10) \<noteq> []" "n div 10 \<noteq> 0"
      using decimal_digits [of "n div 10"] by (auto simp: all_digits_def)
    with 1 False show ?thesis by (subst decimal.simps) simp
  qed (subst decimal.simps, simp)
qed

lemma decimal_zero [simp]: "decimal 0 = [48]"
  by (subst decimal.simps) simp

lemma read_decimal_decimal: "read_decimal (decimal n) = n"
proof (induction n rule: decimal.induct)
  case (1 n)
  then show ?case by (subst decimal.simps) (auto simp: read_decimal_def)
qed

lemma span_digits:
  assumes "list_all ascii_digit s" "r = [] \<or> \<not> ascii_digit (hd r)"
  shows "takeWhile ascii_digit (s @ r) = s" "dropWhile ascii_digit (s @ r) = r"
  using assms by (induction s) (cases r; simp)+

lemma read_int_part_digits:
  assumes "all_digits s" "hd s = 48 \<longrightarrow> s = [48]" "r = [] \<or> \<not> ascii_digit (hd r)"
  shows "read_int_part (s @ r) = Some (s, r)"
proof -
  obtain c s' where s: "s = c # s'" "ascii_digit c" "list_all ascii_digit s'"
    using assms(1) by (cases s) (auto simp: all_digits_def)
  show ?thesis
    using assms(2) s span_digits [OF s(3) assms(3)]
    by (cases "c = 48") (auto simp: read_int_part_def ascii_digit_def)
qed

lemma read_fraction_none: "r = [] \<or> hd r \<noteq> 46 \<Longrightarrow> read_fraction r = ([], r)"
  by (cases r) (auto simp: read_fraction_def)

lemma read_fraction_some:
  "all_digits ds \<Longrightarrow> r = [] \<or> \<not> ascii_digit (hd r) \<Longrightarrow> read_fraction (46 # ds @ r) = (46 # ds, r)"
  using span_digits [of ds r] by (cases ds) (auto simp: read_fraction_def all_digits_def)

lemma read_exponent_none: "r = [] \<or> hd r \<noteq> 101 \<and> hd r \<noteq> 69 \<Longrightarrow> read_exponent r = ([], r)"
  by (cases r) (auto simp: read_exponent_def)

lemma read_exponent_some:
  assumes "c = 101 \<or> c = 69" "sg = [] \<or> sg = [43] \<or> sg = [45]" "all_digits ds" "r = [] \<or> \<not> ascii_digit (hd r)"
  shows "read_exponent (c # sg @ ds @ r) = (c # sg @ ds, r)"
proof -
  obtain d ds' where d: "ds = d # ds'" "ascii_digit d" "list_all ascii_digit ds'"
    using assms(3) by (cases ds) (auto simp: all_digits_def)
  then have n: "d \<noteq> 43" "d \<noteq> 45" by (auto simp: ascii_digit_def)
  show ?thesis
    using assms(1,2) d n span_digits [OF d(3) assms(4)]
    by (elim disjE) (simp_all add: read_exponent_def Let_def)
qed

lemma read_sign_text:
  assumes "sign = [] \<or> sign = [45]" "all_digits s"
  shows "read_sign (sign @ s @ r) = (sign, s @ r)"
proof -
  obtain c s' where "s = c # s'" "ascii_digit c" using assms(2) by (cases s) (auto simp: all_digits_def)
  with assms(1) show ?thesis by (auto simp: read_sign_def ascii_digit_def)
qed

lemma ends_hd: "ends r \<Longrightarrow> r = [] \<or> \<not> ascii_digit (hd r) \<and> hd r \<noteq> 46 \<and> hd r \<noteq> 101 \<and> hd r \<noteq> 69"
  by (auto simp: ends_def ascii_digit_def)

lemma read_number_int: "ends r \<Longrightarrow> read_number L (int_text n @ r) = Some (JInt n, r)"
proof -
  assume r: "ends r"
  have "read_number L (sign @ decimal k @ r) = Some (number_value L sign (decimal k) [], r)"
    if "sign = [] \<or> sign = [45]" for sign k
  proof -
    have "read_int_part (decimal k @ r) = Some (decimal k, r)"
      using ends_hd [OF r] decimal_digits [of k] decimal_hd [of k] by (intro read_int_part_digits) auto
    moreover have "read_fraction r = ([], r)" "read_exponent r = ([], r)"
      using ends_hd [OF r] by (auto intro: read_fraction_none read_exponent_none)
    ultimately show ?thesis
      by (simp add: read_number_def read_sign_text [OF that decimal_digits])
  qed
  from this [of "[]" "nat n"] this [of "[45]" "nat (- n)"] show ?thesis
    by (simp add: int_text_def number_value_def read_decimal_decimal)
qed

lemma read_number_float:
  assumes "json_float_text t" "ends r"
  shows "read_number L (t @ r) = Some (JFloat (float_read L t), r)"
proof -
  from assms(1) obtain sign ds fr ex where t: "t = sign @ ds @ fr @ ex" "sign = [] \<or> sign = [45]" "all_digits ds"
    "hd ds = 48 \<longrightarrow> ds = [48]" and fr: "fr = [] \<or> (\<exists>ds. fr = 46 # ds \<and> all_digits ds)"
    and ex: "ex = [] \<or> (\<exists>c sg ds. ex = c # sg @ ds \<and> (c = 101 \<or> c = 69) \<and>
        (sg = [] \<or> sg = [43] \<or> sg = [45]) \<and> all_digits ds)" and some: "fr \<noteq> [] \<or> ex \<noteq> []"
    unfolding json_float_text_def by blast
  have 3: "read_exponent (ex @ r) = (ex, r)"
  proof (cases "ex = []")
    case False
    with ex obtain c sg ds where e: "ex = c # sg @ ds" "c = 101 \<or> c = 69" "sg = [] \<or> sg = [43] \<or> sg = [45]"
      "all_digits ds" by blast
    show ?thesis
      using read_exponent_some [OF e(2-4), of r] ends_hd [OF assms(2)] by (auto simp: e(1))
  qed (use ends_hd [OF assms(2)] in \<open>auto intro: read_exponent_none\<close>)
  have after: "ex @ r = [] \<or> \<not> ascii_digit (hd (ex @ r)) \<and> hd (ex @ r) \<noteq> 46"
    using ex ends_hd [OF assms(2)] by (auto simp: ascii_digit_def)
  have 2: "read_fraction (fr @ ex @ r) = (fr, ex @ r)"
    using fr after read_fraction_some [of _ "ex @ r"] read_fraction_none [of "ex @ r"] by auto
  have "fr @ ex @ r = [] \<or> \<not> ascii_digit (hd (fr @ ex @ r))"
    using fr after by (auto simp: ascii_digit_def)
  then have 1: "read_int_part (ds @ fr @ ex @ r) = Some (ds, fr @ ex @ r)"
    using t(3,4) by (intro read_int_part_digits) auto
  have "read_sign (t @ r) = (sign, ds @ fr @ ex @ r)"
    unfolding t(1) append_assoc by (rule read_sign_text [OF t(2,3)])
  then show ?thesis
    using some t(1) by (simp add: read_number_def 1 2 3 number_value_def)
qed

text \<open>Strings.\<close>

lemma hex_value_digit [simp]: "n < 16 \<Longrightarrow> hex_value (hex_digit n) = Some n"
  by (auto simp: hex_value_def hex_digit_def)

lemma base16: "(a::nat) * 16 + r = n \<Longrightarrow> b * 16 + r' = a \<Longrightarrow> c * 16 + r'' = b \<Longrightarrow>
    c * 4096 + r'' * 256 + r' * 16 + r = n"
  by linarith

lemma div_mod_hex: "(n::nat) < 65536 \<Longrightarrow>
    n div 4096 mod 16 * 4096 + n div 256 mod 16 * 256 + n div 16 mod 16 * 16 + n mod 16 = n"
proof -
  assume "n < 65536"
  then have "n div 4096 mod 16 = n div 16 div 16 div 16" "n div 256 = n div 16 div 16"
    by (simp_all add: div_mult2_eq [symmetric])
  then show ?thesis
    by (simp only: base16 [OF div_mult_mod_eq div_mult_mod_eq div_mult_mod_eq])
qed

lemma read_hex4_hex4: "n < 65536 \<Longrightarrow> read_hex4 (hex4 n @ r) = Some (n, r)"
  using div_mod_hex [of n] by (simp add: hex4_def)

lemma read_unit_hex4: "n < 0xD800 \<Longrightarrow> read_unit (hex4 n @ r) = Some (n, r)"
  by (simp add: read_unit_def read_hex4_hex4)

lemma read_chars_escape:
  "read_chars (escape_char False c @ r) = map_option (\<lambda>(t, x). (c # t, x)) (read_chars r)"
  using read_unit_hex4 [of c r]
  by (simp add: escape_char_def u_escape_def read_chars_cases plain_escape_def)

lemma read_chars_text: "read_chars (concat (map (escape_char False) s) @ 34 # r) = Some (s, r)"
  by (induction s) (simp_all add: read_chars_cases read_chars_escape)


text \<open>Values: nothing a value starts with is whitespace or closes an array or an object.\<close>

definition starts :: "pystr \<Rightarrow> bool" where
  "starts s = (s \<noteq> [] \<and> hd s < 128 \<and> \<not> is_ws (hd s) \<and> hd s \<notin> {93, 125})"

lemma starts_append [simp]: "starts s \<Longrightarrow> starts (s @ r)"
  by (simp add: starts_def)

lemma starts_skip: "starts s \<Longrightarrow> skip_ws s = s"
  by (cases s) (simp_all add: starts_def)

lemma ends_skip: "ends r \<Longrightarrow> skip_ws r = r"
  by (cases r) (auto simp: ends_def is_ws_def)

lemma digit_start: "ascii_digit c \<or> c = 45 \<Longrightarrow> c < 128 \<and> \<not> is_ws c \<and> c \<notin> {34, 91, 93, 123, 125}"
  by (auto simp: ascii_digit_def is_ws_def)

lemma number_literal: "c = 45 \<and> (\<exists>d x. r = d # x \<and> ascii_digit d) \<or> ascii_digit c \<Longrightarrow> read_literal (c # r) = None"
  by (auto simp: read_literal_def literals_def ustr_def ascii_digit_def)

lemma number_scan:
  assumes "s = sign @ ds @ x" "sign = [] \<or> sign = [45]" "all_digits ds"
  shows "starts s" "0 < n \<Longrightarrow> scan L n (s @ r) = read_number L (s @ r)"
proof -
  obtain d ds' where d: "ds = d # ds'" "ascii_digit d" using assms(3) by (cases ds) (auto simp: all_digits_def)
  obtain c s' where s: "s = c # s'" "ascii_digit c \<or> c = 45"
    "c = 45 \<and> (\<exists>d x. s' = d # x \<and> ascii_digit d) \<or> ascii_digit c"
    using assms(1,2) d by auto
  show "starts s" using digit_start [OF s(2)] s(1) by (simp add: starts_def)
  have "read_literal (c # s' @ r) = None" using s(3) by (intro number_literal) auto
  then show "scan L n (s @ r) = read_number L (s @ r)" if "0 < n"
    using that digit_start [OF s(2)] by (cases n) (auto simp: s(1))
qed

lemma int_text_form: "\<exists>sign. int_text n = sign @ decimal (nat (abs n)) \<and> (sign = [] \<or> sign = [45])"
  by (auto simp: int_text_def)

lemma json_float_text_form:
  "json_float_text t \<Longrightarrow> \<exists>sign ds x. t = sign @ ds @ x \<and> (sign = [] \<or> sign = [45]) \<and> all_digits ds"
  unfolding json_float_text_def by blast

lemma dumps_starts:
  assumes "float_law L" "json_normal v"
  shows "starts (json_dumps L False v)"
proof (cases v)
  case (JInt n)
  obtain sign where "int_text n = sign @ decimal (nat (abs n)) @ []" "sign = [] \<or> sign = [45]"
    using int_text_form [of n] by auto
  from number_scan(1) [OF this decimal_digits] JInt show ?thesis by simp
next
  case (JFloat f)
  show ?thesis
  proof (cases f)
    case (PyFin m e)
    then have "json_float_text (float_text L f)" using assms JFloat by (auto simp: float_law_def)
    then obtain sign ds x where "float_text L f = sign @ ds @ x" "sign = [] \<or> sign = [45]" "all_digits ds"
      using json_float_text_form by blast
    from number_scan(1) [OF this] JFloat PyFin show ?thesis by simp
  qed (auto simp: JFloat starts_def ustr_def is_ws_def)
qed (auto simp: starts_def ustr_def is_ws_def string_text_def)

lemma scan_atoms:
  assumes "0 < n"
  shows "scan L n (ustr ''null'' @ r) = Some (JNull, r)" "scan L n (ustr ''true'' @ r) = Some (JBool True, r)"
    "scan L n (ustr ''false'' @ r) = Some (JBool False, r)" "scan L n (ustr ''NaN'' @ r) = Some (JFloat PyNaN, r)"
    "scan L n (ustr ''Infinity'' @ r) = Some (JFloat (PyInf True), r)"
    "scan L n (ustr ''-Infinity'' @ r) = Some (JFloat (PyInf False), r)"
  using assms by (cases n; simp add: ustr_def read_literal_def literals_def)+

lemma scan_string: "0 < n \<Longrightarrow> scan L n (string_text False s @ r) = Some (JStr s, r)"
  by (cases n) (simp_all add: string_text_def read_chars_text)

lemma scan_int: "0 < n \<Longrightarrow> ends r \<Longrightarrow> scan L n (int_text k @ r) = Some (JInt k, r)"
proof -
  assume a: "0 < n" "ends r"
  obtain sign where "int_text k = sign @ decimal (nat (abs k)) @ []" "sign = [] \<or> sign = [45]"
    using int_text_form [of k] by auto
  from number_scan(2) [OF this decimal_digits a(1)] read_number_int [OF a(2)] show ?thesis by simp
qed

lemma scan_float:
  "float_law L \<Longrightarrow> float_normal f \<Longrightarrow> 0 < n \<Longrightarrow> ends r \<Longrightarrow>
     scan L n (json_dumps L False (JFloat f) @ r) = Some (JFloat f, r)"
proof (cases f)
  case (PyFin m e)
  assume a: "float_law L" "float_normal f" "0 < n" "ends r"
  then have t: "json_float_text (float_text L f)" "float_read L (float_text L f) = f"
    by (simp_all add: float_law_def PyFin)
  then obtain sign ds x where "float_text L f = sign @ ds @ x" "sign = [] \<or> sign = [45]" "all_digits ds"
    using json_float_text_form by blast
  from number_scan(2) [OF this a(3)] read_number_float [OF t(1) a(4)] t(2) show ?thesis by (simp add: PyFin)
qed (simp_all add: scan_atoms)

text \<open>Arrays and objects, the elements being decoded already.\<close>

definition reads_back :: "lib \<Rightarrow> json \<Rightarrow> bool" where
  "reads_back L v \<longleftrightarrow> starts (json_dumps L False v) \<and> (\<forall>n r. ends r \<longrightarrow>
     2 * length (json_dumps L False v @ r) \<le> n \<longrightarrow> scan L n (json_dumps L False v @ r) = Some (v, r))"

lemma comma_join_Cons: "xs \<noteq> [] \<Longrightarrow> comma_join (x # xs) = x @ 44 # comma_join xs"
  by (cases xs) simp_all

lemma starts_comma: "starts x \<Longrightarrow> starts (comma_join (x # xs))"
  by (cases xs) simp_all

lemma scan_items_text:
  assumes "vs \<noteq> []" "\<forall>v\<in>set vs. reads_back L v" "2 * length (comma_join (map (json_dumps L False) vs) @ 93 # r) < n"
  shows "scan_items L n (comma_join (map (json_dumps L False) vs) @ 93 # r) = Some (vs, r)"
  using assms
proof (induction vs arbitrary: n)
  case (Cons v vs)
  then obtain m where n: "n = Suc m" by (cases n) auto
  show ?case
  proof (cases "vs = []")
    case True
    with Cons.prems n show ?thesis by (simp add: reads_back_def is_ws_def)
  next
    case False
    let ?t = "comma_join (map (json_dumps L False) vs) @ 93 # r"
    have "starts ?t" using False Cons.prems(2) by (cases vs) (simp_all add: reads_back_def starts_comma)
    have "scan L m (json_dumps L False v @ 44 # ?t) = Some (v, 44 # ?t)"
      using Cons.prems(2,3) False n by (simp add: reads_back_def comma_join_Cons)
    moreover have "scan_items L m ?t = Some (vs, r)"
      using Cons.prems(2,3) False n by (intro Cons.IH) (simp_all add: comma_join_Cons)
    ultimately show ?thesis
      using False starts_skip [OF \<open>starts ?t\<close>] by (simp add: n comma_join_Cons is_ws_def)
  qed
qed simp

definition member_text :: "lib \<Rightarrow> pystr \<times> json \<Rightarrow> pystr" where
  "member_text L kv = string_text False (fst kv) @ 58 # json_dumps L False (snd kv)"

lemma length_member_text:
  "length (member_text L (k, v)) = length (string_text False k) + 1 + length (json_dumps L False v)"
  by (simp add: member_text_def)

lemma starts_member: "starts (member_text L x)"
  by (simp add: member_text_def string_text_def starts_def is_ws_def)

lemma scan_member_step:
  assumes "starts (json_dumps L False v)" "scan L m (json_dumps L False v @ r) = Some (v, r)" "skip_ws r = c # x"
  shows "scan_members L (Suc m) (member_text L (k, v) @ r) =
     (if c = 125 then Some ([(k, v)], x)
      else if c = 44 then map_option (\<lambda>(ms, y). ((k, v) # ms, y)) (scan_members L m (skip_ws x)) else None)"
  using assms starts_skip [OF starts_append [OF assms(1), of r]]
  by (simp add: member_text_def string_text_def read_chars_text is_ws_def)

lemma scan_members_text:
  assumes "d \<noteq> []" "\<forall>kv\<in>set d. reads_back L (snd kv)" "2 * length (comma_join (map (member_text L) d) @ 125 # r) < n"
  shows "scan_members L n (comma_join (map (member_text L) d) @ 125 # r) = Some (d, r)"
  using assms
proof (induction d arbitrary: n)
  case (Cons kv d)
  obtain k v where kv: "kv = (k, v)" by (cases kv)
  obtain m where n: "n = Suc m" using Cons.prems by (cases n) auto
  have v: "reads_back L v" "starts (json_dumps L False v)" using Cons.prems(2) kv by (auto simp: reads_back_def)
  show ?case
  proof (cases "d = []")
    case True
    have "scan L m (json_dumps L False v @ 125 # r) = Some (v, 125 # r)"
      using v(1) Cons.prems(3) True n by (simp add: reads_back_def kv length_member_text)
    from scan_member_step [OF v(2) this, of 125 r k] show ?thesis
      by (simp add: True n kv is_ws_def del: scan_members.simps)
  next
    case False
    let ?t = "comma_join (map (member_text L) d) @ 125 # r"
    have t: "starts ?t" using False by (cases d) (simp_all add: starts_comma starts_member)
    have "scan L m (json_dumps L False v @ 44 # ?t) = Some (v, 44 # ?t)"
      using v(1) Cons.prems(3) False n by (simp add: reads_back_def comma_join_Cons kv length_member_text)
    from scan_member_step [OF v(2) this, of 44 ?t k]
    have "scan_members L n (member_text L kv @ 44 # ?t) =
        map_option (\<lambda>(ms, y). ((k, v) # ms, y)) (scan_members L m ?t)"
      by (simp add: n kv is_ws_def starts_skip [OF t] del: scan_members.simps)
    moreover have "scan_members L m ?t = Some (d, r)"
      using Cons.prems(2,3) False n by (intro Cons.IH) (simp_all add: comma_join_Cons)
    ultimately show ?thesis
      using False by (simp add: comma_join_Cons kv del: scan_members.simps)
  qed
qed simp

lemma dict_of_distinct: "distinct (map fst (a @ d)) \<Longrightarrow> fold (\<lambda>(k, v). AList.update k v) d a = a @ d"
proof (induction d arbitrary: a)
  case (Cons kv d)
  obtain k v where kv: "kv = (k, v)" by (cases kv)
  have "AList.update k v a = a @ [(k, v)]"
    using Cons.prems kv by (induction a) auto
  with Cons.IH [of "a @ [(k, v)]"] Cons.prems kv show ?case by simp
qed simp

lemma take_starts: "starts s \<Longrightarrow> take 1 (skip_ws s) \<noteq> [93] \<and> take 1 (skip_ws s) \<noteq> [125]"
  by (cases s) (auto simp: starts_def)

lemma dumps_dict: "json_dumps L False (JDict d) = 123 # comma_join (map (member_text L) d) @ [125]"
  by (simp add: member_text_def cong: map_cong)

lemma reads_backI:
  assumes "starts (json_dumps L False v)"
    "\<And>n r. ends r \<Longrightarrow> 0 < n \<Longrightarrow> 2 * length (json_dumps L False v @ r) \<le> n \<Longrightarrow>
      scan L n (json_dumps L False v @ r) = Some (v, r)"
  shows "reads_back L v"
  using assms unfolding reads_back_def starts_def by (metis append_is_Nil_conv length_greater_0_conv nat_0_less_mult_iff
      not_gr_zero zero_less_numeral le_zero_eq)

lemma json_reads_back:
  assumes "float_law L"
  shows "json_normal v \<Longrightarrow> reads_back L v"
proof (induction v)
  case (JStr s)
  show ?case by (rule reads_backI [OF dumps_starts [OF assms JStr.prems]]) (simp add: scan_string)
next
  case (JInt k)
  show ?case by (rule reads_backI [OF dumps_starts [OF assms JInt.prems]]) (simp add: scan_int)
next
  case (JFloat f)
  show ?case
    by (rule reads_backI [OF dumps_starts [OF assms JFloat.prems]])
      (use scan_float [OF assms] JFloat.prems in \<open>simp only: json_normal.simps\<close>)
next
  case (JList vs)
  have all: "\<forall>v\<in>set vs. reads_back L v" using JList by (auto simp: list_all_iff)
  have "scan L n (json_dumps L False (JList vs) @ r) = Some (JList vs, r)"
    if n: "2 * length (json_dumps L False (JList vs) @ r) \<le> n" for n r
  proof (cases "vs = []")
    case True
    with n show ?thesis by (cases n) (simp_all add: is_ws_def)
  next
    case False
    obtain m where m: "n = Suc m" using n by (cases n) auto
    let ?t = "comma_join (map (json_dumps L False) vs) @ 93 # r"
    have t: "starts ?t" using False all by (cases vs) (simp_all add: reads_back_def starts_comma)
    have "scan_items L m ?t = Some (vs, r)"
      using n m by (intro scan_items_text [OF False all]) simp
    then show ?thesis using take_starts [OF t] by (simp add: m starts_skip [OF t])
  qed
  then show ?case by (intro reads_backI [OF dumps_starts [OF assms JList.prems]])
next
  case (JDict d)
  have all: "\<forall>kv\<in>set d. reads_back L (snd kv)" using JDict by (force simp: list_all_iff)
  have "scan L n (json_dumps L False (JDict d) @ r) = Some (JDict d, r)"
    if n: "2 * length (json_dumps L False (JDict d) @ r) \<le> n" for n r
  proof (cases "d = []")
    case True
    with n show ?thesis by (cases n) (simp_all add: is_ws_def)
  next
    case False
    obtain m where m: "n = Suc m" using n by (cases n) auto
    let ?t = "comma_join (map (member_text L) d) @ 125 # r"
    have t: "starts ?t" using False by (cases d) (simp_all add: starts_comma starts_member)
    have "scan_members L m ?t = Some (d, r)"
      using n unfolding m dumps_dict by (intro scan_members_text [OF False all]) simp
    then show ?thesis
      using take_starts [OF t] dict_of_distinct [of "[]" d] JDict.prems
      unfolding dumps_dict by (simp add: m starts_skip [OF t])
  qed
  then show ?case by (intro reads_backI [OF dumps_starts [OF assms JDict.prems]])
next
  case (JBool b)
  show ?case by (rule reads_backI [OF dumps_starts [OF assms JBool.prems]]) (simp add: scan_atoms)
next
  case JNull
  show ?case by (rule reads_backI [OF dumps_starts [OF assms JNull.prems]]) (simp add: scan_atoms)
qed

lemma loads_dumps:
  assumes "float_law L" "json_normal v"
  shows "json_loads L (json_dumps L False v) = Some v"
proof -
  let ?t = "json_dumps L False v"
  have b: "reads_back L v" by (rule json_reads_back [OF assms])
  then have s: "starts ?t" by (simp add: reads_back_def)
  have "ends []" "2 * length (?t @ []) \<le> 2 * length ?t + 1" by simp_all
  with b have "scan L (2 * length ?t + 1) (?t @ []) = Some (v, [])" unfolding reads_back_def by blast
  then have "scan L (2 * length ?t + 1) ?t = Some (v, [])" by (simp only: append_Nil2)
  moreover have "take 1 ?t \<noteq> [0xFEFF]" using s by (cases ?t) (auto simp: starts_def)
  ultimately show ?thesis
    unfolding json_loads_def starts_skip [OF s] by (simp only: option.case prod.case if_False) simp
qed
end
