(* ===== verification/Samples.thy ===== *)
theory Samples
  imports HostReach Json_Text "HOL-Library.Code_Target_Nat"
begin

text \<open>
  Concrete data for the witnesses: one instance of the outside functions (a decimal summary of the value in the
  place of the canonical text, and a 32-byte checksum in the place of SHA-256), an audit event of each kind, and hosts over the
  in-memory repository. No theorem about the program depends on this instance.
\<close>

section \<open>A library instance\<close>

definition weigh_str :: "pystr \<Rightarrow> nat" where
  "weigh_str s = fold (+) s 7"

fun weigh :: "json \<Rightarrow> nat" where
  "weigh JNull = 1"
| "weigh (JBool b) = (if b then 2 else 3)"
| "weigh (JInt n) = nat (abs n) + 4"
| "weigh (JFloat f) = 5"
| "weigh (JStr s) = weigh_str s"
| "weigh (JList xs) = weigh_str (11 # map weigh xs)"
| "weigh (JDict d) = weigh_str (13 # concat (map (\<lambda>kv. [weigh_str (fst kv), weigh (snd kv)]) d))"

definition checksum :: "byte list \<Rightarrow> byte list" where
  "checksum bs = (let n = fold (\<lambda>b a. (a * 31 + uint b) mod 65521) bs (7::int)
     in replicate 30 0 @ [word_of_int (n div 256), word_of_int n])"

text \<open>A float as the decimal text of its two integers: \<open>m.0e<e>\<close>.\<close>

definition sample_float_text :: "pyfloat \<Rightarrow> pystr" where
  "sample_float_text f = (case f of PyFin m e \<Rightarrow> int_text m @ [46, 48, 101] @ int_text e | _ \<Rightarrow> [])"

definition sample_int :: "pystr \<Rightarrow> int" where
  "sample_int s = (if take 1 s = [45] then - int (read_decimal (drop 1 s)) else int (read_decimal s))"

definition sample_float_read :: "pystr \<Rightarrow> pyfloat" where
  "sample_float_read s =
     PyFin (sample_int (takeWhile (\<lambda>c. c \<noteq> 46) s)) (sample_int (drop 3 (dropWhile (\<lambda>c. c \<noteq> 46) s)))"

definition sample_lib :: lib where
  "sample_lib = \<lparr>jcs = (\<lambda>v. Some (utf8 (decimal (weigh v)))), sha256 = checksum,
     is_nd = (\<lambda>c. 48 \<le> c \<and> c \<le> 57), float_text = sample_float_text, float_read = sample_float_read\<rparr>"

lemma sample_int_text: "sample_int (int_text n) = n"
proof -
  have "take 1 (decimal k) \<noteq> [45]" for k
    using decimal_digits [of k] by (cases "decimal k") (auto simp: all_digits_def ascii_digit_def)
  then show ?thesis by (simp add: sample_int_def int_text_def read_decimal_decimal)
qed

lemma int_text_no_point: "c \<in> set (int_text n) \<Longrightarrow> c \<noteq> 46"
  using decimal_digits [of "nat n"] decimal_digits [of "nat (- n)"]
  by (auto simp: int_text_def all_digits_def ascii_digit_def list_all_iff split: if_splits)

lemma sample_float_law: "float_law sample_lib"
proof -
  have "json_float_text (sample_float_text (PyFin m e))" for m e
  proof -
    obtain sign where m: "int_text m = sign @ decimal (nat (abs m))" "sign = [] \<or> sign = [45]"
      using int_text_form [of m] by blast
    obtain sg where e: "int_text e = sg @ decimal (nat (abs e))" "sg = [] \<or> sg = [45]"
      using int_text_form [of e] by blast
    show ?thesis
      unfolding json_float_text_def
    proof (intro exI conjI)
      show "sample_float_text (PyFin m e) =
          sign @ decimal (nat (abs m)) @ (46 # [48]) @ 101 # sg @ decimal (nat (abs e))"
        by (simp add: sample_float_text_def m(1) e(1))
      show "all_digits (decimal (nat \<bar>m\<bar>))" by (rule decimal_digits)
      show "hd (decimal (nat \<bar>m\<bar>)) = 48 \<longrightarrow> decimal (nat \<bar>m\<bar>) = [48]"
        unfolding decimal_hd by simp
      show "[46, 48] = [] \<or> (\<exists>ds. [46, 48] = 46 # ds \<and> all_digits ds)"
        by (simp add: all_digits_def ascii_digit_def)
      show "101 # sg @ decimal (nat \<bar>e\<bar>) = [] \<or> (\<exists>c sg' ds. 101 # sg @ decimal (nat \<bar>e\<bar>) = c # sg' @ ds \<and>
          (c = 101 \<or> c = 69) \<and> (sg' = [] \<or> sg' = [43] \<or> sg' = [45]) \<and> all_digits ds)"
        using e(2) decimal_digits [of "nat \<bar>e\<bar>"] by blast
    qed (use m(2) in simp_all)
  qed
  moreover have "sample_float_read (sample_float_text (PyFin m e)) = PyFin m e" for m e
    by (simp add: sample_float_read_def sample_float_text_def takeWhile_append dropWhile_append int_text_no_point
        sample_int_text numeral_3_eq_3)
  ultimately show ?thesis by (simp add: float_law_def sample_lib_def)
qed

definition ascii :: "pystr \<Rightarrow> bool" where
  "ascii s \<longleftrightarrow> (\<forall>c\<in>set s. c < 128)"

lemma ascii_scalars: "ascii s \<Longrightarrow> scalars s"
  by (auto simp: ascii_def scalars_def is_scalar_def is_surrogate_def list_all_iff)

lemma ascii_append [simp]: "ascii (s @ t) = (ascii s \<and> ascii t)" "ascii []" "ascii (c # s) = (c < 128 \<and> ascii s)"
  by (auto simp: ascii_def)

lemma ascii_nat [simp]: "ascii (decimal n)"
proof (induction n rule: decimal.induct)
  case (1 n)
  have "n mod 10 < 10" by simp
  then have "48 + n mod 10 < 128" by linarith
  with 1 show ?case by (subst decimal.simps) simp
qed

lemma sample_total: "jcs_total sample_lib"
  unfolding jcs_total_def using ascii_scalars [OF ascii_nat] by (auto simp: sample_lib_def)

section \<open>Events\<close>

definition sample_sid :: pystr where
  "sample_sid = ustr ''0190a1b2-1111-4111-8111-0123456789ab''"

definition sample_id :: pystr where
  "sample_id = ustr ''0190a1b2-2222-4222-8222-0123456789ab''"

definition sample_event :: "outcome \<Rightarrow> jobj" where
  "sample_event out = [
     (ID, JStr sample_id), (SPEC_VERSION_F, JStr SPEC_VERSION), (TS, JStr (ustr ''2026-01-02T03:04:05Z'')),
     (SESSION_ID, JStr sample_sid), (ACTION_TYPE, JStr (ustr ''db.write'')), (MUTATES, JBool True), (EGRESS, JBool False),
     (TARGET_RESOURCE, JDict [(KIND, JStr (ustr ''table'')), (REF, JStr (ustr ''orders''))]),
     (OUTCOME, JStr (outcome_str out))]"

lemma sample_valid: "first_validation_error sample_lib (JDict (sample_event ATTEMPTED)) = None"
  by code_simp

lemma sample_domain: "\<not> outside_canonical_domain (JDict (sample_event ATTEMPTED))"
  by code_simp

section \<open>Hosts\<close>

definition sample_partition :: pystr where
  "sample_partition = ustr ''tenant''"

definition sample_clock :: "('w, pystr) prog" where
  "sample_clock = ret (ustr ''2026-01-02T03:04:06Z'')"

definition sample_seams :: "memory seams" where
  "sample_seams = \<lparr>verifier = None, countersigner = None, repository = Some memory_repository, clock = sample_clock\<rparr>"

definition sample_host :: "memory host" where
  "sample_host = (case new_host sample_partition host_capability_defaults sample_seams None Map.empty of
     Inr h \<Rightarrow> snd (open_session sample_sid h))"

lemma sample_env: "env_ok mem_stored sample_seams"
  using mem.ledger_repository_axioms
  by (simp add: env_ok_def sample_seams_def sample_clock_def frame_def ret_def)

lemma sample_new: "new_host sample_partition host_capability_defaults sample_seams None Map.empty =
    Inr (case new_host sample_partition host_capability_defaults sample_seams None Map.empty of Inr h \<Rightarrow> h)"
  by (simp add: new_host_def host_capability_defaults_def sample_seams_def)

lemma sample_reachable: "reachable mem_stored sample_lib L1 [] sample_host"
proof -
  obtain h where h: "new_host sample_partition host_capability_defaults sample_seams None Map.empty = Inr h"
    using sample_new by blast
  have "reachable mem_stored sample_lib L1 [] h"
    by (rule built [OF h _ sample_env]) (simp_all add: host_capability_defaults_def mem_stored_def)
  from call [OF this, of "CallOpen sample_sid"] show ?thesis
    by (simp add: sample_host_def h run_call_def)
qed

end
