(* ===== verification/HostProperties.thy ===== *)
theory HostProperties
  imports Samples
begin

text \<open>
  The properties of the audit host, each with a witness over the in-memory repository. \<open>reachable\<close>
  ranges over every sequence of calls and restarts, so a property of a reachable host holds across
  lost acknowledgements, cancellations and crashes.
\<close>

section \<open>The log a host keeps\<close>

text \<open>
  C1. Every reachable host's chain is well formed from genesis (positions, links, record hashes), every
  sealed event is valid, and the log is in order: one attempt per event id, one terminal record per operation
  and nothing of the operation after it, no success or failed outcome without its sealed attempt, and at
  Level 2 no signer number sealed twice in a session. This survives restarts and lost acknowledgements.
\<close>

theorem host_log_integrity:
  assumes "jcs_total L" "reachable stored L lv base h"
  shows "chain_from L 0 GENESIS_HASH (records base h) \<and> log_ok lv (events base h) \<and>
    (\<forall>r\<in>set (records base h). first_validation_error L (JDict (rec_event r)) = None)"
  using reachable_safe [OF assms] by (auto simp: host_safe_def host_inv_def log_inv_def good_def)

theorem host_log_integrity_witness:
  "chain_from sample_lib 0 GENESIS_HASH (records [] sample_host) \<and> log_ok L1 (events [] sample_host)"
  using host_log_integrity [OF sample_total sample_reachable] by blast

text \<open>
  C8. The repository never holds anything but the host's chain, or that chain and the one record whose
  append was left in doubt; and what it holds is itself a valid log, so a restart from it starts well.
\<close>

theorem stored_chain_valid:
  assumes "jcs_total L" "reachable stored L lv base h" "repository (h_seams h) \<noteq> None"
  shows "log_inv L lv (held stored h) \<and>
    (held stored h = records base h \<or> h_tail_uncertain h \<and> (\<exists>r. held stored h = records base h @ [r]))"
proof -
  have safe: "host_safe stored L base h" and lv: "host_level h = lv"
    using reachable_safe [OF assms(1,2)] by simp_all
  have "log_inv L lv (held stored h)" using stored_log [OF safe assms(3)] lv by simp
  with safe assms(3) show ?thesis by (auto simp: host_safe_def store_ok_def)
qed

lemma sample_repository: "repository (h_seams sample_host) = Some memory_repository"
  using sample_new
  by (simp add: sample_host_def new_host_def host_capability_defaults_def sample_seams_def open_session_def
      withS_def thenM_def modify_def ret_def)

theorem stored_chain_valid_witness: "log_inv sample_lib L1 (held mem_stored sample_host)"
  using stored_chain_valid [OF sample_total sample_reachable] sample_repository by simp

section \<open>What an answer to an attempt means\<close>

text \<open>At Level 1 a fresh attempt of an open session passes every check and comes to be sealed.\<close>

lemma attempt_reaches_seal:
  assumes "first_validation_error L (JDict e) = None" "\<not> outside_canonical_domain (JDict e)" "attempted e"
    and "dget e SESSION_ID = JStr sid" "h_sessions h sid \<noteq> None" "host_level h = L1" "\<not> h_tail_uncertain h"
    and "h_persistence_available h" "h_sealed_attempts h (event_id e) = None"
    and "ss_outcomes (session_of_id h sid) (event_id e) = None"
  shows "handle_attempt L e None False h = thenM (seal_now L e) (sealed_attempt L e sid) h"
proof -
  have settle: "settle_tail L h = (Ret True, h)"
    using assms(7) by (simp add: settle_tail_def withS_def ret_def split: option.split)
  obtain s where s: "h_sessions h sid = Some s" using assms(5) by blast
  have admit: "admit L e None True h = (Ret (Inr sid), h)"
    by (simp add: admit_def session_of_def assms(1-4) s thenM_def withS_def ret_def Let_def)
  have verify: "verify_signature e sid h = (Ret None, h)" and replay: "check_replay e sid h = (Ret None, h)"
    using assms(6) by (simp_all add: verify_signature_def check_replay_def host_level_def withS_def ret_def)
  have new: "attempt_new L e sid h = thenM (seal_now L e) (sealed_attempt L e sid) h"
    using assms(8) by (simp add: attempt_new_def thenM_def [of "check_replay e sid"] replay withS_def)
  show ?thesis
    using assms(9,10) new
    by (simp add: handle_attempt_def handle_attempt_locked_def handle_admitted_attempt_def thenM_def [of "settle_tail L"]
        thenM_def [of "admit L e None True"] thenM_def [of "verify_signature e sid"] settle admit verify withS_def)
qed

text \<open>
  C2. Audit before act: when the host answers accept, the answer is the fields of a sealed record of the very
  attempt that was sent (the same canonical text), and the repository holds the whole chain, that record
  included, before the answer is given.
\<close>

theorem accept_means_stored:
  assumes "jcs_total L" "reachable stored L lv base h"
    and run: "handle_attempt L event expected expired h = (Ret (Accept a), h')"
  shows "\<exists>r\<in>set (records base h'). a = accept_fields r \<and>
      canonicalize L (JDict (rec_event r)) = canonicalize L (JDict event) \<and>
      (repository (h_seams h') \<noteq> None \<longrightarrow> held stored h' = records base h')"
proof -
  have safe: "host_safe stored L base h" using reachable_safe [OF assms(1,2)] by simp
  from wp_Ret [OF handle_attempt_ok [OF assms(1) safe] run]
  obtain h0 where "attempt_post stored L base event h0 (Accept a) h'" by (auto simp: handled_def)
  then show ?thesis
    by (auto simp: attempt_post_def host_exact_def store_exact_def)
qed

lemma sample_accepts:
  "\<exists>a h'. handle_attempt sample_lib (sample_event ATTEMPTED) None False sample_host = (Ret (Accept a), h')"
proof -
  have "case fst (handle_attempt sample_lib (sample_event ATTEMPTED) None False sample_host) of
      Ret (Accept a) \<Rightarrow> acc_seq a = 0 | _ \<Rightarrow> False"
    by code_simp
  then show ?thesis
    by (cases "handle_attempt sample_lib (sample_event ATTEMPTED) None False sample_host")
      (auto split: pyres.splits response.splits)
qed

theorem accept_means_stored_witness:
  "\<exists>a h'. handle_attempt sample_lib (sample_event ATTEMPTED) None False sample_host = (Ret (Accept a), h') \<and>
     (\<exists>r\<in>set (records [] h'). a = accept_fields r)"
proof -
  obtain a h' where run:
    "handle_attempt sample_lib (sample_event ATTEMPTED) None False sample_host = (Ret (Accept a), h')"
    using sample_accepts by blast
  from accept_means_stored [OF sample_total sample_reachable run] run show ?thesis by blast
qed

text \<open>
  A reject seals nothing; an unavailable seals nothing and decides nothing: no session's accepted,
  resolved, outcome or decided numbers change, so the identical attempt may be sent again.
\<close>

theorem not_accepted_seals_nothing:
  assumes "jcs_total L" "reachable stored L lv base h" "\<not> h_tail_uncertain h"
    and run: "handle_attempt L event expected expired h = (Ret resp, h')" "\<forall>a. resp \<noteq> Accept a"
  shows "records base h' = records base h \<and> (resp = Unavailable \<longrightarrow> tracked h h')"
proof -
  have safe: "host_safe stored L base h" using reachable_safe [OF assms(1,2)] by simp
  show ?thesis
    using wp_Ret [OF handle_attempt_ok [OF assms(1) safe] run(1)] run(2) assms(3)
    by (auto simp: handled_def settled_from_def attempt_post_def split: response.splits dest: tracked_records)
qed

lemma run_expired: "handle_attempt L event expected True h = (Ret Unavailable, h)"
  by (simp add: handle_attempt_def ret_def)

lemma sample_certain: "\<not> h_tail_uncertain sample_host"
  using sample_new
  by (simp add: sample_host_def new_host_def host_capability_defaults_def sample_seams_def open_session_def
      withS_def thenM_def modify_def ret_def)

theorem not_accepted_seals_nothing_witness:
  "handle_attempt sample_lib (sample_event SUCCESS) None True sample_host = (Ret Unavailable, sample_host) \<and>
     tracked sample_host sample_host"
  using not_accepted_seals_nothing [OF sample_total sample_reachable sample_certain run_expired]
  by (simp add: run_expired)


text \<open>A host whose clock read is cancelled: the attempt handler raises.\<close>

definition cancelled_seams :: "unit seams" where
  "cancelled_seams = \<lparr>verifier = None, countersigner = None, repository = None,
     clock = raise Cancelled\<rparr>"

definition cancelled_host :: "unit host" where
  "cancelled_host = (case new_host sample_partition host_capability_defaults
       cancelled_seams None () of Inr h \<Rightarrow> snd (open_session sample_sid h))"

lemma cancelled_reachable: "reachable (\<lambda>_ _. []) L L1 [] cancelled_host" "\<not> h_tail_uncertain cancelled_host"
proof -
  obtain h where h: "new_host sample_partition host_capability_defaults
      cancelled_seams None () = Inr h"
    by (simp add: new_host_def host_capability_defaults_def cancelled_seams_def)
  have "reachable (\<lambda>_ _. []) L L1 [] h"
    by (rule built [OF h]) (simp_all add: host_capability_defaults_def env_ok_def cancelled_seams_def frame_def raise_def)
  from call [OF this, of "CallOpen sample_sid"] show "reachable (\<lambda>_ _. []) L L1 [] cancelled_host"
    by (simp add: cancelled_host_def h run_call_def)
  show "\<not> h_tail_uncertain cancelled_host"
    using new_host_fields [OF h]
    by (simp add: cancelled_host_def h open_session_def withS_def thenM_def modify_def ret_def)
qed

lemma cancelled_run:
  "\<exists>h'. handle_attempt sample_lib (sample_event ATTEMPTED) None False cancelled_host = (Exc Cancelled, h')"
proof -
  obtain h where h: "new_host sample_partition host_capability_defaults cancelled_seams None () = Inr h"
    by (simp add: new_host_def host_capability_defaults_def cancelled_seams_def)
  have c: "cancelled_host = h\<lparr>h_issued := {sample_sid}, h_sessions := [sample_sid \<mapsto> new_session]\<rparr>"
    using new_host_fields [OF h]
    by (simp add: cancelled_host_def h open_session_def withS_def thenM_def modify_def ret_def)
  have "handle_attempt sample_lib (sample_event ATTEMPTED) None False cancelled_host =
      thenM (seal_now sample_lib (sample_event ATTEMPTED)) (sealed_attempt sample_lib (sample_event ATTEMPTED) sample_sid)
        cancelled_host"
    by (rule attempt_reaches_seal [OF sample_valid sample_domain])
      (use new_host_fields [OF h] in \<open>simp_all add: c sample_event_def outcome_is_def session_of_id_def or_default_def
        new_session_def host_level_def host_capability_defaults_def\<close>)
  then show ?thesis
    using new_host_fields [OF h]
    by (simp add: c seal_now_def withS_def thenM_def outside_def cancelled_seams_def raise_def)
qed


section \<open>What became of an outcome\<close>


lemma sample_sealed_abort:
  "\<exists>h'. record_outcome sample_lib ((REASON, JStr (code_str HOST_UNAVAILABLE)) # sample_event ABORTED) None sample_host = (Ret SEALED, h')"
proof -
  have "case fst (record_outcome sample_lib ((REASON, JStr (code_str HOST_UNAVAILABLE)) # sample_event ABORTED) None sample_host) of
      Ret d \<Rightarrow> d = SEALED | _ \<Rightarrow> False"
    by code_simp
  then show ?thesis
    by (cases "record_outcome sample_lib ((REASON, JStr (code_str HOST_UNAVAILABLE)) # sample_event ABORTED) None sample_host")
      (auto split: pyres.splits)
qed


section \<open>Exactly once\<close>


text \<open>A host that has sealed an attempt and its outcome.\<close>

definition busy_host :: "memory host" where
  "busy_host = run_call sample_lib (CallOutcome (sample_event SUCCESS) None)
     (run_call sample_lib (CallAttempt (sample_event ATTEMPTED) None False) sample_host)"

lemma busy_reachable: "reachable mem_stored sample_lib L1 [] busy_host"
  unfolding busy_host_def by (intro call sample_reachable)

lemma busy_events: "map (\<lambda>r. dget (rec_event r) OUTCOME) (records [] busy_host) =
    [JStr (outcome_str ATTEMPTED), JStr (outcome_str SUCCESS)]"
  by code_simp


end
