(* ===== verification/VerifyProperties.thy ===== *)
theory VerifyProperties
  imports HostVerify HostProperties
begin

text \<open>
  The properties of the offline verifier, alone and over the host: what an absence of issues means, what
  an anchored digest adds, when the verifier raises, and that its accounting of signer numbers is the one
  the specification pins.
\<close>

section \<open>Host and verifier\<close>



section \<open>What a report means\<close>

text \<open>
  C9. The verifier is sound and complete for the chain: it reports no gap, hash or schema issue exactly
  when positions count up from zero, every record links to the one before it and every stored hash is the hash of
  the record's own body; and then the digest it computes is the chain's tail.
\<close>

theorem verify_chain_sound_complete:
  assumes "verify_chain L opts rs anchored = Inr report"
  shows "(kinds (vr_issues report) \<inter> {SEQ_GAP, RECORD_HASH_MISMATCH, SCHEMA_INVALID} = {} \<longleftrightarrow>
      chain_from L 0 GENESIS_HASH rs) \<and>
    (chain_from L 0 GENESIS_HASH rs \<longrightarrow> vr_computed_digest report = chain_tail GENESIS_HASH rs)"
  using verify_chain_iff(1,2) [OF assms] by (simp add: chain_kinds_def)

definition gap_record :: sealed_record where
  "gap_record = \<lparr>rec_event = [], rec_seqno = 7, rec_host_ts = [], rec_previous_hash = GENESIS_HASH,
     rec_record_hash = GENESIS_HASH, rec_host_signature = None, rec_host_key_id = None, rec_log_id = None\<rparr>"

lemma gap_hash_safe: "hash_safe (vo_adapter default_options) gap_record"
  by (simp add: hash_safe_def default_options_def default_adapter_def gap_record_def top_level_id_def outcome_is_def)

theorem verify_chain_sound_complete_witness:
  "\<exists>report. verify_chain sample_lib default_options [gap_record] None = Inr report \<and>
     kinds (vr_issues report) \<inter> {SEQ_GAP, RECORD_HASH_MISMATCH, SCHEMA_INVALID} \<noteq> {}"
proof -
  obtain report where report: "verify_chain sample_lib default_options [gap_record] None = Inr report"
    using verify_chain_returns [of "[gap_record]" default_options sample_lib None] gap_hash_safe
    by (auto simp: default_options_def)
  moreover have "\<not> chain_from sample_lib 0 GENESIS_HASH [gap_record]" by (simp add: gap_record_def)
  ultimately show ?thesis using verify_chain_sound_complete [OF report] by blast
qed


text \<open>The sample's ledger verifies with no issue at all.\<close>

lemma busy_unnumbered: "list_all (\<lambda>r. dget (rec_event r) SIGNER_SEQ = JNull) (records [] busy_host)"
  by code_simp

lemma unnumbered_gaps:
  "\<forall>v\<in>set vs. inner_numbered v = None \<Longrightarrow> account_events vs acc = Inr acc' \<Longrightarrow> ac_groups acc' = ac_groups acc"
proof (induction vs arbitrary: acc)
  case (Cons v vs)
  then obtain acc1 where "account_event v acc = Inr acc1" "account_events vs acc1 = Inr acc'"
    by (auto split: sum.splits)
  moreover from this(1) have "ac_groups acc1 = ac_groups acc"
    using Cons.prems(1) by (cases v) (auto simp: account_event_def inner_numbered_def Let_def split: if_splits)
  ultimately show ?case using Cons by simp
qed simp

lemma busy_report:
  "\<exists>report. verify_chain sample_lib default_options (records [] busy_host) (Some (chain_tail GENESIS_HASH (records [] busy_host)))
     = Inr report \<and> vr_ok report"
proof -
  let ?rs = "records [] busy_host"
  have log: "log_inv sample_lib L1 ?rs"
    using reachable_safe [OF sample_total busy_reachable] by (auto simp: host_safe_def host_inv_def)
  have numbers: "inner_numbered (JDict (rec_event r)) = None" if "r \<in> set ?rs" for r
    using busy_unnumbered that by (auto simp: list_all_iff inner_numbered_def numbered_def count_of_def split: json.split)
  obtain report where r: "verify_ledger sample_lib default_options ?rs (Some (chain_tail GENESIS_HASH ?rs)) = Inr report"
    "kinds (vr_issues report) \<subseteq> {SIGNER_SEQ_GAP, REPLAY_DETECTED}"
    using log_inv_verified [OF log] by auto
  from r(1) obtain report' where v: "verify_chain sample_lib default_options ?rs (Some (chain_tail GENESIS_HASH ?rs)) = Inr report'"
    "set (vr_issues report') \<subseteq> set (vr_issues report)"
    by (auto simp: verify_ledger_def Let_def split: sum.splits if_splits)
  from v(1) obtain st gaps where g:
    "unaccounted_signer_seq (map (\<lambda>r. event_of (vo_adapter default_options) (rec_event r)) ?rs) = Inr gaps"
    "vr_issues report' = vs_issues st @ gap_issues gaps @ digest_issues (Some (chain_tail GENESIS_HASH ?rs)) (vs_prev st)"
    "vr_ok report' = (vr_issues report' = [])" "check_records sample_lib default_options 0 ?rs initial_vstate = Inr st"
    by (rule verify_chain_Inr)
  have "gaps = []"
    using g(1) unnumbered_gaps [of "map (\<lambda>r. JDict (rec_event r)) ?rs" "\<lparr>ac_attempts = [], ac_groups = []\<rparr>"] numbers
    by (auto simp: unaccounted_signer_seq_def default_options_def split: sum.splits if_splits)
  have "record_numbers (vo_adapter default_options) ?rs = []"
    using numbers by (auto simp: record_numbers_def default_options_def List.map_filter_def filter_empty_conv)
  then have "REPLAY_DETECTED \<notin> kinds (vr_issues report')" using verify_chain_replay [OF v(1)] by simp
  moreover have "SIGNER_SEQ_GAP \<notin> kinds (vr_issues report')"
    using check_records_other [OF g(4)] default_other log g(2) \<open>gaps = []\<close>
    by (auto simp: log_inv_def gap_issues_def digest_issues_def chain_kinds_def split: if_splits)
  moreover have "kinds (vr_issues report') \<subseteq> kinds (vr_issues report)"
    unfolding kinds_def using v(2) by (rule image_mono)
  ultimately have "kinds (vr_issues report') = {}" using r(2) by auto
  then have "vr_ok report'" using g(3) by (simp add: kinds_def)
  with v(1) show ?thesis by blast
qed


text \<open>
  C21. A replay is reported exactly when two records carry one key, session and number; an orphan exactly
  when a terminal outcome that is not aborted has no attempt of its operation before it.
\<close>

theorem replays_and_orphans_exact:
  assumes "verify_chain L opts rs anchored = Inr report"
  shows "(REPLAY_DETECTED \<in> kinds (vr_issues report) \<longleftrightarrow> \<not> distinct (record_numbers (vo_adapter opts) rs)) \<and>
    (ORPHANED_OUTCOME \<in> kinds (vr_issues report) \<longleftrightarrow>
      (\<exists>i<length rs. \<exists>k. id_of (vo_adapter opts) (rec_event (rs ! i)) = Some k \<and>
        \<not> is_attempt (vo_adapter opts) (rec_event (rs ! i)) \<and> \<not> is_aborted (event_of (vo_adapter opts) (rec_event (rs ! i))) \<and>
        (\<forall>j<i. \<forall>k'. is_attempt (vo_adapter opts) (rec_event (rs ! j)) \<longrightarrow>
           id_of (vo_adapter opts) (rec_event (rs ! j)) = Some k' \<longrightarrow> \<not> key_eq k k')))"
  using verify_chain_replay [OF assms] verify_chain_orphan [OF assms]
  by (simp add: orphan_in_iff key_in_def)

theorem replays_and_orphans_exact_witness:
  "\<exists>report. verify_chain sample_lib default_options (records [] busy_host)
      (Some (chain_tail GENESIS_HASH (records [] busy_host))) = Inr report \<and> ORPHANED_OUTCOME \<notin> kinds (vr_issues report) \<and>
      distinct (record_numbers (vo_adapter default_options) (records [] busy_host))"
proof -
  obtain report where r: "verify_chain sample_lib default_options (records [] busy_host)
      (Some (chain_tail GENESIS_HASH (records [] busy_host))) = Inr report" "vr_ok report"
    using busy_report by blast
  then have "kinds (vr_issues report) = {}" by (elim verify_chain_Inr) simp
  then show ?thesis using r(1) replays_and_orphans_exact [OF r(1)] by auto
qed

section \<open>When the verifier raises\<close>

text \<open>
  C22. The verifier returns a report for every list of records whose correlation members can be hashed,
  whatever else is in them: hashes that do not match, events outside the canonicalization domain or the schema.
\<close>

theorem verify_ledger_returns:
  assumes "\<forall>r\<in>set rs. hash_safe (vo_adapter opts) r"
    and "\<forall>p. vo_expected_principal opts = Some p \<longrightarrow> is_primitive p"
  shows "\<exists>report. verify_ledger L opts rs anchored = Inr report \<and> vr_count report = length rs"
proof -
  obtain report where r: "verify_chain L opts rs anchored = Inr report"
    using verify_chain_returns [OF assms] by blast
  then have "vr_count report = length rs" by (rule verify_chain_Inr) simp
  with r show ?thesis by (simp add: verify_ledger_def Let_def)
qed

theorem verify_ledger_returns_witness:
  "\<exists>report. verify_ledger sample_lib default_options [gap_record] None = Inr report \<and> vr_count report = 1"
  using verify_ledger_returns [of "[gap_record]" default_options sample_lib None] gap_hash_safe
  by (simp add: default_options_def)

text \<open>
  But a stored record whose \<open>id\<close> is a list (or an object) is not reported: the verifier raises \<open>TypeError\<close>
  on it, because the correlation key is put in a set. Its documentation says that nothing raises.
\<close>

theorem verify_ledger_raises_on_unhashable_id:
  "verify_ledger L default_options [gap_record\<lparr>rec_event := [(ID, JList [])]\<rparr>] anchored = Inl TypeError"
  by (simp add: verify_ledger_def verify_chain_def default_options_def default_adapter_def check_record_def
      check_correlation_def top_level_id_def get_or_def gap_record_def)

section \<open>The accounting of signer numbers\<close>

text \<open>
  The missing numbers are exactly those from 0 to the largest sealed that are not sealed, as maximal
  runs in ascending order.
\<close>

theorem missing_runs_exact:
  assumes "finite present" "present \<noteq> {}" "\<forall>v\<in>present. 0 \<le> v"
  shows "values_of (missing_runs present) = {0..Max present} - present \<and> runs_ok 0 (missing_runs present)"
  using missing_runs_values [OF assms] by blast

theorem missing_runs_exact_witness:
  "values_of (missing_runs {1, 2, 5}) = {0, 3, 4}"
proof -
  have "values_of (missing_runs {1, 2, 5}) = {0..5} - {1, 2, 5}"
    using missing_runs_exact [of "{1, 2, 5}"] by simp
  also have "{0..5} = {0, 1, 2, 3, 4, 5::int}" by auto
  finally show ?thesis by (simp add: insert_Diff_if)
qed

text \<open>
  The accounting by runs is the reference accounting by values: each refusal, in order, takes the
  smallest missing value below its own, and what is left is what remains, still as maximal runs.
\<close>

theorem accounting_equivalent:
  assumes "runs_ok low missing"
  shows "values_of (account refusals missing) = fold take_smallest refusals (values_of missing) \<and>
    runs_ok low (account refusals missing)"
  using account_values [OF assms] .

theorem accounting_equivalent_witness:
  "values_of (account [2, 9] [(0, 1), (4, 6)]) = fold take_smallest [2, 9] {0, 1, 4, 5, 6}"
proof -
  have "{0..1::int} = {0, 1}" "{4..6::int} = {4, 5, 6}" by auto
  then have "values_of [(0, 1), (4, 6)] = {0, 1, 4, 5, 6}" by (simp add: insert_commute)
  then show ?thesis using accounting_equivalent [of 0 "[(0, 1), (4, 6)]" "[2, 9]"] by simp
qed

section \<open>Versions, countersignatures, identity\<close>

definition version_ranks :: "adapter \<Rightarrow> sealed_record list \<Rightarrow> nat list" where
  "version_ranks A rs = map fst (List.map_filter (\<lambda>r. version_of (event_of A (rec_event r))) rs)"

lemma version_ranks_Cons:
  "version_ranks A [] = []"
  "version_ranks A (r # rs) = (case version_of (event_of A (rec_event r)) of
     None \<Rightarrow> version_ranks A rs | Some x \<Rightarrow> fst x # version_ranks A rs)"
  by (auto simp: version_ranks_def map_filter_simps split: option.split)

lemma version_regressions_from_Nil:
  "version_regressions_from A latest rs = [] \<longleftrightarrow>
     sorted ((case latest of None \<Rightarrow> [] | Some x \<Rightarrow> [fst x]) @ version_ranks A rs)"
proof (induction rs arbitrary: latest)
  case (Cons r rs)
  show ?case
  proof (cases "version_of (event_of A (rec_event r))")
    case (Some x)
    obtain n v where x: "x = (n, v)" by (cases x)
    show ?thesis
    proof (cases latest)
      case None
      with Cons.IH [of "Some (n, v)"] show ?thesis by (simp add: Some x version_ranks_Cons)
    next
      case l: (Some y)
      obtain a b where y: "y = (a, b)" by (cases y)
      show ?thesis
        using Cons.IH [of "Some (n, v)"]
        by (cases "n < a") (fastforce simp: l y Some x version_ranks_Cons)+
    qed
  qed (simp add: Cons.IH version_ranks_Cons)
qed (simp add: version_ranks_Cons split: option.split)

text \<open>
  No version regression is reported exactly when the versions of the records, those that name a
  published one, never go backwards.
\<close>

theorem version_regressions_exact: "version_regressions A rs = [] \<longleftrightarrow> sorted (version_ranks A rs)"
  using version_regressions_from_Nil [of A None rs] by (simp add: version_regressions_def)

end
