(* ===== verification/SaltedHash.thy ===== *)
theory SaltedHash
  imports Json_Text Codec
begin

text \<open>
  \<open>src/auditable_mcp/salted_hash.py\<close>: the salted hash of an internal context. A Disclosure is base64url of
  the UTF-8 of the JSON \<open>[salt, context]\<close>; the salted hash is base64url of the SHA-256 of its ASCII bytes.
  A \<open>None\<close> of \<open>disclosure_of\<close> and \<open>salted_hash_of\<close> is the \<open>UnicodeEncodeError\<close> of the source.
\<close>

definition SALT_BYTES :: nat where
  "SALT_BYTES = 16"

text \<open>\<open>token\<close>: what \<open>secrets.token_bytes(_SALT_BYTES)\<close> returned.\<close>

definition new_salt :: "byte list \<Rightarrow> pystr" where
  "new_salt token = b64url_encode token"

definition disclosure_of :: "lib \<Rightarrow> pystr \<Rightarrow> jobj \<Rightarrow> pystr option" where
  "disclosure_of L salt context =
     map_option b64url_encode (utf8_encode (json_dumps L False (JList [JStr salt, JDict context])))"

definition ascii_encode :: "pystr \<Rightarrow> byte list option" where
  "ascii_encode s = (if list_all (\<lambda>c. c < 128) s then Some (map of_nat s) else None)"

definition salted_hash_of :: "lib \<Rightarrow> pystr \<Rightarrow> pystr option" where
  "salted_hash_of L disclosure = map_option (\<lambda>bs. b64url_encode (sha256 L bs)) (ascii_encode disclosure)"

definition open_salted_hash :: "lib \<Rightarrow> pystr \<Rightarrow> pystr \<Rightarrow> jobj option" where
  "open_salted_hash L disclosure salted_hash =
     (case b64url_decode (JStr disclosure) of
        None \<Rightarrow> None
      | Some raw \<Rightarrow>
          if salted_hash_of L disclosure \<noteq> Some salted_hash then None
          else (case utf8_decode raw of
              None \<Rightarrow> None
            | Some text \<Rightarrow> (case json_loads L text of
                Some (JList [JStr salt, JDict context]) \<Rightarrow> Some context
              | _ \<Rightarrow> None)))"

section \<open>Opening\<close>

lemma b64url_ascii: "b64url_decode (JStr s) = Some raw \<Longrightarrow> list_all (\<lambda>c. c < 128) s"
proof -
  assume "b64url_decode (JStr s) = Some raw"
  then have "fullmatch ALPHABET s" by (auto simp: b64url_decode_def split: if_splits)
  then show ?thesis
    by (auto simp: fullmatch_iff ALPHABET_def list_all_iff is_b64url_def is_alnum_def between_def is_digit_def
        ustr_def)
qed

lemma ascii_encode_Some: "ascii_encode s = Some a \<Longrightarrow> map unat a = s"
proof -
  assume "ascii_encode s = Some a"
  then have a: "list_all (\<lambda>c. c < 128) s" "a = map of_nat s" by (simp_all add: ascii_encode_def split: if_splits)
  show "map unat a = s" unfolding a(2) using a(1) by (induction s) (simp_all add: unat_of_nat_byte)
qed

lemma ascii_encode_inj: "ascii_encode s = Some a \<Longrightarrow> ascii_encode t = Some a \<Longrightarrow> s = t"
  by (drule ascii_encode_Some)+ (simp only:)

lemma open_disclosed:
  assumes "float_law L" "json_normal (JDict context)"
    and "disclosure_of L salt context = Some d" "salted_hash_of L d = Some h"
  shows "open_salted_hash L d h = Some context"
proof -
  let ?t = "json_dumps L False (JList [JStr salt, JDict context])"
  have t: "scalars ?t" "d = b64url_encode (utf8 ?t)"
    using assms(3) by (auto simp: disclosure_of_def utf8_encode_def split: if_splits)
  moreover have "json_loads L ?t = Some (JList [JStr salt, JDict context])"
    using assms(1,2) by (intro loads_dumps) simp_all
  ultimately show ?thesis
    using assms(4) by (simp add: open_salted_hash_def b64url_roundtrip utf8_decode_encode)
qed

lemma open_commits:
  assumes "open_salted_hash L d h = Some c"
  obtains raw where "b64url_decode (JStr d) = Some raw" "ascii_encode d = Some (map of_nat d)"
    "h = b64url_encode (sha256 L (map of_nat d))"
  using assms that
  by (auto simp: open_salted_hash_def salted_hash_of_def ascii_encode_def split: option.splits if_splits)

lemma b64url_encode_inj: "b64url_encode a = b64url_encode b \<longleftrightarrow> a = b"
  using b64url.enc_inj by auto

end
