(* ===== verification/TextProperties.thy ===== *)
theory TextProperties
  imports SaltedHash Samples
begin

text \<open>
  The properties of the encodings: base64, JSON text and the salted hash built on both.
\<close>

text \<open>
  The base64url decoder accepts exactly the encodings, each of exactly one byte string: no padding,
  no stray trailing bits, nothing of the other alphabet; a JSON value that is not a string has none.
\<close>

theorem base64url_exact:
  "b64url_decode v = Some raw \<longleftrightarrow> v = JStr (b64url_encode raw)"
  using b64url.dec_iff by simp

text \<open>
  The decoder of JSON text needs no more fuel than twice the length of its text: any larger fuel
  gives the same answer, so \<open>json_loads\<close> decodes whatever the unbounded scanner does.
\<close>

theorem json_scan_returns:
  "2 * length s \<le> n \<Longrightarrow> scan L n s = scan L (2 * length s) s"
  by (rule scan_fuel)

theorem json_scan_returns_witness:
  "scan sample_lib 1000 (ustr ''[1,{}]'') = scan sample_lib 12 (ustr ''[1,{}]'')"
  using json_scan_returns [of "ustr ''[1,{}]''" 1000 sample_lib] by (simp only: length_ustr) simp



text \<open>
  A retained Disclosure opens the salted hash sealed on the event: the context comes back exactly.
\<close>

theorem salted_hash_opens:
  assumes "float_law L" "json_normal (JDict context)"
    and "disclosure_of L salt context = Some d" "salted_hash_of L d = Some h"
  shows "open_salted_hash L d h = Some context"
  using assms by (rule open_disclosed)

lemma sample_disclosure:
  "\<exists>d h. disclosure_of sample_lib (ustr ''c2FsdA'') [(ustr ''q'', JInt 7)] = Some d \<and> salted_hash_of sample_lib d = Some h"
proof -
  obtain d raw where d: "disclosure_of sample_lib (ustr ''c2FsdA'') [(ustr ''q'', JInt 7)] = Some d"
    "d = b64url_encode raw"
  proof -
    have "scalars (json_dumps sample_lib False (JList [JStr (ustr ''c2FsdA''), JDict [(ustr ''q'', JInt 7)]]))"
      by code_simp
    then show ?thesis using that by (simp add: disclosure_of_def utf8_encode_def)
  qed
  then have "b64url_decode (JStr d) = Some raw" by (simp add: b64url_roundtrip)
  then have "\<exists>h. salted_hash_of sample_lib d = Some h"
    by (simp add: salted_hash_of_def ascii_encode_def b64url_ascii)
  with d show ?thesis by blast
qed

theorem salted_hash_opens_witness:
  "\<exists>d h. disclosure_of sample_lib (ustr ''c2FsdA'') [(ustr ''q'', JInt 7)] = Some d \<and>
     open_salted_hash sample_lib d h = Some [(ustr ''q'', JInt 7)]"
proof -
  have n: "json_normal (JDict [(ustr ''q'', JInt 7)])" by simp
  obtain d h where "disclosure_of sample_lib (ustr ''c2FsdA'') [(ustr ''q'', JInt 7)] = Some d"
    "salted_hash_of sample_lib d = Some h"
    using sample_disclosure by blast
  with salted_hash_opens [OF sample_float_law n this] show ?thesis by blast
qed



end
