(* ===== verification/Capability.thy ===== *)
theory Capability
  imports Effects
begin

text \<open>
  \<open>src/auditable_mcp/capability.py\<close>, \<open>degradation.py\<close> and \<open>mcp/declaration.py\<close>: what two declarations agree on,
  what a tool does with a call they do not agree on, and how a declaration rides in MCP capabilities.

  Levels and countersignature declarations are ordered by what they oblige, so a fit is a comparison;
  a capabilities object is the JSON object of its members, a pydantic model standing for its own dump.
\<close>

section \<open>The two axes as orders\<close>

fun level_rank :: "level \<Rightarrow> nat" where
  "level_rank L1 = 1"
| "level_rank L2 = 2"

fun countersign_rank :: "countersign \<Rightarrow> nat" where
  "countersign_rank CS_NONE = 1"
| "countersign_rank CS_HOST = 2"

instantiation level :: linorder
begin

definition less_eq_level :: "level \<Rightarrow> level \<Rightarrow> bool" where
  "less_eq_level a b = (level_rank a \<le> level_rank b)"

definition less_level :: "level \<Rightarrow> level \<Rightarrow> bool" where
  "less_level a b = (level_rank a < level_rank b)"

instance
proof
  fix x y :: level
  show "x \<le> y \<Longrightarrow> y \<le> x \<Longrightarrow> x = y"
    by (cases x; cases y) (simp_all add: less_eq_level_def)
qed (auto simp: less_eq_level_def less_level_def)

end

instantiation countersign :: linorder
begin

definition less_eq_countersign :: "countersign \<Rightarrow> countersign \<Rightarrow> bool" where
  "less_eq_countersign a b = (countersign_rank a \<le> countersign_rank b)"

definition less_countersign :: "countersign \<Rightarrow> countersign \<Rightarrow> bool" where
  "less_countersign a b = (countersign_rank a < countersign_rank b)"

instance
proof
  fix x y :: countersign
  show "x \<le> y \<Longrightarrow> y \<le> x \<Longrightarrow> x = y"
    by (cases x; cases y) (simp_all add: less_eq_countersign_def)
qed (auto simp: less_eq_countersign_def less_countersign_def)

end

section \<open>Negotiation\<close>

datatype negotiation_outcome = NEGOTIATED | UNDECLARED | MISMATCH | NO_SESSION

record negotiation_result =
  ng_tool :: audit_capability
  ng_host :: "audit_capability option"
  ng_outcome :: negotiation_outcome
  ng_version_match :: bool
  ng_level_fit :: bool
  ng_countersign_fit :: bool

definition negotiated :: "negotiation_result \<Rightarrow> bool" where
  "negotiated n = (ng_outcome n = NEGOTIATED)"

definition level_satisfies :: "audit_capability \<Rightarrow> audit_capability \<Rightarrow> bool" where
  "level_satisfies tool host = (level_rank (cap_level tool) \<ge> level_rank (cap_level host))"

definition countersign_satisfies :: "audit_capability \<Rightarrow> audit_capability \<Rightarrow> bool" where
  "countersign_satisfies host tool =
     (countersign_rank (cap_countersign host) \<ge> countersign_rank (cap_countersign tool))"

definition negotiate :: "audit_capability option \<Rightarrow> audit_capability \<Rightarrow> negotiation_result" where
  "negotiate host tool =
     (case host of
        None \<Rightarrow> \<lparr>ng_tool = tool, ng_host = None, ng_outcome = UNDECLARED, ng_version_match = False,
                 ng_level_fit = False, ng_countersign_fit = False\<rparr>
      | Some h \<Rightarrow>
          let version_match = cap_spec_version tool = cap_spec_version h;
              level_fit = level_satisfies tool h;
              countersign_fit = countersign_satisfies h tool
          in \<lparr>ng_tool = tool, ng_host = Some h,
              ng_outcome = (if version_match \<and> level_fit \<and> countersign_fit then NEGOTIATED else MISMATCH),
              ng_version_match = version_match, ng_level_fit = level_fit,
              ng_countersign_fit = countersign_fit\<rparr>)"

text \<open>The specification: one side's declaration is enough for the other.\<close>

definition fits :: "audit_capability \<Rightarrow> audit_capability \<Rightarrow> bool" where
  "fits host tool \<longleftrightarrow> cap_spec_version tool = cap_spec_version host \<and>
     cap_level host \<le> cap_level tool \<and> cap_countersign tool \<le> cap_countersign host"

lemma negotiated_iff: "negotiated (negotiate host tool) \<longleftrightarrow> (\<exists>h. host = Some h \<and> fits h tool)"
  by (auto simp: negotiated_def negotiate_def fits_def level_satisfies_def countersign_satisfies_def
      less_eq_level_def less_eq_countersign_def Let_def split: option.split)

section \<open>A call that is not negotiated\<close>

datatype posture = DEGRADED | MANDATORY

datatype posture_error = UnnegotiatedCall negotiation_result | PostureValueError

definition transport_for ::
  "negotiation_result \<Rightarrow> 't \<Rightarrow> 't option \<Rightarrow> posture \<Rightarrow> posture_error + 't" where
  "transport_for n negotiated_transport fallback p =
     (if negotiated n then Inr negotiated_transport
      else if p = MANDATORY then Inl (UnnegotiatedCall n)
      else if cap_countersign (ng_tool n) = CS_HOST then Inl PostureValueError
      else case fallback of None \<Rightarrow> Inl PostureValueError | Some t \<Rightarrow> Inr t)"

section \<open>Declarations in MCP capabilities\<close>

definition EXTENSIONS_MEMBER :: pystr where
  "EXTENSIONS_MEMBER = ustr ''extensions''"

definition audit_extension :: "audit_capability \<Rightarrow> jobj" where
  "audit_extension c = [(EXTENSION_ID, JDict (capability_to_wire c))]"

definition extensions_of :: "json \<Rightarrow> jobj" where
  "extensions_of capabilities =
     (case capabilities of
        JDict d \<Rightarrow> (case dget d EXTENSIONS_MEMBER of JDict e \<Rightarrow> e | _ \<Rightarrow> [])
      | _ \<Rightarrow> [])"

text \<open>\<open>{**a, **b}\<close>: the members of \<open>b\<close> replace those of \<open>a\<close> in place, or follow them.\<close>

definition merge_dicts :: "jobj \<Rightarrow> jobj \<Rightarrow> jobj" where
  "merge_dicts a b = fold (\<lambda>(k, v). AList.update k v) b a"

definition declare_into :: "jobj \<Rightarrow> audit_capability \<Rightarrow> jobj" where
  "declare_into capabilities c =
     AList.update EXTENSIONS_MEMBER
       (JDict (merge_dicts (extensions_of (JDict capabilities)) (audit_extension c))) capabilities"

text \<open>\<open>declare\<close> returns a copy of a capabilities model, whose members are the dictionary here.\<close>

definition declare_copy :: "jobj \<Rightarrow> audit_capability \<Rightarrow> jobj" where
  "declare_copy capabilities c =
     AList.update EXTENSIONS_MEMBER
       (JDict (merge_dicts (extensions_of (JDict capabilities)) (audit_extension c))) capabilities"

lemma declare_copy_into: "declare_copy d c = declare_into d c"
  by (simp add: declare_copy_def declare_into_def)

definition capability_of :: "json \<Rightarrow> audit_capability option" where
  "capability_of capabilities =
     (case dget (extensions_of capabilities) EXTENSION_ID of
        JNull \<Rightarrow> None
      | declared \<Rightarrow> parse_capability declared)"

text \<open>What the constructor of \<open>AuditCapability\<close> admits: the other members are closed enumerations.\<close>

definition capability_ok :: "audit_capability \<Rightarrow> bool" where
  "capability_ok c \<longleftrightarrow> cap_spec_version c \<noteq> [] \<and> \<not> lone_surrogate (cap_spec_version c)"

lemma lone_surrogate_ustr [simp]: "\<not> lone_surrogate (ustr s)"
proof -
  have "\<not> is_surrogate (of_char c)" for c :: char
    unfolding is_surrogate_def using nat_of_char_less_256 [of c] by linarith
  then show ?thesis by (simp add: lone_surrogate_def ustr_def list_ex_iff)
qed

lemma parse_capability_to_wire:
  assumes "capability_ok c"
  shows "parse_capability (JDict (capability_to_wire c)) = Some c"
proof -
  obtain v l s where c: "c = \<lparr>cap_spec_version = v, cap_level = l, cap_countersign = s\<rparr>"
    by (cases c) simp
  have v: "v \<noteq> []" "\<not> lone_surrogate v" using assms by (simp_all add: capability_ok_def c)
  have "validated audit_capability_schema [] (JDict (capability_to_wire c)) = None"
    using v by (cases l; cases s)
      (simp_all add: c validated_def model_error_def shape_error_def capability_to_wire_def audit_capability_schema_def
        null_member_def member_error_def extra_member_def Suc_le_eq)
  then show ?thesis
    by (cases l; cases s) (simp_all add: parse_capability_def c capability_to_wire_def)
qed

lemma capability_of_declared:
  assumes "capability_ok c"
  shows "capability_of (JDict (declare_into d c)) = Some c"
  using parse_capability_to_wire [OF assms]
  by (simp add: capability_of_def extensions_of_def declare_into_def merge_dicts_def audit_extension_def dget_def
      update_conv')

lemma declare_into_other:
  "k \<noteq> EXTENSIONS_MEMBER \<Longrightarrow> dget (declare_into d c) k = dget d k"
  "k \<noteq> EXTENSION_ID \<Longrightarrow>
     dget (extensions_of (JDict (declare_into d c))) k = dget (extensions_of (JDict d)) k"
  by (simp_all add: declare_into_def extensions_of_def merge_dicts_def audit_extension_def dget_def update_conv')

section \<open>Properties\<close>

text \<open>
  A call is audit-negotiated exactly when the host declared the extension, the versions are
  equal, the tool's level is at least the one the host requires and the host's countersignature is at least
  the one the tool requires; so a tool that offers more and a host that offers more still negotiate.
\<close>

theorem negotiation_exact:
  "negotiated (negotiate host tool) \<longleftrightarrow>
     (\<exists>h. host = Some h \<and> cap_spec_version tool = cap_spec_version h \<and>
       cap_level h \<le> cap_level tool \<and> cap_countersign tool \<le> cap_countersign h)"
  unfolding negotiated_iff fits_def ..

text \<open>
  The transport a call is served over: the host's only for a negotiated call; the fallback only
  for one that is not, under the degraded posture, by a tool that requires no countersignature; in every
  other case an error. No call is served without a transport that records it.
\<close>

theorem transport_for_conformant:
  "transport_for n t fallback p = Inr u \<longleftrightarrow>
     (if negotiated n then u = t
      else p = DEGRADED \<and> cap_countersign (ng_tool n) = CS_NONE \<and> fallback = Some u)"
  by (cases p; cases "cap_countersign (ng_tool n)") (auto simp: transport_for_def split: option.split)

text \<open>
  A declaration merged into any capabilities object is read back as the same capability, and every
  other member and every other extension of the object reads as before.
\<close>

theorem declaration_roundtrip:
  assumes "capability_ok c"
  shows "capability_of (JDict (declare_into d c)) = Some c \<and>
    (\<forall>k. k \<noteq> EXTENSIONS_MEMBER \<longrightarrow> dget (declare_into d c) k = dget d k) \<and>
    (\<forall>k. k \<noteq> EXTENSION_ID \<longrightarrow>
      dget (extensions_of (JDict (declare_into d c))) k = dget (extensions_of (JDict d)) k)"
  using assms by (simp add: capability_of_declared declare_into_other)

theorem declaration_roundtrip_witness:
  "capability_of (JDict (declare_into [(EXTENSIONS_MEMBER, JDict [(ustr ''other'', JInt 1)])]
     \<lparr>cap_spec_version = SPEC_VERSION, cap_level = L2, cap_countersign = CS_HOST\<rparr>)) =
   Some \<lparr>cap_spec_version = SPEC_VERSION, cap_level = L2, cap_countersign = CS_HOST\<rparr>"
  using declaration_roundtrip
    [of "\<lparr>cap_spec_version = SPEC_VERSION, cap_level = L2, cap_countersign = CS_HOST\<rparr>"]
  by (simp add: capability_ok_def SPEC_VERSION_def)

end
