(* ===== verification/Session.thy ===== *)
theory Session
  imports SaltedHash Capability
begin

text \<open>
  \<open>src/auditable_mcp/session.py\<close>: the tool's audit-before-act session. A \<open>tool\<close> is the state its sessions share:
  the \<open>SessionNumbering\<close> objects, by reference, and the world outside the SDK (transport, signer, clock,
  verifier), over which the injected seams are programs free to answer, raise or be cancelled.

  \<open>enter\<close> is \<open>__aenter__\<close>, \<open>leave\<close> is \<open>__aexit__\<close>, and \<open>audited\<close> is the \<open>async with\<close> statement around
  the domain action. The numbering lock makes one \<open>numbering_section\<close> one step: nothing else of the
  session is numbered inside it. Actions of one session interleave between sections.
\<close>

section \<open>The seams and the state\<close>

record 'w transport =
  tr_attempt :: "jobj \<Rightarrow> ('w, response) prog"
  tr_outcome :: "jobj \<Rightarrow> ('w, unit) prog"
  tr_numbering :: "nat option"

record 'w event_signer =
  sg_key_id :: pystr
  sg_sign :: "jobj \<Rightarrow> int \<Rightarrow> ('w, jobj) prog"

datatype verification = Verified bool | VerifierUnavailable

type_synonym 'w countersignature_verifier = "pystr \<Rightarrow> pystr \<Rightarrow> byte list \<Rightarrow> ('w, verification) prog"

record 'w deps =
  dp_new_id :: "('w, pystr) prog"
  dp_now :: "('w, pystr) prog"
  dp_token :: "('w, byte list) prog"

record 'w amcp_session =
  se_transport :: "'w transport"
  se_session_id :: pystr
  se_signer :: "'w event_signer option"
  se_numbering :: nat
  se_deps :: "'w deps"
  se_polluted_stop :: bool
  se_countersignature_verifier :: "'w countersignature_verifier option"
  se_require_countersign :: bool

record 'w tool =
  tl_next_signer_seq :: "nat \<Rightarrow> int"
  tl_fresh :: nat
  tl_world :: 'w

text \<open>A call of a seam: a program of the world, run by the tool.\<close>

definition seam :: "('w, 'a) prog \<Rightarrow> ('w tool, 'a) prog" where
  "seam m = (\<lambda>t. case m (tl_world t) of (r, w) \<Rightarrow> (r, t\<lparr>tl_world := w\<rparr>))"

section \<open>Numbering\<close>

text \<open>\<open>SessionNumbering(start)\<close>: a new object holding the next number; \<open>start\<close> is any Python value.\<close>

definition session_numbering :: "json \<Rightarrow> ('w tool, nat) prog" where
  "session_numbering start =
     (case start of
        JInt n \<Rightarrow>
          if n < 0 then raise ValueError
          else withS (\<lambda>t. let ref = tl_fresh t in
            thenM (modify (\<lambda>t. t\<lparr>tl_next_signer_seq := (tl_next_signer_seq t)(ref := n), tl_fresh := Suc ref\<rparr>))
              (\<lambda>_. ret ref))
      | _ \<Rightarrow> raise ValueError)"

definition numbering_section ::
  "'w amcp_session \<Rightarrow> (int option \<Rightarrow> ('w tool, 'a) prog) \<Rightarrow> ('w tool, 'a) prog" where
  "numbering_section se body =
     (case se_signer se of
        None \<Rightarrow> body None
      | Some _ \<Rightarrow> withS (\<lambda>t.
          let signer_seq = tl_next_signer_seq t (se_numbering se) in
          thenM (body (Some signer_seq)) (\<lambda>a.
          thenM (modify (\<lambda>t. t\<lparr>tl_next_signer_seq := (tl_next_signer_seq t)(se_numbering se := signer_seq + 1)\<rparr>))
            (\<lambda>_. ret a))))"

section \<open>The session\<close>

record 'w session_options =
  op_signer :: "'w event_signer option"
  op_deps :: "'w deps"
  op_polluted_stop :: "bool option"
  op_countersignature_verifier :: "'w countersignature_verifier option"
  op_require_countersign :: bool

text \<open>The checks of \<open>AmcpSession.__init__\<close>, in order.\<close>

definition session_options_error :: "json \<Rightarrow> 'w session_options \<Rightarrow> exn option" where
  "session_options_error session_id op =
     (if \<not> (case session_id of JStr s \<Rightarrow> fullmatch SESSION_ID_PATTERN s | _ \<Rightarrow> False) then Some AmcpUsageError
      else if op_require_countersign op \<and> op_countersignature_verifier op = None then Some ValueError
      else if op_polluted_stop op = Some False \<and> op_signer op \<noteq> None then Some ValueError
      else if op_polluted_stop op = Some False \<and> op_require_countersign op then Some ValueError
      else None)"

definition new_amcp_session ::
  "'w transport \<Rightarrow> json \<Rightarrow> 'w session_options \<Rightarrow> ('w tool, 'w amcp_session) prog" where
  "new_amcp_session tr session_id op =
     (case session_options_error session_id op of
        Some e \<Rightarrow> raise e
      | None \<Rightarrow>
          thenM (case tr_numbering tr of Some ref \<Rightarrow> ret ref | None \<Rightarrow> session_numbering (JInt 0)) (\<lambda>ref.
          ret \<lparr>se_transport = tr, se_session_id = (case session_id of JStr s \<Rightarrow> s | _ \<Rightarrow> []), se_signer = op_signer op,
               se_numbering = ref, se_deps = op_deps op,
               se_polluted_stop = (case op_polluted_stop op of
                   None \<Rightarrow> op_signer op \<noteq> None \<or> op_require_countersign op | Some b \<Rightarrow> b),
               se_countersignature_verifier = op_countersignature_verifier op,
               se_require_countersign = op_require_countersign op\<rparr>))"

definition stamp :: "'w amcp_session \<Rightarrow> jobj \<Rightarrow> int option \<Rightarrow> ('w tool, jobj) prog" where
  "stamp se event signer_seq =
     (case (se_signer se, signer_seq) of
        (Some sg, Some n) \<Rightarrow> seam (sg_sign sg event n)
      | _ \<Rightarrow> ret event)"

section \<open>An action\<close>

record audited_action =
  ac_id :: pystr
  ac_action_type :: pystr
  ac_target :: jobj
  ac_mutates :: bool
  ac_egress :: bool
  ac_disclose :: "jobj option"
  ac_commit_hash :: "pystr option"
  ac_disclosure :: "pystr option"
  ac_salted_hash :: "pystr option"

text \<open>
  \<open>TargetResource.model_validate\<close> on a Python value, and the wire form of what it admits: outside wire input
  an absent optional member may be given as \<open>None\<close>.
\<close>

definition target_error :: "json \<Rightarrow> schema_error + jobj" where
  "target_error v =
     (case v of
        JDict d \<Rightarrow>
          let d' = (if dget d SCOPE_HINT = JNull then filter (\<lambda>(k, _). k \<noteq> SCOPE_HINT) d else d)
          in (case model_error target_resource (JDict d') of
                Some e \<Rightarrow> Inl e
              | None \<Rightarrow> Inr ([(KIND, dget d' KIND), (REF, dget d' REF)]
                  @ (if dget d' SCOPE_HINT = JNull then [] else [(SCOPE_HINT, dget d' SCOPE_HINT)])))
      | _ \<Rightarrow> Inl NotAnObject)"

record action_context =
  cx_disclose :: "jobj option"
  cx_commit :: json
  cx_commit_salted :: "jobj option"

definition encodedM :: "'a option \<Rightarrow> ('s, 'a) prog" where
  "encodedM r = (case r of None \<Rightarrow> raise ValueError | Some a \<Rightarrow> ret a)"

text \<open>The salted commitment: one salt for the attempt and the outcome.\<close>

definition salted_commitment ::
  "lib \<Rightarrow> 'w amcp_session \<Rightarrow> jobj option \<Rightarrow> ('w tool, (pystr \<times> pystr) option) prog" where
  "salted_commitment L se context =
     (case context of
        None \<Rightarrow> ret None
      | Some c \<Rightarrow>
          thenM (seam (dp_token (se_deps se))) (\<lambda>token.
          thenM (encodedM (disclosure_of L (new_salt token) c)) (\<lambda>d.
          thenM (encodedM (salted_hash_of L d)) (\<lambda>h. ret (Some (d, h))))))"

definition audited_action_of ::
  "lib \<Rightarrow> 'w amcp_session \<Rightarrow> pystr \<Rightarrow> pystr \<Rightarrow> jobj \<Rightarrow> bool \<Rightarrow> bool \<Rightarrow> action_context
    \<Rightarrow> ('w tool, audited_action) prog" where
  "audited_action_of L se event_id action_type target mutates egress cx =
     thenM (if cx_commit cx = JNull then ret None
            else thenM (canonM (hash_canonical L (cx_commit cx))) (\<lambda>h. ret (Some h))) (\<lambda>commit_hash.
     thenM (salted_commitment L se (cx_commit_salted cx)) (\<lambda>salted.
     ret \<lparr>ac_id = event_id, ac_action_type = action_type, ac_target = target, ac_mutates = mutates,
          ac_egress = egress, ac_disclose = cx_disclose cx, ac_commit_hash = commit_hash,
          ac_disclosure = map_option fst salted, ac_salted_hash = map_option snd salted\<rparr>))"

text \<open>\<open>AmcpSession.action\<close>.\<close>

definition action ::
  "lib \<Rightarrow> 'w amcp_session \<Rightarrow> pystr \<Rightarrow> json \<Rightarrow> bool \<Rightarrow> bool \<Rightarrow> action_context \<Rightarrow> ('w tool, audited_action) prog" where
  "action L se action_type target mutates egress cx =
     (case target_error target of
        Inl e \<Rightarrow> raise (ValidationError e)
      | Inr t \<Rightarrow>
          thenM (seam (dp_new_id (se_deps se))) (\<lambda>eid.
          audited_action_of L se eid action_type t mutates egress cx))"

section \<open>Building an event\<close>

definition opt_object :: "pystr \<Rightarrow> jobj option \<Rightarrow> jobj" where
  "opt_object k v = (case v of None \<Rightarrow> [] | Some d \<Rightarrow> [(k, JDict d)])"

text \<open>\<open>to_wire()\<close> of the \<open>AuditEvent\<close> of an outcome: the members in the order the model declares them.\<close>

definition event_to_wire ::
  "'w amcp_session \<Rightarrow> audited_action \<Rightarrow> pystr \<Rightarrow> outcome \<Rightarrow> code option \<Rightarrow> jobj" where
  "event_to_wire se ac now out reason =
     [(ID, JStr (ac_id ac)), (TS, JStr now), (SESSION_ID, JStr (se_session_id se)),
      (ACTION_TYPE, JStr (ac_action_type ac)), (MUTATES, JBool (ac_mutates ac)), (EGRESS, JBool (ac_egress ac)),
      (TARGET_RESOURCE, JDict (ac_target ac)), (OUTCOME, JStr (outcome_str out))]
     @ opt_member REASON (map_option code_str reason)
     @ opt_object ACTION_CONTEXT (ac_disclose ac)
     @ opt_member ACTION_CONTEXT_HASH (ac_commit_hash ac)
     @ [(SPEC_VERSION_F, JStr SPEC_VERSION)]
     @ opt_member ACTION_CONTEXT_SALTED_HASH (ac_salted_hash ac)"

definition build ::
  "lib \<Rightarrow> 'w amcp_session \<Rightarrow> audited_action \<Rightarrow> outcome \<Rightarrow> int option \<Rightarrow> code option \<Rightarrow> ('w tool, jobj) prog" where
  "build L se ac out signer_seq reason =
     thenM (seam (dp_now (se_deps se))) (\<lambda>now.
     let event = event_to_wire se ac now out reason in
     case first_validation_error L (JDict event) of
       Some e \<Rightarrow> raise (ValidationError e)
     | None \<Rightarrow> stamp se event signer_seq)"

section \<open>Aborting\<close>

definition emit_outcome ::
  "lib \<Rightarrow> 'w amcp_session \<Rightarrow> audited_action \<Rightarrow> outcome \<Rightarrow> code option \<Rightarrow> ('w tool, unit) prog" where
  "emit_outcome L se ac out reason =
     numbering_section se (\<lambda>signer_seq.
       thenM (build L se ac out signer_seq reason) (\<lambda>event. seam (tr_outcome (se_transport se) event)))"

definition emit_aborted :: "lib \<Rightarrow> 'w amcp_session \<Rightarrow> audited_action \<Rightarrow> code \<Rightarrow> ('w tool, unit) prog" where
  "emit_aborted L se ac reason = emit_outcome L se ac ABORTED (Some reason)"

text \<open>\<open>except Exception\<close>: a cancellation passes.\<close>

definition swallow :: "('s, unit) prog \<Rightarrow> ('s, unit) prog" where
  "swallow m = catchM m (\<lambda>e. if is_Exception e then ret () else raise e)"

definition emit_aborted_best_effort ::
  "lib \<Rightarrow> 'w amcp_session \<Rightarrow> audited_action \<Rightarrow> code \<Rightarrow> ('w tool, unit) prog" where
  "emit_aborted_best_effort L se ac reason = swallow (emit_aborted L se ac reason)"

definition target_ref :: "audited_action \<Rightarrow> pystr" where
  "target_ref ac = (case dget (ac_target ac) REF of JStr s \<Rightarrow> s | _ \<Rightarrow> [])"

definition abort :: "lib \<Rightarrow> 'w amcp_session \<Rightarrow> audited_action \<Rightarrow> code \<Rightarrow> ('w tool, 'a) prog" where
  "abort L se ac reason =
     thenM (emit_aborted_best_effort L se ac reason) (\<lambda>_.
     raise (AmcpAbortedError (ac_action_type ac) (target_ref ac) reason))"

section \<open>Entering: the attempt, its answer, and the checks of the answer\<close>

datatype answer = Answered response | Faulted

text \<open>The section of the attempt: a fault of the transport is kept, a misuse of the SDK passes.\<close>

definition attempt_section ::
  "lib \<Rightarrow> 'w amcp_session \<Rightarrow> audited_action \<Rightarrow> ('w tool, jobj \<times> answer) prog" where
  "attempt_section L se ac =
     numbering_section se (\<lambda>signer_seq.
       thenM (build L se ac ATTEMPTED signer_seq None) (\<lambda>attempt.
       catchM (thenM (seam (tr_attempt (se_transport se) attempt)) (\<lambda>r. ret (attempt, Answered r)))
         (\<lambda>e. if e = AmcpUsageError \<or> \<not> is_Exception e then raise e else ret (attempt, Faulted))))"

text \<open>What the countersignature of an accept establishes; \<open>None\<close> when it is not checked.\<close>

definition check_countersigned ::
  "lib \<Rightarrow> 'w amcp_session \<Rightarrow> accept_response \<Rightarrow> ('w tool, verification option) prog" where
  "check_countersigned L se a =
     (case (acc_host_signature a, se_countersignature_verifier se) of
        (Some signature, Some verify) \<Rightarrow>
          (case (acc_host_key_id a, acc_log_id a) of
             (Some key_id, Some log_id) \<Rightarrow>
               thenM (canonM (countersignature_payload L (acc_seq a) (acc_host_ts a) log_id
                        (acc_previous_hash a) (acc_record_hash a))) (\<lambda>payload.
               thenM (seam (verify key_id signature payload)) (\<lambda>v. ret (Some v)))
           | _ \<Rightarrow> ret (Some (Verified False)))
      | _ \<Rightarrow> ret None)"

definition check_polluted ::
  "lib \<Rightarrow> 'w amcp_session \<Rightarrow> audited_action \<Rightarrow> jobj \<Rightarrow> accept_response \<Rightarrow> ('w tool, accept_response) prog" where
  "check_polluted L se ac attempt a =
     (if se_polluted_stop se then
        thenM (canonM (compute_record_hash L attempt (acc_seq a) (acc_host_ts a) (acc_previous_hash a))) (\<lambda>expected.
        if expected \<noteq> acc_record_hash a then abort L se ac HASH_MISMATCH else ret a)
      else ret a)"

definition clear ::
  "lib \<Rightarrow> 'w amcp_session \<Rightarrow> audited_action \<Rightarrow> jobj \<Rightarrow> response \<Rightarrow> ('w tool, accept_response) prog" where
  "clear L se ac attempt r =
     (case r of
        Reject reason \<Rightarrow> abort L se ac HOST_REJECTED
      | Unavailable \<Rightarrow> abort L se ac HOST_UNAVAILABLE
      | Accept a \<Rightarrow>
          if se_require_countersign se \<and> acc_host_signature a = None then abort L se ac HOST_UNCOUNTERSIGNED
          else thenM (check_countersigned L se a) (\<lambda>v.
            case v of
              Some VerifierUnavailable \<Rightarrow> abort L se ac HOST_UNAVAILABLE
            | Some (Verified b) \<Rightarrow> if b then check_polluted L se ac attempt a else abort L se ac HOST_SIGNATURE_INVALID
            | None \<Rightarrow> check_polluted L se ac attempt a))"

definition enter :: "lib \<Rightarrow> 'w amcp_session \<Rightarrow> audited_action \<Rightarrow> ('w tool, accept_response) prog" where
  "enter L se ac =
     thenM (attempt_section L se ac) (\<lambda>(attempt, answer).
     case answer of
       Faulted \<Rightarrow> abort L se ac HOST_UNAVAILABLE
     | Answered r \<Rightarrow> clear L se ac attempt r)"

section \<open>Leaving, and the whole statement\<close>

definition leave :: "lib \<Rightarrow> 'w amcp_session \<Rightarrow> audited_action \<Rightarrow> bool \<Rightarrow> ('w tool, unit) prog" where
  "leave L se ac failed = swallow (emit_outcome L se ac (if failed then FAILED else SUCCESS) None)"

text \<open>\<open>async with action: body\<close>: \<open>__aexit__\<close> returns nothing, so the exception of the body goes on.\<close>

definition audited ::
  "lib \<Rightarrow> 'w amcp_session \<Rightarrow> audited_action \<Rightarrow> (accept_response \<Rightarrow> ('w tool, 'a) prog) \<Rightarrow> ('w tool, 'a) prog" where
  "audited L se ac body =
     thenM (enter L se ac) (\<lambda>accept.
     thenM (catchM (thenM (body accept) (\<lambda>a. ret (Ret a))) (\<lambda>e. ret (Exc e))) (\<lambda>result.
     case result of
       Ret a \<Rightarrow> thenM (leave L se ac False) (\<lambda>_. ret a)
     | Exc e \<Rightarrow> thenM (leave L se ac True) (\<lambda>_. raise e)))"

end
