(* ===== verification/SessionFacts.thy ===== *)
theory SessionFacts
  imports Session
begin

text \<open>
  Facts about the session's programs: what a section does to the numbering, what \<open>abort\<close> ends in, and the
  specification \<open>verdict\<close> of the order in which an answer is judged.
\<close>

section \<open>Weakest preconditions of the session's constructors\<close>

lemma wp_seam [wp_simps]:
  "wp (seam m) Q E t = wp m (\<lambda>a w. Q a (t\<lparr>tl_world := w\<rparr>)) (\<lambda>e w. E e (t\<lparr>tl_world := w\<rparr>)) (tl_world t)"
  by (simp add: wp_def seam_def split: prod.split pyres.split)

definition advance :: "nat \<Rightarrow> int \<Rightarrow> 'w tool \<Rightarrow> 'w tool" where
  "advance ref n t = t\<lparr>tl_next_signer_seq := (tl_next_signer_seq t)(ref := n)\<rparr>"

lemma wp_numbering_section [wp_simps]:
  "wp (numbering_section se body) Q E t =
     (case se_signer se of
        None \<Rightarrow> wp (body None) Q E t
      | Some _ \<Rightarrow> wp (body (Some (tl_next_signer_seq t (se_numbering se))))
          (\<lambda>a t'. Q a (advance (se_numbering se) (tl_next_signer_seq t (se_numbering se) + 1) t')) E t)"
  by (auto simp: numbering_section_def wp_def advance_def Let_def thenM_def modify_def ret_def withS_def
      split: option.split prod.split pyres.split)

lemma wp_swallow [wp_simps]:
  "wp (swallow m) Q E t = wp m Q (\<lambda>e t'. if is_Exception e then Q () t' else E e t') t"
  by (simp add: swallow_def wp_def catchM_def ret_def raise_def split: prod.split pyres.split)

lemma wp_encodedM [wp_simps]: "wp (encodedM r) Q E t = (case r of None \<Rightarrow> E ValueError t | Some a \<Rightarrow> Q a t)"
  by (simp add: encodedM_def wp_simps split: option.split)

section \<open>A seam call leaves the numbering alone\<close>

definition numbering_is :: "(nat \<Rightarrow> int) \<Rightarrow> 'w tool \<Rightarrow> bool" where
  "numbering_is f t = (tl_next_signer_seq t = f)"

lemma keeps_seam [keeps_intros]: "keeps (numbering_is f) (seam m)"
  by (simp add: keeps_def seam_def numbering_is_def split: prod.split)

lemma keeps_build [keeps_intros]: "keeps (numbering_is f) (build L se ac out n reason)"
  unfolding build_def stamp_def Let_def by (rule keeps_intros | simp)+

lemma keeps_seam_outcome [keeps_intros]:
  "keeps (numbering_is f) (thenM (build L se ac out n reason) (\<lambda>event. seam (tr_outcome (se_transport se) event)))"
  by (rule keeps_intros)+

definition attempt_body ::
  "lib \<Rightarrow> 'w amcp_session \<Rightarrow> audited_action \<Rightarrow> int option \<Rightarrow> ('w tool, jobj \<times> answer) prog" where
  "attempt_body L se ac signer_seq =
     thenM (build L se ac ATTEMPTED signer_seq None) (\<lambda>attempt.
       catchM (thenM (seam (tr_attempt (se_transport se) attempt)) (\<lambda>r. ret (attempt, Answered r)))
         (\<lambda>e. if e = AmcpUsageError \<or> \<not> is_Exception e then raise e else ret (attempt, Faulted)))"

lemma attempt_section_body: "attempt_section L se ac = numbering_section se (attempt_body L se ac)"
  by (simp add: attempt_section_def attempt_body_def [abs_def])

lemma keeps_attempt_body [keeps_intros]: "keeps (numbering_is f) (attempt_body L se ac n)"
  unfolding attempt_body_def by (rule keeps_intros | simp)+

text \<open>A section whose body leaves the numbering alone: one further when it returned, as it was otherwise.\<close>

lemma section_numbering:
  assumes "se_signer se \<noteq> None" "\<And>n f. keeps (numbering_is f) (body n)" "numbering_section se body t = (r, t')"
  shows "tl_next_signer_seq t' = (case r of
      Ret a \<Rightarrow> (tl_next_signer_seq t)(se_numbering se := tl_next_signer_seq t (se_numbering se) + 1)
    | Exc e \<Rightarrow> tl_next_signer_seq t)"
proof -
  obtain sg where sg: "se_signer se = Some sg" using assms(1) by blast
  let ?f = "tl_next_signer_seq t"
  have "wp (body (Some (?f (se_numbering se)))) (\<lambda>_. numbering_is ?f) (\<lambda>_. numbering_is ?f) t"
    using assms(2) by (simp add: keeps_wp numbering_is_def)
  then have "wp (numbering_section se body)
      (\<lambda>_ t'. tl_next_signer_seq t' = ?f(se_numbering se := ?f (se_numbering se) + 1))
      (\<lambda>_ t'. tl_next_signer_seq t' = ?f) t"
    unfolding wp_numbering_section sg option.case
    by (rule wp_conseq) (simp_all add: numbering_is_def advance_def)
  with assms(3) show ?thesis by (simp add: wp_def split: pyres.splits)
qed

section \<open>Aborting\<close>

text \<open>An abort never returns: it raises \<open>AmcpAbortedError\<close> with its reason, or is cancelled on the way.\<close>

lemma abort_raises:
  fixes se :: "'w amcp_session"
  shows "\<exists>e t'. (abort L se ac reason :: ('w tool, 'a) prog) t = (Exc e, t') \<and>
     (e = AmcpAbortedError (ac_action_type ac) (target_ref ac) reason \<or> e = Cancelled)"
proof (rule wp_raises)
  show "wp (abort L se ac reason :: ('w tool, 'a) prog) (\<lambda>_ _. False)
      (\<lambda>e _. e = AmcpAbortedError (ac_action_type ac) (target_ref ac) reason \<or> e = Cancelled) t"
    unfolding abort_def wp_thenM emit_aborted_best_effort_def wp_swallow
    by (rule wp_True) (simp_all add: wp_raise is_Exception_def)
qed

lemma wp_abort: "(\<And>e t'. e = AmcpAbortedError (ac_action_type ac) (target_ref ac) reason \<or> e = Cancelled \<Longrightarrow> E e t') \<Longrightarrow>
    wp (abort L se ac reason) Q E t"
  by (rule wp_raisesI [OF abort_raises])

section \<open>The order in which an answer is judged\<close>

text \<open>
  The specification: the status first, then a missing countersignature, then the one that was checked, then
  the record hash. \<open>v\<close> is what the check of the countersignature established, \<open>honest\<close> whether the hash recomputed
  over the attempt is the one of the answer.
\<close>

definition verdict :: "bool \<Rightarrow> bool \<Rightarrow> response \<Rightarrow> verification option \<Rightarrow> bool \<Rightarrow> code option" where
  "verdict require polluted r v honest =
     (case r of
        Reject _ \<Rightarrow> Some HOST_REJECTED
      | Unavailable \<Rightarrow> Some HOST_UNAVAILABLE
      | Accept a \<Rightarrow> map_option snd (find fst
          [(require \<and> acc_host_signature a = None, HOST_UNCOUNTERSIGNED),
           (v = Some VerifierUnavailable, HOST_UNAVAILABLE),
           (v = Some (Verified False), HOST_SIGNATURE_INVALID),
           (polluted \<and> \<not> honest, HASH_MISMATCH)]))"

lemma unsigned_unchecked: "acc_host_signature a = None \<Longrightarrow> check_countersigned L se a = ret None"
  by (simp add: check_countersigned_def)

lemma clear_accept:
  assumes "check_countersigned L se a t = (Ret v, t')"
    and "compute_record_hash L attempt (acc_seq a) (acc_host_ts a) (acc_previous_hash a) = Inr h"
  shows "clear L se ac attempt (Accept a) t =
     (case verdict (se_require_countersign se) (se_polluted_stop se) (Accept a) v (h = acc_record_hash a) of
        None \<Rightarrow> (Ret a, t') | Some reason \<Rightarrow> abort L se ac reason t')"
proof (cases "se_require_countersign se \<and> acc_host_signature a = None")
  case True
  with assms(1) have "t' = t" by (simp add: unsigned_unchecked ret_def)
  with True show ?thesis by (simp add: clear_def verdict_def)
next
  case False
  have "clear L se ac attempt (Accept a) t =
      (case v of Some VerifierUnavailable \<Rightarrow> abort L se ac HOST_UNAVAILABLE
       | Some (Verified b) \<Rightarrow> if b then check_polluted L se ac attempt a else abort L se ac HOST_SIGNATURE_INVALID
       | None \<Rightarrow> check_polluted L se ac attempt a) t'"
    unfolding clear_def response.case if_not_P [OF False] thenM_def assms(1) by simp
  moreover have "check_polluted L se ac attempt a t' =
      (if se_polluted_stop se \<and> h \<noteq> acc_record_hash a then abort L se ac HASH_MISMATCH t' else (Ret a, t'))"
    by (simp add: check_polluted_def assms(2) canonM_def thenM_def ret_def)
  ultimately show ?thesis
    using False by (auto simp: verdict_def split: option.split verification.split)
qed

section \<open>What a return of \<open>enter\<close> means\<close>

text \<open>The attempt the tool sent: the validated wire event of the action, stamped when the session signs.\<close>

definition sent_attempt :: "lib \<Rightarrow> 'w amcp_session \<Rightarrow> audited_action \<Rightarrow> jobj \<Rightarrow> bool" where
  "sent_attempt L se ac attempt \<longleftrightarrow> (\<exists>now. let event = event_to_wire se ac now ATTEMPTED None in
     first_validation_error L (JDict event) = None \<and>
     (case se_signer se of None \<Rightarrow> attempt = event
      | Some sg \<Rightarrow> \<exists>n w w'. sg_sign sg event n w = (Ret attempt, w')))"

definition answered :: "'w amcp_session \<Rightarrow> jobj \<Rightarrow> response \<Rightarrow> bool" where
  "answered se attempt r = (\<exists>w w'. tr_attempt (se_transport se) attempt w = (Ret r, w'))"

definition countersignature_checked :: "lib \<Rightarrow> 'w amcp_session \<Rightarrow> accept_response \<Rightarrow> bool" where
  "countersignature_checked L se a =
     (\<forall>signature verify. acc_host_signature a = Some signature \<and> se_countersignature_verifier se = Some verify \<longrightarrow>
        (\<exists>key_id log_id payload w w'. acc_host_key_id a = Some key_id \<and> acc_log_id a = Some log_id \<and>
           countersignature_payload L (acc_seq a) (acc_host_ts a) log_id (acc_previous_hash a) (acc_record_hash a)
             = Inr payload \<and> verify key_id signature payload w = (Ret (Verified True), w')))"

text \<open>Everything the tool established before its domain action.\<close>

definition cleared :: "lib \<Rightarrow> 'w amcp_session \<Rightarrow> audited_action \<Rightarrow> jobj \<Rightarrow> accept_response \<Rightarrow> bool" where
  "cleared L se ac attempt a \<longleftrightarrow> sent_attempt L se ac attempt \<and> answered se attempt (Accept a) \<and>
     (se_require_countersign se \<longrightarrow> acc_host_signature a \<noteq> None) \<and> countersignature_checked L se a \<and>
     (se_polluted_stop se \<longrightarrow>
        compute_record_hash L attempt (acc_seq a) (acc_host_ts a) (acc_previous_hash a) = Inr (acc_record_hash a))"

lemma wp_from_run: "(\<And>r s'. m s = (r, s') \<Longrightarrow> (case r of Ret a \<Rightarrow> Q a s' | Exc e \<Rightarrow> E e s')) \<Longrightarrow> wp m Q E s"
  by (cases "m s") (auto simp: wp_def split: pyres.splits)

lemma wp_stamp:
  assumes "first_validation_error L (JDict event) = None" "event = event_to_wire se ac now ATTEMPTED None"
    and "se_signer se \<noteq> None \<longleftrightarrow> n \<noteq> None"
  shows "wp (stamp se event n) (\<lambda>attempt _. sent_attempt L se ac attempt) (\<lambda>_ _. True) t"
proof (cases "se_signer se")
  case None
  then show ?thesis using assms by (auto simp: stamp_def wp_simps sent_attempt_def Let_def)
next
  case (Some sg)
  then obtain k where k: "n = Some k" using assms(3) by auto
  show ?thesis
    unfolding stamp_def Some k by (simp add: wp_simps)
      (rule wp_from_run, use assms Some in \<open>auto simp: sent_attempt_def Let_def split: pyres.splits\<close>)
qed

lemma wp_build_attempt:
  assumes "se_signer se \<noteq> None \<longleftrightarrow> n \<noteq> None"
  shows "wp (build L se ac ATTEMPTED n None) (\<lambda>attempt _. sent_attempt L se ac attempt) (\<lambda>_ _. True) t"
  unfolding build_def wp_simps Let_def
  by (rule wp_True) (use wp_stamp [OF _ refl assms] in \<open>auto simp: wp_simps split: option.split\<close>)

lemma wp_attempt_body:
  assumes "se_signer se \<noteq> None \<longleftrightarrow> n \<noteq> None"
  shows "wp (attempt_body L se ac n)
    (\<lambda>x _. sent_attempt L se ac (fst x) \<and> (\<forall>r. snd x = Answered r \<longrightarrow> answered se (fst x) r)) (\<lambda>_ _. True) t"
  unfolding attempt_body_def wp_thenM
  apply (rule wp_conseq [OF wp_build_attempt [OF assms]])
   apply (simp only: wp_simps)
   apply (rule wp_from_run)
   apply (auto simp: answered_def wp_simps split: pyres.splits)
  done

lemma wp_attempt_section:
  "wp (attempt_section L se ac)
    (\<lambda>x _. sent_attempt L se ac (fst x) \<and> (\<forall>r. snd x = Answered r \<longrightarrow> answered se (fst x) r)) (\<lambda>_ _. True) t"
  unfolding attempt_section_body wp_numbering_section
  by (auto intro!: wp_attempt_body split: option.split)

lemma wp_check_countersigned:
  "wp (check_countersigned L se a)
     (\<lambda>v _. v \<noteq> Some (Verified False) \<longrightarrow> v \<noteq> Some VerifierUnavailable \<longrightarrow> countersignature_checked L se a) (\<lambda>_ _. True) t"
proof (cases "acc_host_signature a")
  case None
  then show ?thesis by (simp add: check_countersigned_def wp_simps countersignature_checked_def)
next
  case sig: (Some signature)
  show ?thesis
  proof (cases "se_countersignature_verifier se")
    case None
    then show ?thesis by (simp add: check_countersigned_def sig wp_simps countersignature_checked_def)
  next
    case ver: (Some verify)
    show ?thesis
    proof (cases "acc_host_key_id a = None \<or> acc_log_id a = None")
      case True
      then show ?thesis by (auto simp: check_countersigned_def sig ver wp_simps split: option.split)
    next
      case False
      then obtain k l where kl: "acc_host_key_id a = Some k" "acc_log_id a = Some l" by auto
      show ?thesis
      proof (cases "countersignature_payload L (acc_seq a) (acc_host_ts a) l (acc_previous_hash a) (acc_record_hash a)")
        case (Inl e)
        then show ?thesis by (simp add: check_countersigned_def sig ver kl wp_simps)
      next
        case (Inr payload)
        have "wp (verify k signature payload)
            (\<lambda>v _. v \<noteq> Verified False \<longrightarrow> v \<noteq> VerifierUnavailable \<longrightarrow> countersignature_checked L se a) (\<lambda>_ _. True) w" for w
        proof (rule wp_from_run)
          fix r w' assume "verify k signature payload w = (r, w')"
          then show "case r of
              Ret v \<Rightarrow> v \<noteq> Verified False \<longrightarrow> v \<noteq> VerifierUnavailable \<longrightarrow> countersignature_checked L se a
            | Exc e \<Rightarrow> True"
            using kl sig ver Inr
            by (cases r) (auto simp: countersignature_checked_def, metis verification.exhaust)
        qed
        then show ?thesis by (simp add: check_countersigned_def sig ver kl Inr wp_simps)
      qed
    qed
  qed
qed

lemma wp_check_polluted:
  "wp (check_polluted L se ac attempt a) (\<lambda>b _. b = a \<and> (se_polluted_stop se \<longrightarrow>
     compute_record_hash L attempt (acc_seq a) (acc_host_ts a) (acc_previous_hash a) = Inr (acc_record_hash a)))
     (\<lambda>_ _. True) t"
  unfolding check_polluted_def
  by (auto simp: wp_simps intro!: wp_abort split: sum.split)

lemma wp_clear:
  assumes "sent_attempt L se ac attempt" "answered se attempt r"
  shows "wp (clear L se ac attempt r) (\<lambda>a _. r = Accept a \<and> cleared L se ac attempt a) (\<lambda>_ _. True) t"
proof (cases r)
  case (Accept a)
  show ?thesis
  proof (cases "se_require_countersign se \<and> acc_host_signature a = None")
    case False
    have "wp (check_polluted L se ac attempt a) (\<lambda>a' _. Accept a = Accept a' \<and> cleared L se ac attempt a') (\<lambda>_ _. True) t'"
      if "countersignature_checked L se a" for t'
      by (rule wp_conseq [OF wp_check_polluted]) (use assms that False in \<open>auto simp: cleared_def Accept\<close>)
    then show ?thesis
      unfolding clear_def Accept response.case if_not_P [OF False] wp_thenM
      by (intro wp_conseq [OF wp_check_countersigned])
        (auto intro!: wp_abort split: option.split verification.split)
  qed (auto simp: clear_def Accept intro: wp_abort)
qed (auto simp: clear_def intro: wp_abort)

lemma wp_enter: "wp (enter L se ac) (\<lambda>a _. \<exists>attempt. cleared L se ac attempt a) (\<lambda>_ _. True) t"
  unfolding enter_def wp_thenM
proof (rule wp_conseq [OF wp_attempt_section], goal_cases)
  case (1 x t')
  obtain attempt answer where x: "x = (attempt, answer)" by (cases x)
  show ?case
  proof (cases answer)
    case (Answered r)
    with 1 x show ?thesis by (auto intro: wp_conseq [OF wp_clear])
  qed (auto simp: x intro: wp_abort)
qed simp

section \<open>Leaving\<close>

lemma leave_quiet: "\<exists>r t'. leave L se ac failed t = (r, t') \<and> (r = Ret () \<or> r = Exc Cancelled)"
proof -
  have "wp (leave L se ac failed) (\<lambda>_ _. True) (\<lambda>e _. e = Cancelled) t"
    unfolding leave_def wp_swallow by (rule wp_True) (simp_all add: is_Exception_def)
  then show ?thesis by (cases "leave L se ac failed t") (auto simp: wp_def split: pyres.splits)
qed

end
