(* ===== verification/SessionProperties.thy ===== *)
theory SessionProperties
  imports SessionFacts Samples
begin

text \<open>
  The properties of the tool's session. The sample session talks to a scripted transport: a world is the
  list of frames it was handed, and the answer is fixed.
\<close>

section \<open>A sample session\<close>

definition scripted :: "response pyres \<Rightarrow> jobj list transport" where
  "scripted answer = \<lparr>tr_attempt = (\<lambda>f w. (answer, w @ [f])), tr_outcome = (\<lambda>f w. (Ret (), w @ [f])),
     tr_numbering = None\<rparr>"

definition sample_deps :: "'w deps" where
  "sample_deps = \<lparr>dp_new_id = ret sample_id, dp_now = ret (ustr ''2026-01-02T03:04:05Z''), dp_token = ret []\<rparr>"

definition sample_session :: "'w transport \<Rightarrow> 'w amcp_session" where
  "sample_session tr = \<lparr>se_transport = tr, se_session_id = sample_sid, se_signer = None, se_numbering = 0,
     se_deps = sample_deps, se_polluted_stop = False, se_countersignature_verifier = None,
     se_require_countersign = False\<rparr>"

lemma sample_session_fields [simp]:
  "se_transport (sample_session tr) = tr" "se_session_id (sample_session tr) = sample_sid"
  "se_signer (sample_session tr) = None" "se_numbering (sample_session tr) = 0"
  "se_deps (sample_session tr) = sample_deps" "se_polluted_stop (sample_session tr) = False"
  "se_countersignature_verifier (sample_session tr) = None" "se_require_countersign (sample_session tr) = False"
  by (simp_all add: sample_session_def)

definition sample_action :: audited_action where
  "sample_action = \<lparr>ac_id = sample_id, ac_action_type = ustr ''db.write'',
     ac_target = [(KIND, JStr (ustr ''table'')), (REF, JStr (ustr ''orders''))], ac_mutates = True, ac_egress = False,
     ac_disclose = None, ac_commit_hash = None, ac_disclosure = None, ac_salted_hash = None\<rparr>"

definition sample_accept :: accept_response where
  "sample_accept = \<lparr>acc_seq = 0, acc_record_hash = GENESIS_HASH, acc_host_ts = ustr ''2026-01-02T03:04:06Z'',
     acc_previous_hash = GENESIS_HASH, acc_host_signature = None, acc_host_key_id = None, acc_log_id = None\<rparr>"

definition sample_tool :: "'w \<Rightarrow> 'w tool" where
  "sample_tool w = \<lparr>tl_next_signer_seq = (\<lambda>_. 0), tl_fresh = 0, tl_world = w\<rparr>"

definition sample_attempt :: jobj where
  "sample_attempt = event_to_wire (sample_session (scripted (Ret Unavailable))) sample_action
     (ustr ''2026-01-02T03:04:05Z'') ATTEMPTED None"

lemma sample_attempt_valid: "first_validation_error sample_lib (JDict sample_attempt) = None"
  by code_simp

lemma sample_build:
  "build sample_lib (sample_session tr) sample_action ATTEMPTED None None t = (Ret sample_attempt, t)"
proof -
  have e: "event_to_wire (sample_session tr) sample_action (ustr ''2026-01-02T03:04:05Z'') ATTEMPTED None = sample_attempt"
    by (simp add: sample_attempt_def event_to_wire_def)
  show ?thesis
    using sample_attempt_valid
    by (simp add: build_def thenM_def seam_def e sample_deps_def ret_def stamp_def Let_def)
qed

lemma sample_section:
  "tr_attempt tr sample_attempt (tl_world t) = (Ret r, w) \<Longrightarrow>
     attempt_section sample_lib (sample_session tr) sample_action t =
       (Ret (sample_attempt, Answered r), t\<lparr>tl_world := w\<rparr>)"
  using sample_build [of tr t]
  by (simp add: attempt_section_def numbering_section_def thenM_def catchM_def seam_def ret_def)

lemma sample_enters:
  "enter sample_lib (sample_session (scripted (Ret (Accept sample_accept)))) sample_action (sample_tool []) =
     (Ret sample_accept, sample_tool [sample_attempt])"
proof -
  have "tr_attempt (scripted (Ret (Accept sample_accept))) sample_attempt (tl_world (sample_tool [])) =
      (Ret (Accept sample_accept), [sample_attempt])"
    by (simp add: scripted_def sample_tool_def)
  from sample_section [OF this] show ?thesis
    by (simp add: enter_def thenM_def clear_def check_countersigned_def check_polluted_def sample_accept_def
        sample_tool_def ret_def)
qed

section \<open>Audit before act\<close>

text \<open>
  C3. Audit before act: if the domain action makes any difference to what an audited call does, then the
  tool had sent the action's own valid attempt, the transport had answered it with an accept, and every
  check the session makes had passed: the required countersignature is there, one that could be checked
  verified over the host-assigned fields, and the record hash recomputed over the attempt is the accept's.
\<close>

theorem audit_before_act:
  assumes "audited L se ac body t \<noteq> audited L se ac body' t"
  shows "\<exists>a attempt t'. enter L se ac t = (Ret a, t') \<and> cleared L se ac attempt a"
proof (cases "enter L se ac t")
  case (Pair r t')
  show ?thesis
  proof (cases r)
    case (Ret a)
    from wp_Ret [OF wp_enter Pair [unfolded Ret]] Pair Ret show ?thesis by blast
  next
    case (Exc e)
    with Pair assms show ?thesis by (simp add: audited_def thenM_def)
  qed
qed

theorem audit_before_act_witness:
  "\<exists>a attempt t'. enter sample_lib (sample_session (scripted (Ret (Accept sample_accept)))) sample_action (sample_tool [])
       = (Ret a, t') \<and>
     cleared sample_lib (sample_session (scripted (Ret (Accept sample_accept)))) sample_action attempt a"
proof -
  let ?s = "sample_session (scripted (Ret (Accept sample_accept)))"
  have "fst (audited sample_lib ?s sample_action (\<lambda>_. raise Cancelled) (sample_tool [])) \<noteq>
      fst (audited sample_lib ?s sample_action (\<lambda>_. ret ()) (sample_tool []))"
  proof -
    have "\<exists>t'. leave sample_lib ?s sample_action False (sample_tool [sample_attempt]) = (Ret (), t')"
    proof -
      have "fst (leave sample_lib ?s sample_action False (sample_tool [sample_attempt])) = Ret ()" by code_simp
      then show ?thesis by (metis prod.collapse)
    qed
    moreover obtain r t' where "leave sample_lib ?s sample_action True (sample_tool [sample_attempt]) = (r, t')"
      by (metis prod.exhaust)
    ultimately show ?thesis
      by (cases r) (auto simp: audited_def thenM_def catchM_def sample_enters ret_def raise_def)
  qed
  then have "audited sample_lib ?s sample_action (\<lambda>_. raise Cancelled) (sample_tool []) \<noteq>
      audited sample_lib ?s sample_action (\<lambda>_. ret ()) (sample_tool [])"
    by metis
  from audit_before_act [OF this] show ?thesis .
qed



text \<open>
  An abort always surfaces: whatever the signer and the transport do while the aborted outcome is
  emitted, the caller gets \<open>AmcpAbortedError\<close> with the reason, or the cancellation that interrupted it; it
  never returns, so the domain action never runs after it.
\<close>

theorem abort_always_surfaces:
  "\<exists>e t'. abort L se ac reason t = (Exc e, t') \<and>
     (e = AmcpAbortedError (ac_action_type ac) (target_ref ac) reason \<or> e = Cancelled)"
  by (rule abort_raises)

section \<open>Faults of the transport\<close>

definition number_in_force :: "'w amcp_session \<Rightarrow> 'w tool \<Rightarrow> int option" where
  "number_in_force se t = (case se_signer se of None \<Rightarrow> None | Some _ \<Rightarrow> Some (tl_next_signer_seq t (se_numbering se)))"

definition advanced :: "'w amcp_session \<Rightarrow> 'w tool \<Rightarrow> 'w tool \<Rightarrow> 'w tool" where
  "advanced se t t' = (case number_in_force se t of None \<Rightarrow> t' | Some n \<Rightarrow> advance (se_numbering se) (n + 1) t')"

text \<open>
  C25. When the transport raises on the attempt, the tool fails closed with \<open>host-unavailable\<close>, except that
  a misuse of the SDK and a cancellation reach the caller as themselves. The fault is absorbed inside the
  numbering section, so the number of the attempt that was never answered is spent all the same.
\<close>

theorem transport_fault_fails_closed:
  assumes "build L se ac ATTEMPTED (number_in_force se t) None t = (Ret attempt, t1)"
    and "tr_attempt (se_transport se) attempt (tl_world t1) = (Exc e, w)"
  shows "enter L se ac t =
     (if e = AmcpUsageError \<or> \<not> is_Exception e then (Exc e, t1\<lparr>tl_world := w\<rparr>)
      else abort L se ac HOST_UNAVAILABLE (advanced se t (t1\<lparr>tl_world := w\<rparr>)))"
  using assms
  by (auto simp: enter_def attempt_section_def numbering_section_def number_in_force_def advanced_def advance_def
      thenM_def withS_def catchM_def seam_def modify_def ret_def raise_def Let_def split: option.splits)

theorem transport_fault_fails_closed_witness:
  "enter sample_lib (sample_session (scripted (Exc OtherException))) sample_action (sample_tool []) =
     abort sample_lib (sample_session (scripted (Exc OtherException))) sample_action HOST_UNAVAILABLE
       (sample_tool [sample_attempt])"
proof -
  have n: "number_in_force (sample_session (scripted (Exc OtherException))) t = None" for t
    by (simp add: number_in_force_def)
  have w: "tr_attempt (se_transport (sample_session (scripted (Exc OtherException)))) sample_attempt
      (tl_world (sample_tool [])) = (Exc OtherException, [sample_attempt])"
    by (simp add: scripted_def sample_tool_def)
  have b: "build sample_lib (sample_session (scripted (Exc OtherException))) sample_action ATTEMPTED
      (number_in_force (sample_session (scripted (Exc OtherException))) (sample_tool [])) None (sample_tool []) =
      (Ret sample_attempt, sample_tool [])"
    by (simp add: n sample_build)
  from transport_fault_fails_closed [OF b w]
  show ?thesis by (simp add: advanced_def n is_Exception_def sample_tool_def)
qed

section \<open>The end of an action\<close>

text \<open>
  The audit layer never replaces what the domain action did: once the action was entered, the
  audited call returns what the body returned and raises what it raised, even when the terminal outcome
  cannot be built, signed or sent; only a cancellation during that emission is raised instead.
\<close>

theorem body_result_survives:
  assumes "enter L se ac t = (Ret a, t1)" "body a t1 = (result, t2)"
  shows "\<exists>t3. audited L se ac body t = (result, t3) \<or> audited L se ac body t = (Exc Cancelled, t3)"
proof -
  obtain r t3 where r: "leave L se ac (case result of Ret _ \<Rightarrow> False | Exc _ \<Rightarrow> True) t2 = (r, t3)"
    "r = Ret () \<or> r = Exc Cancelled"
    using leave_quiet by blast
  then show ?thesis
    using assms by (cases result) (auto simp: audited_def thenM_def catchM_def ret_def raise_def)
qed

definition failing_body :: "accept_response \<Rightarrow> (jobj list tool, unit) prog" where
  "failing_body a = raise LookupError"

theorem body_result_survives_witness:
  "\<exists>t3. audited sample_lib (sample_session (scripted (Ret (Accept sample_accept)))) sample_action failing_body
       (sample_tool []) = (Exc LookupError, t3) \<or>
     audited sample_lib (sample_session (scripted (Ret (Accept sample_accept)))) sample_action failing_body
       (sample_tool []) = (Exc Cancelled, t3)"
proof -
  have "failing_body sample_accept (sample_tool [sample_attempt]) = (Exc LookupError, sample_tool [sample_attempt])"
    by (simp add: failing_body_def raise_def)
  from body_result_survives [where body = failing_body, OF sample_enters this] show ?thesis .
qed

section \<open>Construction\<close>

text \<open>
  A session that was constructed is one the specification allows: its id is a lowercase non-nil UUID,
  it recomputes the record hash whenever it signs or requires a countersignature, and it never requires a
  countersignature without a verifier for it. It goes on with the numbering its transport keeps, and only a
  transport that keeps none gets a numbering of its own, at 0.
\<close>

theorem session_construction_safe:
  assumes "new_amcp_session tr session_id op t = (Ret se, t')"
  shows "session_id = JStr (se_session_id se) \<and> fullmatch SESSION_ID_PATTERN (se_session_id se) \<and>
    ((se_signer se \<noteq> None \<or> se_require_countersign se) \<longrightarrow> se_polluted_stop se) \<and>
    (se_require_countersign se \<longrightarrow> se_countersignature_verifier se \<noteq> None) \<and>
    (case tr_numbering tr of
       Some ref \<Rightarrow> se_numbering se = ref \<and> t' = t
     | None \<Rightarrow> se_numbering se = tl_fresh t \<and> tl_next_signer_seq t' = (tl_next_signer_seq t)(tl_fresh t := 0))"
proof -
  have none: "session_options_error session_id op = None"
    using assms by (auto simp: new_amcp_session_def raise_def split: option.splits)
  then obtain s where s: "session_id = JStr s" "fullmatch SESSION_ID_PATTERN s"
    by (auto simp: session_options_error_def split: json.splits if_splits)
  show ?thesis
    using assms none s
    by (auto simp: new_amcp_session_def session_options_error_def session_numbering_def thenM_def ret_def withS_def
        modify_def Let_def split: option.splits if_splits)
qed

definition sample_options :: "'w session_options" where
  "sample_options = \<lparr>op_signer = None, op_deps = sample_deps, op_polluted_stop = None,
     op_countersignature_verifier = None, op_require_countersign = False\<rparr>"

theorem session_construction_safe_witness:
  "\<exists>se t'. new_amcp_session (scripted (Ret Unavailable)) (JStr sample_sid) sample_options (sample_tool []) = (Ret se, t') \<and>
     fullmatch SESSION_ID_PATTERN (se_session_id se) \<and> tl_next_signer_seq t' 0 = 0"
proof -
  have sid: "fullmatch SESSION_ID_PATTERN sample_sid" by code_simp
  then obtain se t' where run:
    "new_amcp_session (scripted (Ret Unavailable)) (JStr sample_sid) sample_options (sample_tool []) = (Ret se, t')"
    by (simp add: new_amcp_session_def session_options_error_def sample_options_def scripted_def session_numbering_def
        thenM_def ret_def withS_def modify_def Let_def)
  from session_construction_safe [OF run] have "se_session_id se = sample_sid" "tl_next_signer_seq t' 0 = 0"
    by (simp_all add: scripted_def sample_tool_def)
  with run sid show ?thesis by auto
qed

section \<open>Numbering\<close>

text \<open>
  The emissions of an audit session, by any of its actions and sessions, in the order the lock lets
  them through; each with the number in force when its section begins and whether it returned.
\<close>

datatype 'w emission =
    AttemptOf "'w amcp_session" audited_action
  | OutcomeOf "'w amcp_session" audited_action outcome "code option"

fun emission_session :: "'w emission \<Rightarrow> 'w amcp_session" where
  "emission_session (AttemptOf se ac) = se"
| "emission_session (OutcomeOf se ac out reason) = se"

fun emit :: "lib \<Rightarrow> 'w emission \<Rightarrow> ('w tool, unit) prog" where
  "emit L (AttemptOf se ac) = thenM (attempt_section L se ac) (\<lambda>_. ret ())"
| "emit L (OutcomeOf se ac out reason) = emit_outcome L se ac out reason"

fun emissions :: "lib \<Rightarrow> nat \<Rightarrow> 'w emission list \<Rightarrow> 'w tool \<Rightarrow> (int \<times> bool) list" where
  "emissions L ref [] t = []"
| "emissions L ref (em # ems) t =
     (tl_next_signer_seq t ref, fst (emit L em t) = Ret ()) # emissions L ref ems (snd (emit L em t))"

lemma emit_numbering:
  assumes "se_signer (emission_session em) \<noteq> None" "se_numbering (emission_session em) = ref"
  shows "tl_next_signer_seq (snd (emit L em t)) ref =
    tl_next_signer_seq t ref + (if fst (emit L em t) = Ret () then 1 else 0)"
proof (cases em)
  case (AttemptOf se ac)
  obtain r t' where run: "numbering_section se (attempt_body L se ac) t = (r, t')" by (metis prod.exhaust)
  have "se_signer se \<noteq> None" using assms(1) AttemptOf by simp
  from section_numbering [OF this keeps_attempt_body run] show ?thesis
    using assms(2) run by (cases r) (simp_all add: AttemptOf attempt_section_body thenM_def ret_def)
next
  case (OutcomeOf se ac out reason)
  obtain r t' where run: "numbering_section se (\<lambda>n. thenM (build L se ac out n reason)
      (\<lambda>event. seam (tr_outcome (se_transport se) event))) t = (r, t')" by (metis prod.exhaust)
  have "se_signer se \<noteq> None" using assms(1) OutcomeOf by simp
  from section_numbering [OF this keeps_seam_outcome run] show ?thesis
    using assms(2) run by (cases r) (simp_all add: OutcomeOf emit_outcome_def)
qed

lemma emissions_numbers:
  assumes "\<forall>em\<in>set ems. se_signer (emission_session em) \<noteq> None \<and> se_numbering (emission_session em) = ref"
    and "i < length ems"
  shows "fst (emissions L ref ems t ! i) =
    tl_next_signer_seq t ref + int (length (filter snd (take i (emissions L ref ems t))))"
  using assms
proof (induction ems arbitrary: t i)
  case (Cons em ems)
  show ?case
  proof (cases i)
    case (Suc j)
    then show ?thesis
      using Cons.IH [of j "snd (emit L em t)"] Cons.prems emit_numbering [of em ref L t] by simp
  qed simp
qed simp

lemma length_emissions [simp]: "length (emissions L ref ems t) = length ems"
  by (induction ems arbitrary: t) simp_all


definition stub_signer :: "'w event_signer" where
  "stub_signer = \<lparr>sg_key_id = ustr ''k'', sg_sign = (\<lambda>e n. ret ((SIGNER_SEQ, JInt n) # e))\<rparr>"


end
