(* ===== verification/Keys.thy ===== *)
theory Keys
  imports Json_Text Codec Effects
begin

text \<open>
  \<open>src/auditable_mcp/l2/algorithms.py\<close>, \<open>l2/keys.py\<close> and \<open>l2/jwk.py\<close>: key registries and their interchange form.
  The cryptography library is the record \<open>crypto\<close> of its functions over public keys \<open>'k\<close>, private keys \<open>'p\<close>
  and hash algorithms \<open>'h\<close>; what it documents of them and the SDK relies on is \<open>crypto_laws\<close>.

  A registry is a state; its methods are programs over it. Its keys are the items of the dictionary in
  insertion order. The contract of a store whose entries live on is the locale \<open>key_lifetime\<close>.
\<close>

section \<open>The cryptography library\<close>

datatype 'p loaded_key = EdPrivate 'p | OtherPrivate

record ('k, 'p, 'h) crypto =
  is_ed25519 :: "'k \<Rightarrow> bool"
  is_ec :: "'k \<Rightarrow> bool"
  is_p256 :: "'k \<Rightarrow> bool"
  spki :: "'k \<Rightarrow> byte list"
  raw_bytes :: "'k \<Rightarrow> byte list"
  ec_x :: "'k \<Rightarrow> nat"
  ec_y :: "'k \<Rightarrow> nat"
  ed_key_of_raw :: "byte list \<Rightarrow> 'k"
  ec_key_of :: "nat \<Rightarrow> nat \<Rightarrow> 'k option"
  ed_verify :: "'k \<Rightarrow> byte list \<Rightarrow> byte list \<Rightarrow> bool"
  ecdsa_verify :: "'k \<Rightarrow> byte list \<Rightarrow> byte list \<Rightarrow> 'h \<Rightarrow> bool"
  dss_der :: "nat \<Rightarrow> nat \<Rightarrow> byte list"
  sha256_alg :: 'h
  ed_sign :: "'p \<Rightarrow> byte list \<Rightarrow> byte list"
  ed_public :: "'p \<Rightarrow> 'k"
  pkcs8_der :: "'p \<Rightarrow> byte list"
  load_private :: "bool \<Rightarrow> byte list \<Rightarrow> 'p loaded_key option"

text \<open>
  Documented behaviour: a key has one kind; its raw or numeric form reads back as the key and has the length
  of its kind; a signature of the private key verifies under its public key; unencrypted PKCS#8 DER reads back.
\<close>

definition crypto_laws :: "('k, 'p, 'h) crypto \<Rightarrow> bool" where
  "crypto_laws C \<longleftrightarrow>
     (\<forall>k. \<not> (is_ed25519 C k \<and> is_ec C k)) \<and>
     (\<forall>k. is_ed25519 C k \<longrightarrow> length (raw_bytes C k) = 32 \<and> ed_key_of_raw C (raw_bytes C k) = k) \<and>
     (\<forall>k. is_ec C k \<and> is_p256 C k \<longrightarrow>
        ec_x C k < 2 ^ 256 \<and> ec_y C k < 2 ^ 256 \<and> ec_key_of C (ec_x C k) (ec_y C k) = Some k) \<and>
     (\<forall>p. is_ed25519 C (ed_public C p)) \<and>
     (\<forall>p m. ed_verify C (ed_public C p) (ed_sign C p m) m) \<and>
     (\<forall>p m. ed_sign C p m \<noteq> []) \<and>
     (\<forall>p. load_private C False (pkcs8_der C p) = Some (EdPrivate p) \<and> take 1 (pkcs8_der C p) = [0x30])"

section \<open>Algorithms, roles and entries\<close>

datatype signature_algorithm = ED25519 | ES256

fun algorithm_str :: "signature_algorithm \<Rightarrow> pystr" where
  "algorithm_str ED25519 = ustr ''Ed25519''"
| "algorithm_str ES256 = ustr ''ES256''"

datatype key_role = TOOL | HOST

fun role_str :: "key_role \<Rightarrow> pystr" where
  "role_str TOOL = ustr ''tool''"
| "role_str HOST = ustr ''host''"

record ('k, 'p) tool_key =
  tk_key_id :: pystr
  tk_public_key :: 'k
  tk_private_key :: 'p

record 'k registered_key =
  rk_algorithm :: signature_algorithm
  rk_public_key :: 'k
  rk_revoked :: bool

definition same_key :: "('k, 'p, 'h) crypto \<Rightarrow> 'k \<Rightarrow> 'k \<Rightarrow> bool" where
  "same_key C left right = (spki C left = spki C right)"

definition is_key_of :: "('k, 'p, 'h) crypto \<Rightarrow> 'k \<Rightarrow> signature_algorithm \<Rightarrow> bool" where
  "is_key_of C k algorithm =
     (if \<not> (case algorithm of ED25519 \<Rightarrow> is_ed25519 C k | ES256 \<Rightarrow> is_ec C k) then False
      else if is_ec C k then is_p256 C k else True)"

section \<open>Tool keys\<close>

definition is_space :: "byte \<Rightarrow> bool" where
  "is_space b = (b = 32 \<or> 9 \<le> b \<and> b \<le> 13)"

definition tool_key_pkcs8 :: "('k, 'p, 'h) crypto \<Rightarrow> ('k, 'p) tool_key \<Rightarrow> byte list" where
  "tool_key_pkcs8 C tk = pkcs8_der C (tk_private_key tk)"

definition load_tool_key :: "('k, 'p, 'h) crypto \<Rightarrow> pystr \<Rightarrow> byte list \<Rightarrow> exn + ('k, 'p) tool_key" where
  "load_tool_key C key_id pkcs8 =
     (if key_id = [] then Inl ValueError
      else let pem = take 5 (dropWhile is_space pkcs8) = replicate 5 45
        in case load_private C pem pkcs8 of
             None \<Rightarrow> Inl ValueError
           | Some OtherPrivate \<Rightarrow> Inl ValueError
           | Some (EdPrivate p) \<Rightarrow>
               Inr \<lparr>tk_key_id = key_id, tk_public_key = ed_public C p, tk_private_key = p\<rparr>)"

section \<open>JSON Web Keys\<close>

definition P256_COORD_LEN :: nat where "P256_COORD_LEN = 32"
definition ED25519_KEY_LEN :: nat where "ED25519_KEY_LEN = 32"
definition ROLE_MEMBER :: pystr where "ROLE_MEMBER = ustr ''amcp_role''"
definition REVOKED_MEMBER :: pystr where "REVOKED_MEMBER = ustr ''amcp_revoked''"

fun kty_of :: "signature_algorithm \<Rightarrow> pystr" where
  "kty_of ED25519 = ustr ''OKP''"
| "kty_of ES256 = ustr ''EC''"

fun crv_of :: "signature_algorithm \<Rightarrow> pystr" where
  "crv_of ED25519 = ustr ''Ed25519''"
| "crv_of ES256 = ustr ''P-256''"

text \<open>\<open>int.to_bytes(n, 'big')\<close> of a number below \<open>256 ^ n\<close>, and \<open>int.from_bytes\<close>.\<close>

fun to_bytes_big :: "nat \<Rightarrow> nat \<Rightarrow> byte list" where
  "to_bytes_big 0 n = []"
| "to_bytes_big (Suc len) n = to_bytes_big len (n div 256) @ [of_nat (n mod 256)]"

definition from_bytes_big :: "byte list \<Rightarrow> nat" where
  "from_bytes_big bs = fold (\<lambda>b n. n * 256 + unat b) bs 0"

definition public_jwk ::
  "('k, 'p, 'h) crypto \<Rightarrow> pystr \<Rightarrow> 'k \<Rightarrow> signature_algorithm \<Rightarrow> key_role \<Rightarrow> bool \<Rightarrow> exn + jobj" where
  "public_jwk C key_id k algorithm role revoked =
     (let jwk = (\<lambda>material.
        [(ustr ''kid'', JStr key_id), (ustr ''kty'', JStr (kty_of algorithm)), (ustr ''crv'', JStr (crv_of algorithm)),
         (ustr ''alg'', JStr (algorithm_str algorithm))] @ material @
        [(ROLE_MEMBER, JStr (role_str role))] @ (if revoked then [(REVOKED_MEMBER, JBool True)] else []))
      in case algorithm of
           ED25519 \<Rightarrow>
             if \<not> is_ed25519 C k then Inl ValueError
             else Inr (jwk [(ustr ''x'', JStr (b64url_encode (raw_bytes C k)))])
         | ES256 \<Rightarrow>
             if \<not> is_ec C k then Inl ValueError
             else Inr (jwk [(ustr ''x'', JStr (b64url_encode (to_bytes_big P256_COORD_LEN (ec_x C k)))),
                            (ustr ''y'', JStr (b64url_encode (to_bytes_big P256_COORD_LEN (ec_y C k))))]))"

text \<open>\<open>str(value)\<close> compared with names that no \<open>repr\<close> of another value spells.\<close>

definition named :: "json \<Rightarrow> pystr \<Rightarrow> bool" where
  "named v s = (v = JStr s)"

definition algorithm_of :: "jobj \<Rightarrow> signature_algorithm option" where
  "algorithm_of jwk = find (\<lambda>a. named (dget jwk (ustr ''kty'')) (kty_of a) \<and> named (dget jwk (ustr ''crv'')) (crv_of a))
     [ED25519, ES256]"

definition role_of :: "jobj \<Rightarrow> key_role option" where
  "role_of jwk = find (\<lambda>r. named (dget jwk ROLE_MEMBER) (role_str r)) [TOOL, HOST]"

text \<open>\<open>alg\<close>, when present, is looked up in a frozenset: an unhashable value raises \<open>TypeError\<close>.\<close>

definition alg_error :: "jobj \<Rightarrow> signature_algorithm \<Rightarrow> exn option" where
  "alg_error jwk a =
     (if \<not> has_key jwk (ustr ''alg'') then None
      else case dget jwk (ustr ''alg'') of
        JList _ \<Rightarrow> Some TypeError
      | JDict _ \<Rightarrow> Some TypeError
      | v \<Rightarrow> if v = JStr (algorithm_str a) then None else Some ValueError)"

definition revoked_error :: "jobj \<Rightarrow> exn option" where
  "revoked_error jwk =
     (if \<not> has_key jwk REVOKED_MEMBER then None
      else case dget jwk REVOKED_MEMBER of JBool _ \<Rightarrow> None | _ \<Rightarrow> Some ValueError)"

definition material :: "jobj \<Rightarrow> string \<Rightarrow> nat \<Rightarrow> byte list option" where
  "material jwk member len =
     (case b64url_decode (dget jwk (ustr member)) of
        None \<Rightarrow> None
      | Some raw \<Rightarrow> if length raw = len then Some raw else None)"

definition key_material :: "('k, 'p, 'h) crypto \<Rightarrow> jobj \<Rightarrow> signature_algorithm \<Rightarrow> 'k option" where
  "key_material C jwk a =
     (case a of
        ED25519 \<Rightarrow> map_option (ed_key_of_raw C) (material jwk ''x'' ED25519_KEY_LEN)
      | ES256 \<Rightarrow>
          (case (material jwk ''x'' P256_COORD_LEN, material jwk ''y'' P256_COORD_LEN) of
             (Some x, Some y) \<Rightarrow> ec_key_of C (from_bytes_big x) (from_bytes_big y)
           | _ \<Rightarrow> None))"

definition public_key_of ::
  "('k, 'p, 'h) crypto \<Rightarrow> jobj \<Rightarrow> exn + (pystr \<times> 'k \<times> signature_algorithm \<times> key_role)" where
  "public_key_of C jwk =
     (if has_key jwk (ustr ''d'') then Inl ValueError
      else case dget jwk (ustr ''kid'') of
        JStr key_id \<Rightarrow>
          if key_id = [] then Inl ValueError
          else (case algorithm_of jwk of
            None \<Rightarrow> Inl ValueError
          | Some a \<Rightarrow>
              (case alg_error jwk a of
                 Some e \<Rightarrow> Inl e
               | None \<Rightarrow>
                   (case role_of jwk of
                      None \<Rightarrow> Inl ValueError
                    | Some role \<Rightarrow>
                        (case revoked_error jwk of
                           Some e \<Rightarrow> Inl e
                         | None \<Rightarrow>
                             (case key_material C jwk a of
                                None \<Rightarrow> Inl ValueError
                              | Some k \<Rightarrow> Inr (key_id, k, a, role))))))
      | _ \<Rightarrow> Inl ValueError)"

definition thumbprint_members :: "jobj \<Rightarrow> string list option" where
  "thumbprint_members jwk =
     (if named (dget jwk (ustr ''kty'')) (ustr ''OKP'') then Some [''crv'', ''kty'', ''x'']
      else if named (dget jwk (ustr ''kty'')) (ustr ''EC'') then Some [''crv'', ''kty'', ''x'', ''y'']
      else None)"

definition is_str :: "json \<Rightarrow> bool" where
  "is_str v = (case v of JStr _ \<Rightarrow> True | _ \<Rightarrow> False)"

definition jwk_thumbprint :: "lib \<Rightarrow> jobj \<Rightarrow> exn + pystr" where
  "jwk_thumbprint L jwk =
     (case thumbprint_members jwk of
        None \<Rightarrow> Inl ValueError
      | Some members \<Rightarrow>
          if list_ex (\<lambda>m. \<not> is_str (dget jwk (ustr m))) members then Inl ValueError
          else Inr (b64url_encode (sha256 L (utf8
            (json_dumps L True (JDict (map (\<lambda>m. (ustr m, dget jwk (ustr m))) members)))))))"

section \<open>The registry\<close>

record 'k key_registry =
  kr_role :: key_role
  kr_keys :: "(pystr \<times> 'k registered_key) list"

definition new_registry :: "key_role \<Rightarrow> 'k key_registry" where
  "new_registry role = \<lparr>kr_role = role, kr_keys = []\<rparr>"

definition get_key :: "'k key_registry \<Rightarrow> pystr \<Rightarrow> 'k registered_key option" where
  "get_key reg key_id = map_of (kr_keys reg) key_id"

definition current_key :: "'k key_registry \<Rightarrow> pystr \<Rightarrow> 'k registered_key option" where
  "current_key reg key_id =
     (case get_key reg key_id of Some e \<Rightarrow> if rk_revoked e then None else Some e | None \<Rightarrow> None)"

definition public_keys :: "'k key_registry \<Rightarrow> 'k list" where
  "public_keys reg = map (\<lambda>(i, e). rk_public_key e) (kr_keys reg)"

definition put_key :: "pystr \<Rightarrow> 'k registered_key \<Rightarrow> 'k key_registry \<Rightarrow> 'k key_registry" where
  "put_key key_id e reg = reg\<lparr>kr_keys := AList.update key_id e (kr_keys reg)\<rparr>"

definition register ::
  "('k, 'p, 'h) crypto \<Rightarrow> pystr \<Rightarrow> 'k \<Rightarrow> signature_algorithm \<Rightarrow> ('k key_registry, unit) prog" where
  "register C key_id k algorithm = withS (\<lambda>reg.
     if key_id = [] then raise ValueError
     else if \<not> is_key_of C k algorithm then raise ValueError
     else case get_key reg key_id of
       Some e \<Rightarrow> if rk_algorithm e \<noteq> algorithm \<or> \<not> same_key C (rk_public_key e) k then raise ValueError else ret ()
     | None \<Rightarrow> modify (put_key key_id \<lparr>rk_algorithm = algorithm, rk_public_key = k, rk_revoked = False\<rparr>))"

definition register_tool_key :: "('k, 'p, 'h) crypto \<Rightarrow> ('k, 'p) tool_key \<Rightarrow> ('k key_registry, unit) prog" where
  "register_tool_key C tk = register C (tk_key_id tk) (tk_public_key tk) ED25519"

definition revoke :: "pystr \<Rightarrow> ('k key_registry, unit) prog" where
  "revoke key_id = withS (\<lambda>reg.
     case get_key reg key_id of
       None \<Rightarrow> raise ValueError
     | Some e \<Rightarrow> modify (put_key key_id (e\<lparr>rk_revoked := True\<rparr>)))"

fun collect :: "('a \<Rightarrow> exn + 'b) \<Rightarrow> 'a list \<Rightarrow> exn + 'b list" where
  "collect f [] = Inr []"
| "collect f (x # xs) = (case f x of Inl e \<Rightarrow> Inl e | Inr y \<Rightarrow>
     (case collect f xs of Inl e \<Rightarrow> Inl e | Inr ys \<Rightarrow> Inr (y # ys)))"

definition to_jwks :: "('k, 'p, 'h) crypto \<Rightarrow> 'k key_registry \<Rightarrow> exn + json" where
  "to_jwks C reg =
     (case collect (\<lambda>(i, e). public_jwk C i (rk_public_key e) (rk_algorithm e) (kr_role reg) (rk_revoked e))
             (sort_key fst (kr_keys reg)) of
        Inl e \<Rightarrow> Inl e
      | Inr jwks \<Rightarrow> Inr (JDict [(ustr ''keys'', JList (map JDict jwks))]))"

fun json_dict :: "json \<Rightarrow> exn + jobj" where
  "json_dict (JDict d) = Inr d"
| "json_dict _ = Inl ValueError"

definition revoke_marked :: "jobj \<Rightarrow> ('k key_registry, unit) prog" where
  "revoke_marked jwk =
     (if dget jwk REVOKED_MEMBER = JBool True
      then (case dget jwk (ustr ''kid'') of JStr i \<Rightarrow> revoke i | _ \<Rightarrow> raise ValueError) else ret ())"

text \<open>Registering every entry, then revoking the marked ones: what \<open>load_jwks\<close> rehearses on a copy.\<close>

definition rehearse ::
  "('k, 'p, 'h) crypto \<Rightarrow> (pystr \<times> 'k \<times> signature_algorithm \<times> key_role) list \<Rightarrow> jobj list
    \<Rightarrow> ('k key_registry, unit) prog" where
  "rehearse C entries jwks =
     thenM (forM entries (\<lambda>(i, k, a, _). register C i k a)) (\<lambda>_.
     forM jwks revoke_marked)"

definition load_jwks :: "('k, 'p, 'h) crypto \<Rightarrow> json \<Rightarrow> ('k key_registry, unit) prog" where
  "load_jwks C document = withS (\<lambda>reg.
     case (case document of JDict d \<Rightarrow> dget d (ustr ''keys'') | _ \<Rightarrow> JNull) of
       JList keys \<Rightarrow>
         (case collect json_dict keys of
            Inl e \<Rightarrow> raise e
          | Inr jwks \<Rightarrow>
              (case collect (public_key_of C) jwks of
                 Inl e \<Rightarrow> raise e
               | Inr entries \<Rightarrow>
                   if list_ex (\<lambda>(_, _, _, role). role \<noteq> kr_role reg) entries then raise ValueError
                   else (case rehearse C entries jwks reg of
                       (Exc e, _) \<Rightarrow> raise e
                     | (Ret _, rehearsal) \<Rightarrow> modify (\<lambda>reg. reg\<lparr>kr_keys := kr_keys rehearsal\<rparr>))))
     | _ \<Rightarrow> raise ValueError)"

definition assert_registries_disjoint ::
  "('k, 'p, 'h) crypto \<Rightarrow> 'k key_registry \<Rightarrow> 'k key_registry \<Rightarrow> exn option" where
  "assert_registries_disjoint C tool_registry host_registry =
     (if kr_role tool_registry \<noteq> TOOL \<or> kr_role host_registry \<noteq> HOST then Some ValueError
      else if list_ex (\<lambda>t. list_ex (same_key C t) (public_keys host_registry)) (public_keys tool_registry)
      then Some ValueError else None)"

end
