(* ===== verification/KeyFacts.thy ===== *)
theory KeyFacts
  imports Keys
begin

text \<open>
  Facts about key registries: the big-endian integers of key material, what a JWK reads back as, the
  invariant of a registry, and the contract \<open>key_lifetime\<close> of a store in which an entry is for life.
\<close>

section \<open>A store whose entries are for life\<close>

text \<open>
  \<open>step r r'\<close>: some operation takes the store from \<open>r\<close> to \<open>r'\<close>. An entry once there stays, and only moves on
  in the order \<open>later\<close>.
\<close>

locale key_lifetime =
  fixes lookup :: "'r \<Rightarrow> 'i \<Rightarrow> 'e option"
    and step :: "'r \<Rightarrow> 'r \<Rightarrow> bool"
    and later :: "'e \<Rightarrow> 'e \<Rightarrow> bool"
  assumes later_refl: "later e e"
    and later_trans: "later e e' \<Longrightarrow> later e' e'' \<Longrightarrow> later e e''"
    and step_later: "step r r' \<Longrightarrow> lookup r i = Some e \<Longrightarrow> \<exists>e'. lookup r' i = Some e' \<and> later e e'"
begin

lemma steps_later:
  "step\<^sup>*\<^sup>* r r' \<Longrightarrow> lookup r i = Some e \<Longrightarrow> \<exists>e'. lookup r' i = Some e' \<and> later e e'"
proof (induction rule: rtranclp_induct)
  case (step r' r'')
  then show ?case using step_later later_trans by meson
qed (use later_refl in blast)

end

section \<open>Big-endian integers\<close>

lemma length_to_bytes_big [simp]: "length (to_bytes_big len n) = len"
  by (induction len arbitrary: n) simp_all

lemma from_bytes_big_snoc: "from_bytes_big (bs @ [b]) = from_bytes_big bs * 256 + unat b"
  by (simp add: from_bytes_big_def)

lemma from_to_bytes_big: "n < 256 ^ len \<Longrightarrow> from_bytes_big (to_bytes_big len n) = n"
proof (induction len arbitrary: n)
  case (Suc len)
  have "n div 256 < 256 ^ len" using Suc.prems by (simp add: less_mult_imp_div_less mult.commute)
  then show ?case
    using Suc.IH [of "n div 256"] by (simp add: from_bytes_big_snoc unat_of_nat_byte)
qed (simp add: from_bytes_big_def)

lemma to_from_bytes_big: "length bs = len \<Longrightarrow> to_bytes_big len (from_bytes_big bs) = bs"
proof (induction bs arbitrary: len rule: rev_induct)
  case (snoc b bs)
  have "unat b < 256" by (rule unat_byte)
  then have "(from_bytes_big bs * 256 + unat b) div 256 = from_bytes_big bs"
    "(from_bytes_big bs * 256 + unat b) mod 256 = unat b"
    by simp_all
  with snoc show ?case by (auto simp: from_bytes_big_snoc)
qed simp

lemma from_bytes_big_bound: "from_bytes_big bs < 256 ^ length bs"
proof (induction bs rule: rev_induct)
  case (snoc b bs)
  have "unat b < 256" by (rule unat_byte)
  with snoc show ?case by (simp add: from_bytes_big_snoc)
qed (simp add: from_bytes_big_def)

section \<open>Reading a JWK back\<close>

lemma is_key_of_ed: "is_key_of C k ED25519 \<Longrightarrow> is_ed25519 C k"
  by (simp add: is_key_of_def split: if_splits)

lemma is_key_of_ec: "is_key_of C k ES256 \<Longrightarrow> is_ec C k \<and> is_p256 C k"
  by (simp add: is_key_of_def split: if_splits)

lemma public_jwk_total: "is_key_of C k a \<Longrightarrow> \<exists>jwk. public_jwk C i k a role revoked = Inr jwk"
  by (cases a) (auto simp: public_jwk_def Let_def dest: is_key_of_ed is_key_of_ec)

lemma key_material_ed:
  assumes "crypto_laws C" "is_ed25519 C k"
  shows "key_material C ((ustr ''x'', JStr (b64url_encode (raw_bytes C k))) # d) ED25519 = Some k"
  using assms by (simp add: key_material_def material_def crypto_laws_def b64url_roundtrip ED25519_KEY_LEN_def)

lemma jwk_reads_back:
  assumes laws: "crypto_laws C" and k: "is_key_of C k a" "i \<noteq> []" and jwk: "public_jwk C i k a role revoked = Inr jwk"
  shows "public_key_of C jwk = Inr (i, k, a, role)" "dget jwk (ustr ''kid'') = JStr i"
    "dget jwk REVOKED_MEMBER = JBool True \<longleftrightarrow> revoked"
proof -
  obtain m where m: "jwk = [(ustr ''kid'', JStr i), (ustr ''kty'', JStr (kty_of a)), (ustr ''crv'', JStr (crv_of a)),
      (ustr ''alg'', JStr (algorithm_str a))] @ m @
      [(ROLE_MEMBER, JStr (role_str role))] @ (if revoked then [(REVOKED_MEMBER, JBool True)] else [])"
    and keys: "set (map fst m) \<subseteq> {ustr ''x'', ustr ''y''}"
    and x: "key_material C jwk a = Some k"
  proof (cases a)
    case ED25519
    with jwk is_key_of_ed [of C k] k(1) laws that show ?thesis
      by (auto simp: public_jwk_def key_material_def material_def b64url_roundtrip crypto_laws_def ED25519_KEY_LEN_def)
  next
    case ES256
    then have "ec_x C k < 256 ^ 32" "ec_y C k < 256 ^ 32" "ec_key_of C (ec_x C k) (ec_y C k) = Some k"
      "is_ec C k"
      using is_key_of_ec [of C k] k(1) laws by (simp_all add: crypto_laws_def)
    with jwk ES256 that show ?thesis
      by (auto simp: public_jwk_def key_material_def material_def b64url_roundtrip P256_COORD_LEN_def from_to_bytes_big)
  qed
  have get: "dget jwk (ustr n) = dget [(ustr ''kid'', JStr i), (ustr ''kty'', JStr (kty_of a)), (ustr ''crv'', JStr (crv_of a)),
      (ustr ''alg'', JStr (algorithm_str a)), (ROLE_MEMBER, JStr (role_str role))] (ustr n)"
    "has_key jwk (ustr n) = (n \<in> {''kid'', ''kty'', ''crv'', ''alg'', ''amcp_role''})"
    if "n \<notin> {''x'', ''y'', ''amcp_revoked''}" for n
  proof -
    have "map_of m (ustr n) = None" using keys that by (auto simp: map_of_eq_None_iff)
    then show "dget jwk (ustr n) = dget [(ustr ''kid'', JStr i), (ustr ''kty'', JStr (kty_of a)),
      (ustr ''crv'', JStr (crv_of a)), (ustr ''alg'', JStr (algorithm_str a)), (ROLE_MEMBER, JStr (role_str role))] (ustr n)"
      "has_key jwk (ustr n) = (n \<in> {''kid'', ''kty'', ''crv'', ''alg'', ''amcp_role''})"
      using that
      by (auto simp: m dget_def has_key_def map_of_append ROLE_MEMBER_def REVOKED_MEMBER_def map_add_def split: option.splits)
  qed
  have revoked: "map_of jwk REVOKED_MEMBER = (if revoked then Some (JBool True) else None)"
  proof -
    have "map_of m REVOKED_MEMBER = None" using keys by (auto simp: map_of_eq_None_iff REVOKED_MEMBER_def)
    then show ?thesis by (simp add: m map_of_append ROLE_MEMBER_def REVOKED_MEMBER_def map_add_def)
  qed
  show "dget jwk (ustr ''kid'') = JStr i" by (simp add: get)
  show "dget jwk REVOKED_MEMBER = JBool True \<longleftrightarrow> revoked" by (simp add: dget_def revoked)
  have kty: "dget jwk (ustr ''kty'') = JStr (kty_of a)" and crv: "dget jwk (ustr ''crv'') = JStr (crv_of a)"
    and alg: "dget jwk (ustr ''alg'') = JStr (algorithm_str a)" and d: "\<not> has_key jwk (ustr ''d'')"
    and r: "dget jwk ROLE_MEMBER = JStr (role_str role)"
    by (simp_all add: get ROLE_MEMBER_def)
  have "algorithm_of jwk = Some a" by (cases a) (simp_all add: algorithm_of_def named_def kty crv)
  moreover have "role_of jwk = Some role" by (cases role) (simp_all add: role_of_def named_def r)
  moreover have "alg_error jwk a = None" by (simp add: alg_error_def alg)
  moreover have "revoked_error jwk = None" by (simp add: revoked_error_def has_key_def dget_def revoked)
  moreover note d
  ultimately show "public_key_of C jwk = Inr (i, k, a, role)"
    using k(2) x by (simp add: public_key_of_def get)
qed

end
