(* ===== verification/Registry.thy ===== *)
theory Registry
  imports KeyFacts
begin

text \<open>
  The life of a key registry (\<open>l2/keys.py\<close>): the operations a deployment may call on it as one step relation,
  its invariant, and what provisioning a peer from a JWK set leaves.
\<close>

section \<open>Entries and operations\<close>

text \<open>The same entry, or a later one: the same key for the same algorithm, a revocation never lifted.\<close>

definition later_entry :: "'k registered_key \<Rightarrow> 'k registered_key \<Rightarrow> bool" where
  "later_entry e e' \<longleftrightarrow> rk_algorithm e' = rk_algorithm e \<and> rk_public_key e' = rk_public_key e \<and>
     (rk_revoked e \<longrightarrow> rk_revoked e')"

definition holds_entry :: "pystr \<Rightarrow> 'k registered_key \<Rightarrow> 'k key_registry \<Rightarrow> bool" where
  "holds_entry i e reg = (\<exists>e'. get_key reg i = Some e' \<and> later_entry e e')"

definition registry_ok :: "('k, 'p, 'h) crypto \<Rightarrow> 'k key_registry \<Rightarrow> bool" where
  "registry_ok C reg \<longleftrightarrow> distinct (map fst (kr_keys reg)) \<and>
     (\<forall>(i, e)\<in>set (kr_keys reg). i \<noteq> [] \<and> is_key_of C (rk_public_key e) (rk_algorithm e))"

text \<open>The operations a deployment may call on a registry.\<close>

datatype ('k, 'p) registry_op =
    OpRegister pystr 'k signature_algorithm
  | OpRegisterToolKey "('k, 'p) tool_key"
  | OpRevoke pystr
  | OpLoad json

fun run_op :: "('k, 'p, 'h) crypto \<Rightarrow> ('k, 'p) registry_op \<Rightarrow> ('k key_registry, unit) prog" where
  "run_op C (OpRegister i k a) = register C i k a"
| "run_op C (OpRegisterToolKey tk) = register_tool_key C tk"
| "run_op C (OpRevoke i) = revoke i"
| "run_op C (OpLoad document) = load_jwks C document"

definition registry_step :: "('k, 'p, 'h) crypto \<Rightarrow> 'k key_registry \<Rightarrow> 'k key_registry \<Rightarrow> bool" where
  "registry_step C reg reg' = (\<exists>op. reg' = snd (run_op C op reg))"

lemma get_put: "get_key (put_key i e reg) j = (if j = i then Some e else get_key reg j)"
  by (simp add: get_key_def put_key_def update_conv')

lemma put_key_role [simp]: "kr_role (put_key i e reg) = kr_role reg"
  by (simp add: put_key_def)

lemma load_cases:
  assumes "load_jwks C document reg = (r, reg')"
  obtains e where "r = Exc e" "reg' = reg"
  | d jwks entries reh where "r = Ret ()" "reg' = reg\<lparr>kr_keys := kr_keys reh\<rparr>" "document = JDict d"
    "dget d (ustr ''keys'') = JList (map JDict jwks)" "collect (public_key_of C) jwks = Inr entries"
    "\<forall>(_, _, _, role)\<in>set entries. role = kr_role reg" "rehearse C entries jwks reg = (Ret (), reh)"
proof -
  have dicts: "collect json_dict keys = Inr jwks \<Longrightarrow> keys = map JDict jwks" for keys jwks
  proof (induction keys arbitrary: jwks)
    case (Cons v keys)
    then show ?case by (cases v) (auto split: sum.splits)
  qed simp
  show thesis
  proof (cases "case document of JDict d \<Rightarrow> dget d (ustr ''keys'') | _ \<Rightarrow> JNull")
    case keys: (JList keys)
    then obtain d where d: "document = JDict d" "dget d (ustr ''keys'') = JList keys" by (cases document) auto
    show thesis
    proof (cases "collect json_dict keys")
      case jwks: (Inr jwks)
      show thesis
      proof (cases "collect (public_key_of C) jwks")
        case entries: (Inr entries)
        show thesis
        proof (cases "list_ex (\<lambda>(_, _, _, role). role \<noteq> kr_role reg) entries")
          case roles: False
          obtain q reh where q: "rehearse C entries jwks reg = (q, reh)" by (metis prod.exhaust)
          show thesis
          proof (cases q)
            case (Ret u)
            show thesis
              by (rule that(2) [of reh d jwks entries])
                (use assms d keys jwks entries roles q Ret dicts [OF jwks] in
                  \<open>auto simp: load_jwks_def withS_def modify_def list_ex_iff\<close>)
          qed (rule that(1), use assms d keys jwks entries roles q in \<open>auto simp: load_jwks_def withS_def raise_def\<close>)
        qed (rule that(1), use assms d keys jwks entries in \<open>auto simp: load_jwks_def withS_def raise_def\<close>)
      qed (rule that(1), use assms d keys jwks in \<open>auto simp: load_jwks_def withS_def raise_def\<close>)
    qed (rule that(1), use assms d keys in \<open>auto simp: load_jwks_def withS_def raise_def\<close>)
  qed (rule that(1), use assms in \<open>auto simp: load_jwks_def withS_def raise_def\<close>)+
qed

lemma keeps_rehearse:
  assumes "\<And>i k a. keeps I (register C i k a)" "\<And>i. keeps I (revoke i)"
  shows "keeps I (rehearse C entries jwks)"
proof -
  have "keeps I (revoke_marked jwk)" for jwk
    by (cases "dget jwk (ustr ''kid'')") (simp_all add: revoke_marked_def assms(2) keeps_ret keeps_raise)
  then show ?thesis
    unfolding rehearse_def by (intro keeps_thenM keeps_forM) (simp_all add: assms(1) split: prod.split)
qed

lemma role_register: "keeps (\<lambda>reg. kr_role reg = c) (register C i k a)"
  by (rule keepsI) (auto simp: register_def wp_simps split: option.split)

lemma role_revoke: "keeps (\<lambda>reg. kr_role reg = c) (revoke i)"
  by (rule keepsI) (auto simp: revoke_def wp_simps split: option.split)

lemma holds_register: "keeps (holds_entry i e) (register C j k a)"
  by (rule keepsI) (auto simp: register_def wp_simps holds_entry_def get_put split: option.split)

lemma holds_revoke: "keeps (holds_entry i e) (revoke j)"
  by (rule keepsI) (auto simp: revoke_def wp_simps holds_entry_def get_put later_entry_def split: option.split)

lemma put_ok:
  assumes "registry_ok C reg" "i \<noteq> []" "is_key_of C (rk_public_key e) (rk_algorithm e)"
  shows "registry_ok C (put_key i e reg)"
proof -
  have "set (AList.update i e xs) \<subseteq> insert (i, e) (set xs)" for xs
    by (induction xs) auto
  then have "\<forall>x\<in>set (AList.update i e (kr_keys reg)). x = (i, e) \<or> x \<in> set (kr_keys reg)" by blast
  with assms show ?thesis by (fastforce simp: registry_ok_def put_key_def distinct_update)
qed

lemma get_in: "get_key reg i = Some e \<Longrightarrow> (i, e) \<in> set (kr_keys reg)"
  by (simp add: get_key_def map_of_SomeD)

lemma ok_register: "keeps (registry_ok C) (register C i k a)"
  by (rule keepsI) (auto simp: register_def wp_simps put_ok split: option.split)

lemma ok_revoke: "keeps (registry_ok C) (revoke i)"
proof (rule keepsI)
  fix reg assume ok: "registry_ok C reg"
  show "wp (revoke i) (\<lambda>_. registry_ok C) (\<lambda>_. registry_ok C) reg"
  proof (cases "get_key reg i")
    case (Some e)
    then have "i \<noteq> []" "is_key_of C (rk_public_key e) (rk_algorithm e)"
      using ok get_in [OF Some] by (auto simp: registry_ok_def)
    with ok Some show ?thesis by (simp add: revoke_def wp_simps put_ok)
  qed (use ok in \<open>simp add: revoke_def wp_simps\<close>)
qed

lemma keeps_op:
  fixes I :: "'k key_registry \<Rightarrow> bool"
  assumes "\<And>i k a. keeps I (register C i k a)" "\<And>i. keeps I (revoke i)"
    and "\<And>reg reh. I reh \<Longrightarrow> I (reg\<lparr>kr_keys := kr_keys reh\<rparr>)"
  shows "keeps I (run_op C op)"
proof (cases op)
  case (OpLoad document)
  show ?thesis
    unfolding OpLoad run_op.simps keeps_def
  proof (intro allI impI)
    fix reg assume I: "I reg"
    obtain r reg' where run: "load_jwks C document reg = (r, reg')" by (metis prod.exhaust)
    from run show "I (snd (load_jwks C document reg))"
    proof (cases rule: load_cases)
      case (2 d jwks entries reh)
      then have "I reh" using keepsD [OF keeps_rehearse [OF assms(1,2), of entries jwks] I] by simp
      with 2 run assms(3) show ?thesis by simp
    qed (use I run in simp)
  qed
qed (use assms(1,2) in \<open>simp_all add: register_tool_key_def\<close>)

lemma holds_op: "keeps (holds_entry i e) (run_op C op)"
  by (rule keeps_op [OF holds_register holds_revoke]) (simp add: holds_entry_def get_key_def)

lemma ok_op: "keeps (registry_ok C) (run_op C op)"
  by (rule keeps_op [OF ok_register ok_revoke]) (simp add: registry_ok_def)

interpretation registry: key_lifetime get_key "registry_step C" later_entry for C
proof
  fix e e' e''
  show "later_entry e e" by (simp add: later_entry_def)
  show "later_entry e e' \<Longrightarrow> later_entry e' e'' \<Longrightarrow> later_entry e e''" by (simp add: later_entry_def)
next
  fix reg reg' i e
  assume "registry_step C reg reg'" "get_key reg i = Some e"
  then obtain op where "reg' = snd (run_op C op reg)" "holds_entry i e reg"
    by (auto simp: registry_step_def holds_entry_def later_entry_def)
  with keepsD [OF holds_op, of i e reg] show "\<exists>e'. get_key reg' i = Some e' \<and> later_entry e e'"
    unfolding holds_entry_def by blast
qed

section \<open>Provisioning a peer\<close>

definition unrevoked :: "'k registered_key \<Rightarrow> 'k registered_key" where
  "unrevoked e = e\<lparr>rk_revoked := False\<rparr>"

lemma update_fresh: "i \<notin> fst ` set xs \<Longrightarrow> AList.update i e xs = xs @ [(i, e)]"
  by (induction xs) auto

lemma register_all:
  assumes "\<forall>(i, e)\<in>set es. i \<noteq> [] \<and> is_key_of C (rk_public_key e) (rk_algorithm e)"
    and "distinct (map fst (kr_keys reg @ es))"
  shows "forM (map (\<lambda>(i, e). (i, rk_public_key e, rk_algorithm e, role)) es) (\<lambda>(i, k, a, _). register C i k a) reg =
    (Ret (), reg\<lparr>kr_keys := kr_keys reg @ map (\<lambda>(i, e). (i, unrevoked e)) es\<rparr>)"
  using assms
proof (induction es arbitrary: reg)
  case (Cons x es)
  obtain i e where x: "x = (i, e)" by (cases x)
  have "i \<notin> set (map fst (kr_keys reg))" using Cons.prems(2) x by auto
  then have "get_key reg i = None" and "AList.update i (unrevoked e) (kr_keys reg) = kr_keys reg @ [(i, unrevoked e)]"
    by (simp_all add: get_key_def map_of_eq_None_iff update_fresh image_image)
  then have step: "register C i (rk_public_key e) (rk_algorithm e) reg =
      (Ret (), reg\<lparr>kr_keys := kr_keys reg @ [(i, unrevoked e)]\<rparr>)"
    using Cons.prems(1) x by (cases e) (simp add: register_def withS_def modify_def put_key_def unrevoked_def)
  show ?case
    using Cons.IH [of "reg\<lparr>kr_keys := kr_keys reg @ [(i, unrevoked e)]\<rparr>"] Cons.prems
    by (simp add: x thenM_def step)
qed (simp add: ret_def)

lemma revoke_all:
  assumes "\<forall>(jwk, i, e)\<in>set (zip jwks es). dget jwk (ustr ''kid'') = JStr i \<and>
      (dget jwk REVOKED_MEMBER = JBool True \<longleftrightarrow> rk_revoked e)"
    and "length jwks = length es" "\<forall>(i, e)\<in>set es. get_key reg i \<noteq> None"
  shows "\<exists>reg'. forM jwks revoke_marked reg = (Ret (), reg') \<and> kr_role reg' = kr_role reg \<and>
    (\<forall>j. get_key reg' j = map_option (\<lambda>x. x\<lparr>rk_revoked := rk_revoked x \<or> (\<exists>e. (j, e) \<in> set es \<and> rk_revoked e)\<rparr>)
       (get_key reg j))"
  using assms
proof (induction es arbitrary: jwks reg)
  case Nil
  then show ?case by (simp add: ret_def option.map_ident_strong)
next
  case (Cons x es)
  obtain i e where x: "x = (i, e)" by (cases x)
  from Cons.prems(2) obtain jwk jwks' where j: "jwks = jwk # jwks'" by (cases jwks) auto
  obtain y where y: "get_key reg i = Some y" using Cons.prems(3) x by auto
  let ?reg = "if rk_revoked e then put_key i (y\<lparr>rk_revoked := True\<rparr>) reg else reg"
  have step: "revoke_marked jwk reg = (Ret (), ?reg)"
    using Cons.prems(1) x j y by (auto simp: revoke_marked_def revoke_def withS_def modify_def ret_def)
  have "\<forall>(i, e)\<in>set es. get_key ?reg i \<noteq> None" using Cons.prems(3) by (auto simp: get_put)
  with Cons.IH [of jwks' ?reg] Cons.prems j obtain reg' where
    "forM jwks' revoke_marked ?reg = (Ret (), reg')" "kr_role reg' = kr_role ?reg"
    "\<forall>j. get_key reg' j = map_option (\<lambda>x. x\<lparr>rk_revoked := rk_revoked x \<or> (\<exists>e. (j, e) \<in> set es \<and> rk_revoked e)\<rparr>)
       (get_key ?reg j)"
    by auto
  moreover have "kr_role ?reg = kr_role reg" by simp
  moreover have "get_key reg' j = map_option
      (\<lambda>z. z\<lparr>rk_revoked := rk_revoked z \<or> (\<exists>e. (j, e) \<in> set (x # es) \<and> rk_revoked e)\<rparr>) (get_key reg j)" for j
    using calculation(3)[rule_format, of j] y x
    by (cases "j = i"; cases "get_key reg j"; cases y) (auto simp: get_put)
  ultimately show ?case
    by (simp add: j thenM_def step)
qed

lemma register_entry:
  "register C i k a reg = (Ret u, reg') \<Longrightarrow>
    \<exists>e. get_key reg' i = Some e \<and> rk_algorithm e = a \<and> same_key C (rk_public_key e) k"
  by (auto simp: register_def withS_def raise_def ret_def modify_def get_put same_key_def
      split: if_splits option.splits)

text \<open>What an entry is, up to the key's interchange form, is kept.\<close>

definition holds_public :: "('k, 'p, 'h) crypto \<Rightarrow> pystr \<Rightarrow> 'k \<Rightarrow> signature_algorithm \<Rightarrow> 'k key_registry \<Rightarrow> bool" where
  "holds_public C i k a reg = (\<exists>e. get_key reg i = Some e \<and> rk_algorithm e = a \<and> same_key C (rk_public_key e) k)"

definition holds_revoked :: "pystr \<Rightarrow> 'k key_registry \<Rightarrow> bool" where
  "holds_revoked i reg = (\<exists>e. get_key reg i = Some e \<and> rk_revoked e)"

lemma later_public:
  assumes "\<And>e. keeps (holds_entry i e) m"
  shows "keeps (holds_public C i k a) m"
  unfolding keeps_def
proof (intro allI impI)
  fix reg assume "holds_public C i k a reg"
  then obtain e where e: "get_key reg i = Some e" "rk_algorithm e = a" "same_key C (rk_public_key e) k"
    by (auto simp: holds_public_def)
  then have "holds_entry i e reg" by (simp add: holds_entry_def later_entry_def)
  with keepsD [OF assms, of e reg] e show "holds_public C i k a (snd (m reg))"
    by (auto simp: holds_entry_def holds_public_def later_entry_def)
qed

lemma later_revoked:
  fixes m :: "('k key_registry, 'u) prog"
  assumes "\<And>e. keeps (holds_entry i e) m"
  shows "keeps (holds_revoked i) m"
  unfolding keeps_def
proof (intro allI impI)
  fix reg :: "'k key_registry" assume "holds_revoked i reg"
  then obtain e where e: "get_key reg i = Some e" "rk_revoked e" by (auto simp: holds_revoked_def)
  then have "holds_entry i e reg" by (simp add: holds_entry_def later_entry_def)
  with keepsD [OF assms, of e reg] e show "holds_revoked i (snd (m reg))"
    by (auto simp: holds_entry_def holds_revoked_def later_entry_def)
qed

text \<open>A loop over a list establishes, for every item, what its step establishes and the other steps keep.\<close>

lemma forM_establishes:
  assumes step: "\<And>x s s'. x \<in> set xs \<Longrightarrow> f x s = (Ret (), s') \<Longrightarrow> P x s'"
    and kept: "\<And>x y. keeps (P x) (f y)"
    and run: "forM xs f s = (Ret (), s')"
  shows "\<forall>x\<in>set xs. P x s'"
  using step run
proof (induction xs arbitrary: s)
  case (Cons x xs)
  from Cons.prems(2) obtain s1 where s1: "f x s = (Ret (), s1)" "forM xs f s1 = (Ret (), s')"
    by (auto simp: thenM_def split: prod.splits pyres.splits)
  have "P x s1" using Cons.prems(1) s1(1) by auto
  then have "P x s'" using keepsD [OF keeps_forM, of "P x" f s1 xs] kept s1(2) by simp
  moreover have "\<forall>y\<in>set xs. P y s'" using Cons.IH [OF _ s1(2)] Cons.prems(1) by simp
  ultimately show ?case by simp
qed simp

lemma revoke_entry: "revoke i reg = (Ret u, reg') \<Longrightarrow> holds_revoked i reg'"
  by (auto simp: revoke_def withS_def raise_def modify_def get_put holds_revoked_def split: option.splits)

lemma holds_marked: "keeps (holds_entry i e) (revoke_marked jwk)"
  by (cases "dget jwk (ustr ''kid'')") (simp_all add: revoke_marked_def holds_revoke keeps_ret keeps_raise)

definition jwk_revoked_in :: "'k key_registry \<Rightarrow> jobj \<Rightarrow> bool" where
  "jwk_revoked_in reg jwk \<longleftrightarrow> (dget jwk REVOKED_MEMBER = JBool True \<longrightarrow>
     (\<exists>i. dget jwk (ustr ''kid'') = JStr i \<and> holds_revoked i reg))"

definition jwk_loaded_in ::
  "('k, 'p, 'h) crypto \<Rightarrow> 'k key_registry \<Rightarrow> pystr \<times> 'k \<times> signature_algorithm \<times> key_role \<Rightarrow> bool" where
  "jwk_loaded_in C reg entry = (case entry of (i, k, a, role) \<Rightarrow> role = kr_role reg \<and> holds_public C i k a reg)"

lemma rehearse_establishes:
  assumes "rehearse C entries jwks reg = (Ret (), reh)"
  shows "(\<forall>(i, k, a, role)\<in>set entries. holds_public C i k a reh) \<and> (\<forall>jwk\<in>set jwks. jwk_revoked_in reh jwk)"
proof -
  from assms obtain mid where
    mid: "forM entries (\<lambda>(i, k, a, _). register C i k a) reg = (Ret (), mid)" "forM jwks revoke_marked mid = (Ret (), reh)"
    by (auto simp: rehearse_def thenM_def split: prod.splits pyres.splits)
  have "\<forall>x\<in>set entries. (\<lambda>(i, k, a, role). holds_public C i k a) x mid"
    by (rule forM_establishes [OF _ _ mid(1)])
      (auto simp: holds_public_def dest!: register_entry intro!: later_public [unfolded holds_public_def] holds_register
        split: prod.split)
  moreover have "keeps (holds_public C i k a) (forM jwks revoke_marked)" for i k a
    by (intro keeps_forM later_public holds_marked)
  ultimately have "\<forall>(i, k, a, role)\<in>set entries. holds_public C i k a reh"
    using keepsD [of _ "forM jwks revoke_marked" mid] mid(2) by fastforce
  moreover have "\<forall>x\<in>set jwks. (\<lambda>jwk reg. jwk_revoked_in reg jwk) x reh"
  proof (rule forM_establishes [OF _ _ mid(2)])
    fix jwk and s s' :: "'a key_registry"
    assume "revoke_marked jwk s = (Ret (), s')"
    then show "jwk_revoked_in s' jwk"
      by (cases "dget jwk (ustr ''kid'')")
        (auto simp: revoke_marked_def jwk_revoked_in_def raise_def dest: revoke_entry split: if_splits)
  next
    fix x y
    have "keeps (holds_revoked i) (revoke_marked y :: ('a key_registry, unit) prog)" for i
      by (intro later_revoked holds_marked)
    then show "keeps (\<lambda>reg :: 'a key_registry. jwk_revoked_in reg x) (revoke_marked y)"
      unfolding jwk_revoked_in_def keeps_def by metis
  qed
  ultimately show ?thesis by simp
qed

lemma collect_Inr: "(\<And>x. x \<in> set xs \<Longrightarrow> f x = Inr (g x)) \<Longrightarrow> collect f xs = Inr (map g xs)"
  by (induction xs) auto

lemma collect_json_dict: "collect json_dict (map JDict jwks) = Inr jwks"
  by (induction jwks) auto

lemma get_key_sorted:
  assumes "distinct (map fst (kr_keys reg))"
  shows "map_of (sort_key fst (kr_keys reg)) i = get_key reg i"
proof -
  have "map_of (sort_key fst (kr_keys reg)) = map_of (kr_keys reg)"
    using assms by (intro map_of_inject_set [THEN iffD2]) (auto simp: distinct_map)
  then show ?thesis by (simp add: get_key_def)
qed

lemma set_zip_map: "set (zip (map f xs) xs) = (\<lambda>x. (f x, x)) ` set xs"
  by (induction xs) auto

lemma jwks_load:
  fixes C :: "('a, 'b, 'c) crypto"
  assumes laws: "crypto_laws C" and ok: "registry_ok C reg"
  shows "\<exists>document reg'. to_jwks C reg = Inr document \<and>
    load_jwks C document (new_registry (kr_role reg)) = (Ret (), reg') \<and> kr_role reg' = kr_role reg \<and>
    (\<forall>i. get_key reg' i = get_key reg i)"
proof -
  define es where "es = sort_key fst (kr_keys reg)"
  have set_es: "set es = set (kr_keys reg)" by (simp add: es_def)
  have dist: "distinct (map fst es)" using ok by (simp add: es_def registry_ok_def distinct_map)
  have es: "\<forall>(i, e)\<in>set es. i \<noteq> [] \<and> is_key_of C (rk_public_key e) (rk_algorithm e)"
    using ok by (simp add: set_es registry_ok_def)
  define jwk where "jwk = (\<lambda>(i, e :: 'a registered_key). projr (public_jwk C i (rk_public_key e) (rk_algorithm e) (kr_role reg) (rk_revoked e)))"
  have jwk: "public_jwk C i (rk_public_key e) (rk_algorithm e) (kr_role reg) (rk_revoked e) = Inr (jwk (i, e))"
    if "(i, e) \<in> set es" for i e
  proof -
    have "is_key_of C (rk_public_key e) (rk_algorithm e)" using es that by auto
    from public_jwk_total [OF this, of i "kr_role reg" "rk_revoked e"] show ?thesis by (auto simp: jwk_def)
  qed
  have reads: "public_key_of C (jwk (i, e)) = Inr (i, rk_public_key e, rk_algorithm e, kr_role reg)"
      "dget (jwk (i, e)) (ustr ''kid'') = JStr i" "dget (jwk (i, e)) REVOKED_MEMBER = JBool True \<longleftrightarrow> rk_revoked e"
    if "(i, e) \<in> set es" for i e
    using jwk_reads_back [OF laws _ _ jwk [OF that]] es that by auto
  define document where "document = JDict [(ustr ''keys'', JList (map JDict (map jwk es)))]"
  have doc: "to_jwks C reg = Inr document"
  proof -
    have "collect (\<lambda>(i, e). public_jwk C i (rk_public_key e) (rk_algorithm e) (kr_role reg) (rk_revoked e)) es
        = Inr (map jwk es)"
      by (rule collect_Inr) (auto simp: jwk)
    then show ?thesis by (simp add: to_jwks_def document_def es_def)
  qed
  define entries where "entries = map (\<lambda>(i, e). (i, rk_public_key e, rk_algorithm e, kr_role reg)) es"
  have collected: "collect (public_key_of C) (map jwk es) = Inr entries"
    unfolding entries_def using reads(1) by (induction es) auto
  let ?mid = "new_registry (kr_role reg) \<lparr>kr_keys := map (\<lambda>(i, e). (i, unrevoked e)) es\<rparr>"
  have "forM entries (\<lambda>(i, k, a, _). register C i k a) (new_registry (kr_role reg)) = (Ret (), ?mid)"
    unfolding entries_def using register_all [OF es, of "new_registry (kr_role reg)"] dist by (simp add: new_registry_def)
  moreover have mid: "get_key ?mid i = map_option unrevoked (get_key reg i)" for i
  proof -
    have "get_key ?mid i = map_option unrevoked (map_of es i)" by (simp add: get_key_def map_of_map)
    then show ?thesis using ok by (simp add: es_def get_key_sorted registry_ok_def)
  qed
  moreover obtain reh where reh: "forM (map jwk es) revoke_marked ?mid = (Ret (), reh)"
    "\<And>j. get_key reh j = map_option
       (\<lambda>x. x\<lparr>rk_revoked := rk_revoked x \<or> (\<exists>e. (j, e) \<in> set es \<and> rk_revoked e)\<rparr>) (get_key ?mid j)"
  proof -
    have "\<forall>(w, i, e)\<in>set (zip (map jwk es) es). dget w (ustr ''kid'') = JStr i \<and>
        (dget w REVOKED_MEMBER = JBool True \<longleftrightarrow> rk_revoked e)"
      using reads(2,3) by (auto simp: set_zip_map)
    moreover have "\<forall>(i, e)\<in>set es. get_key ?mid i \<noteq> None"
      by (auto simp: mid set_es get_key_def map_of_eq_None_iff intro: rev_image_eqI)
    ultimately show thesis using revoke_all [of "map jwk es" es ?mid] that by auto
  qed
  ultimately have "rehearse C entries (map jwk es) (new_registry (kr_role reg)) = (Ret (), reh)"
    by (simp add: rehearse_def thenM_def)
  moreover have roles: "\<forall>(_, _, _, role)\<in>set entries. role = kr_role (new_registry (kr_role reg))"
    by (auto simp: entries_def new_registry_def)
  ultimately have load: "load_jwks C document (new_registry (kr_role reg)) =
      (Ret (), (new_registry (kr_role reg))\<lparr>kr_keys := kr_keys reh\<rparr>)"
    using collected roles
    by (auto simp: load_jwks_def withS_def modify_def document_def dget_def collect_json_dict list_ex_iff simp del: map_map)
  have "get_key reh i = get_key reg i" for i
  proof (cases "get_key reg i")
    case (Some e)
    have "(\<exists>e'. (i, e') \<in> set es \<and> rk_revoked e') \<longleftrightarrow> rk_revoked e"
    proof -
      have "(i, e) \<in> set es" using get_in [OF Some] set_es by blast
      then show ?thesis using eq_key_imp_eq_value [OF dist] by blast
    qed
    then have "get_key reh i = Some (unrevoked e\<lparr>rk_revoked := rk_revoked (unrevoked e) \<or> rk_revoked e\<rparr>)"
      by (simp add: reh(2) mid Some)
    then show ?thesis by (cases e) (simp add: Some unrevoked_def)
  qed (simp add: reh(2) mid)
  with doc load show ?thesis by (auto simp: get_key_def new_registry_def)
qed

end
