(* ===== verification/Signing.thy ===== *)
theory Signing
  imports Registry Session Verify
begin

text \<open>
  \<open>src/auditable_mcp/l2/signing.py\<close> and \<open>l2/verification.py\<close>: the detached signature of an event and of a
  countersignature payload, and their verification against a key registry. A verifier holds its registry by
  reference: \<open>view\<close> reads it from the world the host or the tool runs in, so a key revoked between two events
  is seen at the second. The tool-side verifier answers as \<open>Session\<close> expects; \<open>check\<close> is what the offline
  verifier calls.
\<close>

section \<open>Signing\<close>

definition signature_payload :: "lib \<Rightarrow> jobj \<Rightarrow> canon_error + byte list" where
  "signature_payload L event =
     (case canonicalize L (JDict (filter (\<lambda>(key, value). key \<noteq> SIGNATURE) event)) of
        Inl e \<Rightarrow> Inl e | Inr s \<Rightarrow> Inr (utf8 s))"

definition stamped :: "jobj \<Rightarrow> pystr \<Rightarrow> int \<Rightarrow> jobj" where
  "stamped event key_id signer_seq =
     AList.update SIGNER_SEQ (JInt signer_seq) (AList.update KEY_ID (JStr key_id) event)"

definition sign_event ::
  "lib \<Rightarrow> ('k, 'p, 'h) crypto \<Rightarrow> jobj \<Rightarrow> pystr \<Rightarrow> int \<Rightarrow> 'p \<Rightarrow> canon_error + jobj" where
  "sign_event L C event key_id signer_seq private_key =
     (let signed = stamped event key_id signer_seq
      in case signature_payload L signed of
           Inl e \<Rightarrow> Inl e
         | Inr payload \<Rightarrow>
             Inr (AList.update SIGNATURE (JStr (b64url_encode (ed_sign C private_key payload))) signed))"

definition ed25519_signer :: "lib \<Rightarrow> ('k, 'p, 'h) crypto \<Rightarrow> pystr \<Rightarrow> 'p \<Rightarrow> 'w event_signer" where
  "ed25519_signer L C key_id private_key = \<lparr>sg_key_id = key_id,
     sg_sign = (\<lambda>event signer_seq. canonM (sign_event L C event key_id signer_seq private_key))\<rparr>"

definition signer_from_tool_key :: "lib \<Rightarrow> ('k, 'p, 'h) crypto \<Rightarrow> ('k, 'p) tool_key \<Rightarrow> 'w event_signer" where
  "signer_from_tool_key L C tk = ed25519_signer L C (tk_key_id tk) (tk_private_key tk)"

definition ed25519_countersigner ::
  "('k, 'p, 'h) crypto \<Rightarrow> pystr \<Rightarrow> 'p \<Rightarrow> pystr \<times> (byte list \<Rightarrow> ('w, pystr) prog)" where
  "ed25519_countersigner C key_id private_key =
     (key_id, \<lambda>payload. ret (b64url_encode (ed_sign C private_key payload)))"

section \<open>The signature primitives\<close>

definition P256_RAW_SIGNATURE_LEN :: nat where
  "P256_RAW_SIGNATURE_LEN = 64"

definition decode_signature :: "jobj \<Rightarrow> byte list option" where
  "decode_signature event =
     (let version = dget event SPEC_VERSION_F
      in if version \<noteq> JStr SPEC_VERSION \<and> version \<in> JStr ` set KNOWN_SPEC_VERSIONS
         then b64_standard_decode (dget event SIGNATURE)
         else b64url_decode (dget event SIGNATURE))"

text \<open>The fixed-length \<open>r || s\<close> form as DER, under the given hash or SHA-256.\<close>

definition ecdsa_raw_verify ::
  "('k, 'p, 'h) crypto \<Rightarrow> 'k \<Rightarrow> byte list \<Rightarrow> byte list \<Rightarrow> 'h option \<Rightarrow> bool" where
  "ecdsa_raw_verify C k signature payload hash =
     (let half = P256_RAW_SIGNATURE_LEN div 2
      in ecdsa_verify C k
           (dss_der C (from_bytes_big (take half signature)) (from_bytes_big (drop half signature))) payload
           (case hash of Some h \<Rightarrow> h | None \<Rightarrow> sha256_alg C))"

definition verify_detached_signature ::
  "('k, 'p, 'h) crypto \<Rightarrow> byte list \<Rightarrow> json \<Rightarrow> 'k registered_key \<Rightarrow> 'h option \<Rightarrow> bool" where
  "verify_detached_signature C payload encoded_signature entry hash =
     (case b64url_decode encoded_signature of
        None \<Rightarrow> False
      | Some signature \<Rightarrow>
          if rk_algorithm entry = ED25519 then
            is_ed25519 C (rk_public_key entry) \<and> ed_verify C (rk_public_key entry) signature payload
          else if length signature \<noteq> P256_RAW_SIGNATURE_LEN \<or> \<not> is_ec C (rk_public_key entry) then False
          else ecdsa_raw_verify C (rk_public_key entry) signature payload hash)"

definition verify_ed25519_signature ::
  "lib \<Rightarrow> ('k, 'p, 'h) crypto \<Rightarrow> jobj \<Rightarrow> 'k \<Rightarrow> canon_error + bool" where
  "verify_ed25519_signature L C event k =
     (case decode_signature event of
        None \<Rightarrow> Inr False
      | Some signature \<Rightarrow>
          (case signature_payload L event of
             Inl e \<Rightarrow> Inl e | Inr payload \<Rightarrow> Inr (ed_verify C k signature payload)))"

definition verify_ecdsa_signature ::
  "lib \<Rightarrow> ('k, 'p, 'h) crypto \<Rightarrow> jobj \<Rightarrow> 'k \<Rightarrow> 'h option \<Rightarrow> canon_error + bool" where
  "verify_ecdsa_signature L C event k hash =
     (case decode_signature event of
        None \<Rightarrow> Inr False
      | Some signature \<Rightarrow>
          if length signature \<noteq> P256_RAW_SIGNATURE_LEN then Inr False
          else (case signature_payload L event of
             Inl e \<Rightarrow> Inl e | Inr payload \<Rightarrow> Inr (ecdsa_raw_verify C k signature payload hash)))"

section \<open>The verifier of tool events\<close>

definition event_verifies ::
  "lib \<Rightarrow> ('k, 'p, 'h) crypto \<Rightarrow> 'h option \<Rightarrow> 'k registered_key \<Rightarrow> jobj \<Rightarrow> canon_error + bool" where
  "event_verifies L C hash entry event =
     (if rk_algorithm entry = ED25519 \<and> is_ed25519 C (rk_public_key entry)
      then verify_ed25519_signature L C event (rk_public_key entry)
      else if rk_algorithm entry = ES256 \<and> is_ec C (rk_public_key entry)
      then verify_ecdsa_signature L C event (rk_public_key entry) hash
      else Inr False)"

definition reject_reason ::
  "lib \<Rightarrow> ('k, 'p, 'h) crypto \<Rightarrow> 'h option \<Rightarrow> 'k key_registry \<Rightarrow> jobj \<Rightarrow> bool \<Rightarrow> canon_error + code option" where
  "reject_reason L C hash reg event sealed =
     (case dget event KEY_ID of
        JStr key_id \<Rightarrow>
          (case (if sealed then get_key reg key_id else current_key reg key_id) of
             None \<Rightarrow> Inr (Some UNKNOWN_KEY)
           | Some entry \<Rightarrow>
               (case event_verifies L C hash entry event of
                  Inl e \<Rightarrow> Inl e
                | Inr verified \<Rightarrow> Inr (if verified then None else Some SIGNATURE_INVALID)))
      | _ \<Rightarrow> Inr (Some UNKNOWN_KEY))"

text \<open>\<open>KeyRegistryVerifier(registry)\<close>, its asynchronous \<open>verify\<close> (the host's seam) and its synchronous \<open>check\<close>.\<close>

definition key_registry_verifier_error :: "'k key_registry \<Rightarrow> exn option" where
  "key_registry_verifier_error reg = (if kr_role reg \<noteq> TOOL then Some ValueError else None)"

definition registry_verify ::
  "lib \<Rightarrow> ('k, 'p, 'h) crypto \<Rightarrow> 'h option \<Rightarrow> ('w \<Rightarrow> 'k key_registry) \<Rightarrow> jobj \<Rightarrow> ('w, code option) prog" where
  "registry_verify L C hash view event = withS (\<lambda>w. canonM (reject_reason L C hash (view w) event False))"

definition registry_check ::
  "lib \<Rightarrow> ('k, 'p, 'h) crypto \<Rightarrow> 'h option \<Rightarrow> 'k key_registry \<Rightarrow> jobj \<Rightarrow> canon_error + bool" where
  "registry_check L C hash reg event =
     (case reject_reason L C hash reg event True of Inl e \<Rightarrow> Inl e | Inr r \<Rightarrow> Inr (r = None))"

section \<open>The verifier of countersignatures\<close>

definition countersignature_verifier_error :: "'k key_registry \<Rightarrow> exn option" where
  "countersignature_verifier_error reg = (if kr_role reg \<noteq> HOST then Some ValueError else None)"

definition countersignature_check ::
  "('k, 'p, 'h) crypto \<Rightarrow> 'h option \<Rightarrow> 'k key_registry \<Rightarrow> pystr \<Rightarrow> pystr \<Rightarrow> byte list \<Rightarrow> bool" where
  "countersignature_check C hash reg host_key_id signature payload =
     (case get_key reg host_key_id of
        None \<Rightarrow> False
      | Some entry \<Rightarrow> verify_detached_signature C payload (JStr signature) entry hash)"

definition countersignature_verify ::
  "('k, 'p, 'h) crypto \<Rightarrow> 'h option \<Rightarrow> ('w \<Rightarrow> 'k key_registry) \<Rightarrow> 'w countersignature_verifier" where
  "countersignature_verify C hash view host_key_id signature payload = withS (\<lambda>w.
     case current_key (view w) host_key_id of
       None \<Rightarrow> ret (Verified False)
     | Some entry \<Rightarrow> ret (Verified (verify_detached_signature C payload (JStr signature) entry hash)))"

section \<open>What a signature covers\<close>

lemma filter_update_same: "filter (\<lambda>(key, value). key \<noteq> k) (AList.update k v d) = filter (\<lambda>(key, value). key \<noteq> k) d"
  by (induction d) auto

lemma payload_of_signed: "signature_payload L (AList.update SIGNATURE v d) = signature_payload L d"
  by (simp add: signature_payload_def filter_update_same)

lemma dget_update: "dget (AList.update k v d) j = (if j = k then v else dget d j)"
  by (simp add: dget_def update_conv')

text \<open>A signed event: its own key and number, a base64url signature of its payload, and nothing else changed.\<close>

lemma sign_event_Inr:
  assumes "sign_event L C event key_id n p = Inr ev"
  shows "\<exists>payload. signature_payload L ev = Inr payload \<and>
      dget ev SIGNATURE = JStr (b64url_encode (ed_sign C p payload)) \<and>
      dget ev KEY_ID = JStr key_id \<and> dget ev SIGNER_SEQ = JInt n \<and>
      (\<forall>k. k \<notin> {SIGNATURE, KEY_ID, SIGNER_SEQ} \<longrightarrow> dget ev k = dget event k)"
proof -
  obtain payload where p: "signature_payload L (stamped event key_id n) = Inr payload"
    "ev = AList.update SIGNATURE (JStr (b64url_encode (ed_sign C p payload))) (stamped event key_id n)"
    using assms by (auto simp: sign_event_def Let_def split: sum.splits)
  have "KEY_ID \<noteq> SIGNATURE" "SIGNER_SEQ \<noteq> SIGNATURE" "KEY_ID \<noteq> SIGNER_SEQ"
    by simp_all
  with p show ?thesis by (auto simp: payload_of_signed dget_update stamped_def)
qed

lemma detached_ed25519:
  assumes "crypto_laws C" "rk_algorithm e = ED25519" "rk_public_key e = ed_public C p"
  shows "verify_detached_signature C payload (JStr (b64url_encode (ed_sign C p payload))) e hash"
  using assms by (simp add: verify_detached_signature_def b64url_roundtrip crypto_laws_def)

lemma signed_verifies:
  assumes laws: "crypto_laws C" and s: "sign_event L C event key_id n p = Inr ev"
    and v: "dget event SPEC_VERSION_F = JStr SPEC_VERSION"
    and e: "rk_algorithm e = ED25519" "rk_public_key e = ed_public C p"
  shows "event_verifies L C hash e ev = Inr True"
proof -
  have "SPEC_VERSION_F \<notin> {SIGNATURE, KEY_ID, SIGNER_SEQ}"
    by simp
  with sign_event_Inr [OF s] v obtain payload where "signature_payload L ev = Inr payload"
    "dget ev SIGNATURE = JStr (b64url_encode (ed_sign C p payload))" "dget ev SPEC_VERSION_F = JStr SPEC_VERSION"
    by metis
  with laws e show ?thesis
    by (simp add: event_verifies_def verify_ed25519_signature_def decode_signature_def Let_def b64url_roundtrip
        crypto_laws_def)
qed

lemma reject_reason_None:
  "reject_reason L C hash reg event sealed = Inr None \<longleftrightarrow>
     (\<exists>key_id entry. dget event KEY_ID = JStr key_id \<and>
        (if sealed then get_key reg key_id else current_key reg key_id) = Some entry \<and>
        event_verifies L C hash entry event = Inr True)"
  by (cases "dget event KEY_ID") (auto simp: reject_reason_def split: option.splits sum.splits)

text \<open>What a verified event is: a signature over the canonical text of the rest of it, under the entry's algorithm.\<close>

lemma event_verifies_iff:
  "event_verifies L C hash entry event = Inr True \<longleftrightarrow>
     (\<exists>signature payload. decode_signature event = Some signature \<and> signature_payload L event = Inr payload \<and>
        (rk_algorithm entry = ED25519 \<and> is_ed25519 C (rk_public_key entry) \<and>
           ed_verify C (rk_public_key entry) signature payload \<or>
         rk_algorithm entry = ES256 \<and> is_ec C (rk_public_key entry) \<and> length signature = 64 \<and>
           ecdsa_raw_verify C (rk_public_key entry) signature payload hash))"
  by (auto simp: event_verifies_def verify_ed25519_signature_def verify_ecdsa_signature_def P256_RAW_SIGNATURE_LEN_def
      split: option.splits sum.splits if_splits)

end
