(* ===== verification/Reconcile.thy ===== *)
theory Reconcile
  imports Verify
begin

text \<open>
  \<open>src/auditable_mcp/l2/reconcile.py\<close>: the egress a boundary observed against the egress a tool reported.
  The sets of the code are lists here; membership and the final order do not depend on how a set iterates.
\<close>

definition UNREPORTED_EGRESS :: pystr where
  "UNREPORTED_EGRESS = ustr ''unreported-egress''"

record egress_observation =
  eo_session_id :: pystr
  eo_destination :: pystr

type_synonym boundary_observer = "egress_observation list"

definition new_observer :: boundary_observer where
  "new_observer = []"

definition observe_egress :: "pystr \<Rightarrow> pystr \<Rightarrow> boundary_observer \<Rightarrow> boundary_observer" where
  "observe_egress session_id destination ob = ob @ [\<lparr>eo_session_id = session_id, eo_destination = destination\<rparr>]"

definition for_call :: "boundary_observer \<Rightarrow> pystr \<Rightarrow> egress_observation list" where
  "for_call ob session_id = filter (\<lambda>o'. eo_session_id o' = session_id) ob"

record reconcile_anomaly =
  ra_session_id :: pystr
  ra_kind :: pystr
  ra_destination :: pystr
  ra_detail :: pystr

definition record_target_ref :: "sealed_record \<Rightarrow> json" where
  "record_target_ref r = (case dget (rec_event r) TARGET_RESOURCE of JDict target \<Rightarrow> dget target REF | _ \<Rightarrow> JNull)"

definition reports_egress :: "pystr \<Rightarrow> sealed_record \<Rightarrow> bool" where
  "reports_egress session_id r \<longleftrightarrow>
     dget (rec_event r) SESSION_ID = JStr session_id \<and> truthy (dget (rec_event r) EGRESS)"

text \<open>The set of references raises \<open>TypeError\<close> on an unhashable one.\<close>

definition reconcile ::
  "sealed_record list \<Rightarrow> egress_observation list \<Rightarrow> pystr \<Rightarrow> exn + reconcile_anomaly list" where
  "reconcile rs observations session_id =
     (let reported = map record_target_ref (filter (reports_egress session_id) rs);
          observed = map eo_destination (for_call observations session_id)
      in if \<not> list_all hashable_value reported then Inl TypeError
         else Inr (map (\<lambda>destination. \<lparr>ra_session_id = session_id, ra_kind = UNREPORTED_EGRESS,
             ra_destination = destination, ra_detail = ustr ''observed egress with no self-report''\<rparr>)
           (sort (filter (\<lambda>destination. JStr destination \<notin> set reported) (remdups observed)))))"

lemma observed_iff: "eo_session_id o' = sid \<and> o' \<in> set ob \<longleftrightarrow> o' \<in> set (for_call ob sid)"
  by (auto simp: for_call_def)

lemma for_call_observe:
  "for_call (observe_egress sid d ob) sid' =
     for_call ob sid' @ (if sid = sid' then [\<lparr>eo_session_id = sid, eo_destination = d\<rparr>] else [])"
  by (simp add: for_call_def observe_egress_def)

end
