(* ===== verification/KeyProperties.thy ===== *)
theory KeyProperties
  imports Registry Samples
begin

text \<open>
  What the key registries guarantee, with a cryptography library over byte strings on which each hypothesis holds.
\<close>

section \<open>A sample cryptography library\<close>

text \<open>
  Over byte strings: 32 bytes are an Ed25519 key, 64 a P-256 point, a signature is the key's last byte and a
  sum of the message. It satisfies every law, and signs nothing that matters.
\<close>

definition msg_sum :: "byte list \<Rightarrow> byte" where
  "msg_sum m = sum_list m"

definition sample_crypto :: "(byte list, byte, unit) crypto" where
  "sample_crypto = \<lparr>
     is_ed25519 = (\<lambda>k. length k = 32),
     is_ec = (\<lambda>k. length k = 64),
     is_p256 = (\<lambda>k. True),
     spki = (\<lambda>k. k),
     raw_bytes = (\<lambda>k. k),
     ec_x = (\<lambda>k. if length k = 64 then from_bytes_big (take 32 k) else 0),
     ec_y = (\<lambda>k. if length k = 64 then from_bytes_big (drop 32 k) else 0),
     ed_key_of_raw = (\<lambda>k. k),
     ec_key_of = (\<lambda>x y. Some (to_bytes_big 32 x @ to_bytes_big 32 y)),
     ed_verify = (\<lambda>k s m. s = [last k, msg_sum m]),
     ecdsa_verify = (\<lambda>k s m h. s = [last k, msg_sum m]),
     dss_der = (\<lambda>r s. [of_nat r, of_nat s]),
     sha256_alg = (),
     ed_sign = (\<lambda>p m. [p, msg_sum m]),
     ed_public = (\<lambda>p. replicate 31 0 @ [p]),
     pkcs8_der = (\<lambda>p. [0x30, p]),
     load_private = (\<lambda>pem bs. case bs of [b, p] \<Rightarrow> if b = 0x30 then Some (EdPrivate p) else None | _ \<Rightarrow> None)\<rparr>"

lemma from_bytes_big_half: "length bs = 32 \<Longrightarrow> from_bytes_big bs < 2 ^ 256"
  using from_bytes_big_bound [of bs] by (simp add: power_mult [symmetric, of 2 8 32, simplified])

lemma sample_crypto_laws: "crypto_laws sample_crypto"
  unfolding crypto_laws_def sample_crypto_def
  using from_bytes_big_half [of "take 32 k" for k] from_bytes_big_half [of "drop 32 k" for k]
  by (auto simp: to_from_bytes_big)

section \<open>Properties\<close>

definition sample_key :: "byte \<Rightarrow> byte list" where
  "sample_key p = replicate 31 0 @ [p]"

definition sample_registry :: "byte list key_registry" where
  "sample_registry = \<lparr>kr_role = TOOL, kr_keys =
     [(ustr ''b'', \<lparr>rk_algorithm = ED25519, rk_public_key = sample_key 2, rk_revoked = True\<rparr>),
      (ustr ''a'', \<lparr>rk_algorithm = ES256, rk_public_key = sample_key 1 @ sample_key 3, rk_revoked = False\<rparr>)]\<rparr>"

lemma registry_step_ops:
  "(registry_step C)\<^sup>*\<^sup>* reg (snd (forM ops (run_op C) reg))"
proof (induction ops arbitrary: reg)
  case (Cons op ops)
  have "registry_step C reg (snd (run_op C op reg))" by (auto simp: registry_step_def)
  moreover have "(registry_step C)\<^sup>*\<^sup>* (snd (run_op C op reg)) (snd (forM (op # ops) (run_op C) reg))"
    using Cons.IH [of "snd (run_op C op reg)"] by (auto simp: thenM_def split: prod.split pyres.split)
  ultimately show ?case by (rule converse_rtranclp_into_rtranclp)
qed (simp add: ret_def)

definition sample_ops :: "(byte list, byte) registry_op list" where
  "sample_ops = [OpRegister (ustr ''b'') (sample_key 2) ED25519,
     OpRegister (ustr ''a'') (sample_key 1 @ sample_key 3) ES256, OpRevoke (ustr ''b'')]"

lemma sample_reached: "(registry_step sample_crypto)\<^sup>*\<^sup>* (new_registry TOOL) sample_registry"
proof -
  have "snd (forM sample_ops (run_op sample_crypto) (new_registry TOOL)) = sample_registry"
    by code_simp
  with registry_step_ops [of sample_crypto "new_registry TOOL" sample_ops] show ?thesis by simp
qed

lemma reached_ok:
  assumes "(registry_step C)\<^sup>*\<^sup>* (new_registry role) reg"
  shows "registry_ok C reg"
  using assms
proof (induction rule: rtranclp_induct)
  case (step reg reg')
  then show ?case using keepsD [OF ok_op] by (auto simp: registry_step_def)
qed (simp add: registry_ok_def new_registry_def)

text \<open>
  C35. A key identifier is for life: whatever operations follow (registrations, revocations, loads of JWK sets,
  failed ones included), an identifier that once named a key still names the same key for the same algorithm,
  and a revocation is never lifted.
\<close>

theorem key_for_life:
  assumes "get_key reg i = Some e" "(registry_step C)\<^sup>*\<^sup>* reg reg'"
  shows "\<exists>e'. get_key reg' i = Some e' \<and> rk_algorithm e' = rk_algorithm e \<and> rk_public_key e' = rk_public_key e \<and>
    (rk_revoked e \<longrightarrow> rk_revoked e' \<and> current_key reg' i = None)"
proof -
  obtain e' where "get_key reg' i = Some e'" "later_entry e e'"
    using registry.steps_later [OF assms(2,1)] by blast
  then show ?thesis by (auto simp: later_entry_def current_key_def)
qed

theorem key_for_life_witness:
  "\<exists>e'. get_key (snd (forM sample_ops (run_op sample_crypto) sample_registry)) (ustr ''b'') = Some e' \<and> rk_revoked e'"
proof -
  have "get_key sample_registry (ustr ''b'') = Some \<lparr>rk_algorithm = ED25519, rk_public_key = sample_key 2, rk_revoked = True\<rparr>"
    by code_simp
  from key_for_life [OF this registry_step_ops [of sample_crypto sample_registry sample_ops]] show ?thesis by auto
qed

text \<open>
  C36. Loading a JWK set is all or nothing. A load that raises leaves the registry as it was. A load that returns read
  every entry of the document as a public key of this registry's role, and afterwards each identifier names a key with
  the entry's algorithm and encoding, and each entry marked revoked is revoked.
\<close>

theorem load_jwks_all_or_nothing:
  "case load_jwks C document reg of
     (Exc e, reg') \<Rightarrow> reg' = reg
   | (Ret _, reg') \<Rightarrow> kr_role reg' = kr_role reg \<and>
       (\<exists>d jwks entries. document = JDict d \<and> dget d (ustr ''keys'') = JList (map JDict jwks) \<and>
          collect (public_key_of C) jwks = Inr entries \<and>
          list_all (jwk_loaded_in C reg') entries \<and> list_all (jwk_revoked_in reg') jwks)"
proof -
  obtain r reg' where run: "load_jwks C document reg = (r, reg')" by (metis prod.exhaust)
  from run show ?thesis
  proof (cases rule: load_cases)
    case (2 d jwks entries reh)
    have "get_key reg' i = get_key reh i" for i by (simp add: 2 get_key_def)
    with rehearse_establishes [OF 2(7)] have
      "\<forall>(i, k, a, role)\<in>set entries. holds_public C i k a reg'" "\<forall>jwk\<in>set jwks. jwk_revoked_in reg' jwk"
      by (simp_all add: holds_public_def jwk_revoked_in_def holds_revoked_def)
    then have "list_all (jwk_loaded_in C reg') entries" "list_all (jwk_revoked_in reg') jwks"
      using 2 by (auto simp: list_all_iff jwk_loaded_in_def)
    with 2 have "\<exists>d jwks entries. document = JDict d \<and> dget d (ustr ''keys'') = JList (map JDict jwks) \<and>
        collect (public_key_of C) jwks = Inr entries \<and>
        list_all (jwk_loaded_in C reg') entries \<and> list_all (jwk_revoked_in reg') jwks"
      by blast
    moreover have "kr_role reg' = kr_role reg" by (simp add: 2)
    ultimately show ?thesis using run 2(1) by simp
  qed (simp add: run)
qed

text \<open>
  C37. Provisioning a peer over the wire: the JWK set of a registry (however it was built) loads, in one call, into an
  empty registry of the same role, and leaves exactly the same entries there: identifiers, algorithms, keys and
  revocations.
\<close>

theorem jwks_roundtrip:
  assumes "crypto_laws C" "(registry_step C)\<^sup>*\<^sup>* (new_registry role) reg"
  shows "\<exists>document reg'. to_jwks C reg = Inr document \<and>
    load_jwks C document (new_registry (kr_role reg)) = (Ret (), reg') \<and> kr_role reg' = kr_role reg \<and>
    (\<forall>i. get_key reg' i = get_key reg i)"
  by (rule jwks_load [OF assms(1) reached_ok [OF assms(2)]])

theorem jwks_roundtrip_witness:
  "\<exists>document reg'. to_jwks sample_crypto sample_registry = Inr document \<and>
    load_jwks sample_crypto document (new_registry TOOL) = (Ret (), reg') \<and>
    map_option rk_revoked (get_key reg' (ustr ''b'')) = Some True \<and>
    map_option rk_revoked (get_key reg' (ustr ''a'')) = Some False"
proof -
  have [simp]: "kr_role sample_registry = TOOL"
    "get_key sample_registry (ustr ''b'') = Some \<lparr>rk_algorithm = ED25519, rk_public_key = sample_key 2, rk_revoked = True\<rparr>"
    "get_key sample_registry (ustr ''a'') =
       Some \<lparr>rk_algorithm = ES256, rk_public_key = sample_key 1 @ sample_key 3, rk_revoked = False\<rparr>"
    by (code_simp+)
  show ?thesis using jwks_roundtrip [OF sample_crypto_laws sample_reached] by auto
qed

end
