(* ===== verification/SigningProperties.thy ===== *)
theory SigningProperties
  imports Signing Reconcile KeyProperties
begin

text \<open>
  What Level 2 and the countersignature guarantee, alone and with the host, the tool session and the offline
  verifier they plug into; and what reconciliation reports.
\<close>

section \<open>Signatures\<close>

text \<open>
  C32. Whatever an Ed25519 signer signs, a registry holding the signer's key verifies: the offline check confirms the
  event, and the host's verifier admits it unless the key has been revoked, in which case it answers
  \<open>unknown-key\<close>.
\<close>

theorem signed_event_verifies:
  assumes "crypto_laws C" "sign_event L C event key_id n p = Inr ev"
    and "dget event SPEC_VERSION_F = JStr SPEC_VERSION"
    and "get_key reg key_id = Some \<lparr>rk_algorithm = ED25519, rk_public_key = ed_public C p, rk_revoked = b\<rparr>"
  shows "registry_check L C hash reg ev = Inr True \<and>
    registry_verify L C hash (\<lambda>_. reg) ev w = (Ret (if b then Some UNKNOWN_KEY else None), w)"
proof -
  have kid: "dget ev KEY_ID = JStr key_id" using sign_event_Inr [OF assms(2)] by blast
  have v: "event_verifies L C hash \<lparr>rk_algorithm = ED25519, rk_public_key = ed_public C p, rk_revoked = b\<rparr> ev = Inr True"
    by (rule signed_verifies [OF assms(1,2,3)]) simp_all
  show ?thesis
    using kid v assms(4)
    by (cases b) (simp_all add: registry_check_def registry_verify_def reject_reason_def current_key_def withS_def
        canonM_def ret_def)
qed

definition sample_tool_registry :: "bool \<Rightarrow> byte list key_registry" where
  "sample_tool_registry b = \<lparr>kr_role = TOOL, kr_keys =
     [(ustr ''k1'', \<lparr>rk_algorithm = ED25519, rk_public_key = ed_public sample_crypto 5, rk_revoked = b\<rparr>)]\<rparr>"

definition sample_signed :: "int \<Rightarrow> outcome \<Rightarrow> jobj" where
  "sample_signed n out = projr (sign_event sample_lib sample_crypto (sample_event out) (ustr ''k1'') n 5)"

lemma sample_sign: "sign_event sample_lib sample_crypto (sample_event ATTEMPTED) (ustr ''k1'') 0 5 = Inr (sample_signed 0 ATTEMPTED)"
proof -
  have "\<not> isl (sign_event sample_lib sample_crypto (sample_event ATTEMPTED) (ustr ''k1'') 0 5)" by code_simp
  then show ?thesis by (simp add: sample_signed_def)
qed

theorem signed_event_verifies_witness:
  "registry_verify sample_lib sample_crypto None (\<lambda>_. sample_tool_registry False) (sample_signed 0 ATTEMPTED) () = (Ret None, ()) \<and>
   registry_verify sample_lib sample_crypto None (\<lambda>_. sample_tool_registry True) (sample_signed 0 ATTEMPTED) () =
     (Ret (Some UNKNOWN_KEY), ())"
proof -
  have v: "dget (sample_event ATTEMPTED) SPEC_VERSION_F = JStr SPEC_VERSION" by code_simp
  have k: "get_key (sample_tool_registry b) (ustr ''k1'') =
      Some \<lparr>rk_algorithm = ED25519, rk_public_key = ed_public sample_crypto 5, rk_revoked = b\<rparr>" for b
    by (simp add: sample_tool_registry_def get_key_def)
  show ?thesis
    using signed_event_verifies [OF sample_crypto_laws sample_sign v k [of False], of None "()"]
      signed_event_verifies [OF sample_crypto_laws sample_sign v k [of True], of None "()"] by simp
qed

text \<open>
  C34. Revocation acts forward only. After a key is revoked, the host refuses every new event under it as
  \<open>unknown-key\<close> and answers events under other keys as before, while the check of sealed records, whatever their
  key, gives the same answer as before the revocation; the same holds of countersignatures.
\<close>

theorem revocation_forward_only:
  assumes "revoke i reg = (Ret (), reg')"
  shows "registry_check L C hash reg' event = registry_check L C hash reg event \<and>
    countersignature_check C hash reg' kid sig payload = countersignature_check C hash reg kid sig payload \<and>
    reject_reason L C hash reg' event False =
      (if dget event KEY_ID = JStr i then Inr (Some UNKNOWN_KEY) else reject_reason L C hash reg event False) \<and>
    countersignature_verify C hash (\<lambda>_. reg') i sig payload w = (Ret (Verified False), w)"
proof -
  obtain e where e: "get_key reg i = Some e" "reg' = put_key i (e\<lparr>rk_revoked := True\<rparr>) reg"
    using assms by (auto simp: revoke_def withS_def raise_def modify_def split: option.splits)
  have same: "event_verifies L C hash (e\<lparr>rk_revoked := True\<rparr>) event = event_verifies L C hash e event"
    "verify_detached_signature C payload s (e\<lparr>rk_revoked := True\<rparr>) hash = verify_detached_signature C payload s e hash" for s
    by (simp add: event_verifies_def) (simp add: verify_detached_signature_def cong: option.case_cong if_cong)
  have "registry_check L C hash reg' event = registry_check L C hash reg event"
    using e by (auto simp: registry_check_def reject_reason_def get_put same split: json.split)
  moreover have "countersignature_check C hash reg' kid sig payload = countersignature_check C hash reg kid sig payload"
    using e by (simp add: countersignature_check_def get_put same)
  moreover have "reject_reason L C hash reg' event False =
      (if dget event KEY_ID = JStr i then Inr (Some UNKNOWN_KEY) else reject_reason L C hash reg event False)"
    using e by (auto simp: reject_reason_def current_key_def get_put split: json.split)
  moreover have "countersignature_verify C hash (\<lambda>_. reg') i sig payload w = (Ret (Verified False), w)"
    using e by (simp add: countersignature_verify_def current_key_def get_put withS_def ret_def)
  ultimately show ?thesis by blast
qed

theorem revocation_forward_only_witness:
  "reject_reason sample_lib sample_crypto None (snd (revoke (ustr ''k1'') (sample_tool_registry False)))
     (sample_signed 0 ATTEMPTED) False = Inr (Some UNKNOWN_KEY)"
proof -
  have r: "revoke (ustr ''k1'') (sample_tool_registry False) = (Ret (), snd (revoke (ustr ''k1'') (sample_tool_registry False)))"
    by (simp add: revoke_def sample_tool_registry_def get_key_def withS_def modify_def)
  have k: "dget (sample_signed 0 ATTEMPTED) KEY_ID = JStr (ustr ''k1'')"
    using sign_event_Inr [OF sample_sign] by blast
  show ?thesis
    using revocation_forward_only [OF r, of sample_lib sample_crypto None "sample_signed 0 ATTEMPTED" "[]" "[]" "[]" "()"] k
    by simp
qed

section \<open>Composition with the host\<close>

lemma verify_signature_passes:
  assumes "cap_level (h_capability h) = L2" "verifier (h_seams h) = Some v"
    and "verify_signature event sid h = (Ret None, h')"
  shows "\<exists>k n w. numbered_under event = Some (k, n) \<and> v event (h_world h) = (Ret None, w)"
  using assms
  by (auto simp: verify_signature_def withS_def thenM_def outside_def modify_def ret_def
      split: option.splits prod.splits pyres.splits bool.splits if_splits)

text \<open>An accept is answered only after the signature check of the event passed, in some world.\<close>

lemma accept_verified:
  assumes "cap_level (h_capability h) = L2" "verifier (h_seams h) = Some v"
    and run: "handle_attempt L event expected expired h = (Ret (Accept a), h')"
  shows "\<exists>k n w w'. numbered_under event = Some (k, n) \<and> v event w = (Ret None, w')"
proof -
  obtain h1 where h1: "settle_tail L h = (Ret True, h1)" "handle_attempt_locked L event expected h1 = (Ret (Accept a), h')"
    using run by (auto simp: handle_attempt_def thenM_def ret_def split: if_splits prod.splits pyres.splits)
  obtain sid h2 where h2: "admit L event expected True h1 = (Ret (Inr sid), h2)"
    "handle_admitted_attempt L event sid h2 = (Ret (Accept a), h')"
    using h1(2) by (auto simp: handle_attempt_locked_def thenM_def ret_def split: prod.splits pyres.splits sum.splits)
  obtain h3 where h3: "verify_signature event sid h2 = (Ret None, h3)"
    using h2(2) by (auto simp: handle_admitted_attempt_def thenM_def ret_def modify_def split: prod.splits pyres.splits option.splits)
  have "config h2 = config h"
    using keepsD [OF config_settle_tail, of h "config h" L] h1(1)
      keepsD [OF config_admit, of h1 "config h1" L event expected True] h2(1) by simp
  then show ?thesis
    using verify_signature_passes [OF _ _ h3] assms(1,2) by (auto simp: config_def)
qed

text \<open>
  C31. A Level-2 host accepts nothing it did not verify: whenever it answers accept, a signer number and a key
  identifier are on the event, the registry holds a current entry under that identifier, and the event's signature, over
  the canonical text of the rest of the event, verifies under the entry's key.
\<close>

theorem level2_accept_verified:
  fixes h :: "'w host"
  assumes "cap_level (h_capability h) = L2"
    and "verifier (h_seams h) = Some (registry_verify L C hash (\<lambda>_. reg))"
    and "handle_attempt L event expected expired h = (Ret (Accept a), h')"
  shows "\<exists>k n e signature payload. numbered_under event = Some (k, n) \<and> current_key reg k = Some e \<and>
    decode_signature event = Some signature \<and> signature_payload L event = Inr payload \<and>
    (rk_algorithm e = ED25519 \<and> ed_verify C (rk_public_key e) signature payload \<or>
     rk_algorithm e = ES256 \<and> length signature = 64 \<and> ecdsa_raw_verify C (rk_public_key e) signature payload hash)"
proof -
  obtain k n and w w' :: 'w where k: "numbered_under event = Some (k, n)" "registry_verify L C hash (\<lambda>_. reg) event w = (Ret None, w')"
    using accept_verified [OF assms] by blast
  then have "dget event KEY_ID = JStr k" "reject_reason L C hash reg event False = Inr None"
    by (auto simp: numbered_under_def registry_verify_def withS_def canonM_def raise_def ret_def
        split: json.splits option.splits sum.splits)
  then obtain e where "current_key reg k = Some e" "event_verifies L C hash e event = Inr True"
    by (auto simp: reject_reason_None)
  with k(1) show ?thesis unfolding event_verifies_iff by blast
qed


definition sample_level2_host :: "bool \<Rightarrow> memory host" where
  "sample_level2_host b = sample_host\<lparr>h_capability := (h_capability sample_host)\<lparr>cap_level := L2\<rparr>,
     h_seams := sample_seams\<lparr>verifier := Some (registry_verify sample_lib sample_crypto None (\<lambda>_. sample_tool_registry b))\<rparr>\<rparr>"

theorem level2_accept_verified_witness:
  "\<exists>a h'. handle_attempt sample_lib (sample_signed 0 ATTEMPTED) None False (sample_level2_host False) = (Ret (Accept a), h') \<and>
     (\<exists>k n. numbered_under (sample_signed 0 ATTEMPTED) = Some (k, n) \<and> current_key (sample_tool_registry False) k \<noteq> None)"
proof -
  have "case fst (handle_attempt sample_lib (sample_signed 0 ATTEMPTED) None False (sample_level2_host False)) of
      Ret (Accept a) \<Rightarrow> acc_seq a = 0 | _ \<Rightarrow> False"
    by code_simp
  then obtain a h' where run:
    "handle_attempt sample_lib (sample_signed 0 ATTEMPTED) None False (sample_level2_host False) = (Ret (Accept a), h')"
    by (cases "handle_attempt sample_lib (sample_signed 0 ATTEMPTED) None False (sample_level2_host False)")
      (auto split: pyres.splits response.splits)
  have h: "cap_level (h_capability (sample_level2_host False)) = L2"
    "verifier (h_seams (sample_level2_host False)) =
       Some (registry_verify sample_lib sample_crypto None (\<lambda>_. sample_tool_registry False))"
    by (simp_all add: sample_level2_host_def)
  from level2_accept_verified [OF h run] run show ?thesis by blast
qed

text \<open>
  C33. What an Ed25519 host countersigns, both readers confirm: for every record such a host seals, the tool's
  verifier confirms the accept made of the record, as long as its registry holds the host's key unrevoked, and the
  offline verifier raises no issue of the countersignature, revoked or not.
\<close>

theorem countersignature_confirmed:
  assumes "crypto_laws C" "countersigner (h_seams h) = Some (ed25519_countersigner C kid p)"
    and seal: "seal_event L event ts h = (Ret (Some r), h')"
    and key: "get_key reg kid = Some \<lparr>rk_algorithm = ED25519, rk_public_key = ed_public C p, rk_revoked = b\<rparr>"
    and tool: "se_countersignature_verifier se = Some (countersignature_verify C hash (\<lambda>_. reg))"
    and offline: "vo_countersignature_checker opts = Some (countersignature_check C hash reg)"
  shows "check_countersigned L se (accept_fields r) t = (Ret (Some (Verified (\<not> b))), t) \<and>
    check_countersignature L opts hashable r = ([], False)"
proof -
  obtain sealed h1 where s: "seal L (h_ledger h) event ts = Inr sealed" "countersign_record L sealed h = (Ret (Some r), h1)"
    using seal by (auto simp: seal_event_def thenM_def gets_def canonM_def raise_def ret_def modify_def
        split: sum.splits prod.splits pyres.splits option.splits if_splits)
  then obtain payload where p: "countersignature_payload L (rec_seqno sealed) (rec_host_ts sealed) (h_log_id h)
      (rec_previous_hash sealed) (rec_record_hash sealed) = Inr payload"
    "r = sealed\<lparr>rec_host_signature := Some (b64url_encode (ed_sign C p payload)), rec_host_key_id := Some kid,
       rec_log_id := Some (h_log_id h)\<rparr>"
    using assms(2) by (auto simp: countersign_record_def ed25519_countersigner_def withS_def thenM_def catchM_def canonM_def
        raise_def ret_def outside_def split: sum.splits)
  have v: "verify_detached_signature C payload (JStr (b64url_encode (ed_sign C p payload)))
      \<lparr>rk_algorithm = ED25519, rk_public_key = ed_public C p, rk_revoked = b\<rparr> hash"
    by (rule detached_ed25519 [OF assms(1)]) simp_all
  have "check_countersigned L se (accept_fields r) t = (Ret (Some (Verified (\<not> b))), t)"
    using p v key tool
    by (cases b) (simp_all add: check_countersigned_def accept_fields_def accept_def countersignature_verify_def
        current_key_def thenM_def canonM_def seam_def withS_def ret_def)
  moreover have "check_countersignature L opts hashable r = ([], False)"
    using p v key offline
    by (simp add: check_countersignature_def triple_present_def countersigned_payload_def countersignature_check_def
        split: bool.split)
  ultimately show ?thesis ..
qed

section \<open>Reconciliation\<close>

text \<open>
  Reconciliation is exact: it raises only on a reported reference that no set can hold, and otherwise reports,
  once each and in order of destination, exactly the destinations the boundary observed for the call that no record of the
  call reports as egress.
\<close>

theorem reconcile_exact:
  "case reconcile rs ob sid of
     Inl e \<Rightarrow> e = TypeError \<and> (\<exists>r\<in>set rs. reports_egress sid r \<and> \<not> hashable_value (record_target_ref r))
   | Inr anomalies \<Rightarrow>
       sorted_wrt (<) (map ra_destination anomalies) \<and>
       list_all (\<lambda>a. ra_session_id a = sid \<and> ra_kind a = UNREPORTED_EGRESS) anomalies \<and>
       (\<forall>d. d \<in> set (map ra_destination anomalies) \<longleftrightarrow>
          (\<exists>o'\<in>set (for_call ob sid). eo_destination o' = d) \<and>
          \<not> (\<exists>r\<in>set rs. reports_egress sid r \<and> record_target_ref r = JStr d))"
proof -
  let ?out = "sort (filter (\<lambda>d. JStr d \<notin> set (map record_target_ref (filter (reports_egress sid) rs)))
    (remdups (map eo_destination (for_call ob sid))))"
  have "distinct ?out" by simp
  then have "sorted_wrt (<) ?out" by (simp only: strict_sorted_iff sorted_sort simp_thms)
  then show ?thesis
    by (auto simp: reconcile_def Let_def comp_def list_all_iff intro: rev_image_eqI)
qed


definition sample_countersigning_host :: "memory host" where
  "sample_countersigning_host = sample_host\<lparr>h_capability := (h_capability sample_host)\<lparr>cap_countersign := CS_HOST\<rparr>,
     h_seams := sample_seams\<lparr>countersigner := Some (ed25519_countersigner sample_crypto (ustr ''h1'') 9)\<rparr>\<rparr>"

definition sample_host_registry :: "byte list key_registry" where
  "sample_host_registry = \<lparr>kr_role = HOST, kr_keys =
     [(ustr ''h1'', \<lparr>rk_algorithm = ED25519, rk_public_key = ed_public sample_crypto 9, rk_revoked = False\<rparr>)]\<rparr>"

definition sample_confirming :: "'w amcp_session \<Rightarrow> 'w amcp_session" where
  "sample_confirming se =
     se\<lparr>se_countersignature_verifier := Some (countersignature_verify sample_crypto None (\<lambda>_. sample_host_registry))\<rparr>"

theorem countersignature_confirmed_witness:
  "\<exists>r h'. seal_event sample_lib (sample_event ATTEMPTED) (ustr ''2026-01-02T03:04:06Z'') sample_countersigning_host =
       (Ret (Some r), h') \<and>
     (\<forall>(se :: unit amcp_session) t.
        check_countersigned sample_lib (sample_confirming se) (accept_fields r) t = (Ret (Some (Verified True)), t))"
proof -
  have "case fst (seal_event sample_lib (sample_event ATTEMPTED) (ustr ''2026-01-02T03:04:06Z'') sample_countersigning_host) of
      Ret (Some r) \<Rightarrow> True | _ \<Rightarrow> False"
    by code_simp
  then obtain r h' where run: "seal_event sample_lib (sample_event ATTEMPTED) (ustr ''2026-01-02T03:04:06Z'')
      sample_countersigning_host = (Ret (Some r), h')"
    by (cases "seal_event sample_lib (sample_event ATTEMPTED) (ustr ''2026-01-02T03:04:06Z'') sample_countersigning_host")
      (auto split: pyres.splits option.splits)
  have c: "countersigner (h_seams sample_countersigning_host) = Some (ed25519_countersigner sample_crypto (ustr ''h1'') 9)"
    by (simp add: sample_countersigning_host_def)
  have k: "get_key sample_host_registry (ustr ''h1'') =
      Some \<lparr>rk_algorithm = ED25519, rk_public_key = ed_public sample_crypto 9, rk_revoked = False\<rparr>"
    by (simp add: sample_host_registry_def get_key_def)
  have o': "vo_countersignature_checker (default_options\<lparr>vo_countersignature_checker :=
      Some (countersignature_check sample_crypto None sample_host_registry)\<rparr>) =
      Some (countersignature_check sample_crypto None sample_host_registry)" by simp
  have s: "se_countersignature_verifier (sample_confirming se) =
      Some (countersignature_verify sample_crypto None (\<lambda>_. sample_host_registry))" for se :: "unit amcp_session" by (simp add: sample_confirming_def)
  from countersignature_confirmed [OF sample_crypto_laws c run k s o'] run show ?thesis by simp
qed

end
