(* ===== verification/Embedding.thy ===== *)
theory Embedding
  imports SessionFacts HostReach Capability
begin

text \<open>
  The pieces that put a tool and a host together: \<open>src/auditable_mcp/in_process.py\<close> (a transport over an embedded
  host) and \<open>decorator.py\<close> (the session bound to a task, and the wrapper of a tool function). The
  contract between the tool and a transport that really seals is the locale \<open>sealing_transport\<close>; the embedded host
  interprets it.
\<close>

section \<open>The in-process transport\<close>

text \<open>The world of the tool is the host itself.\<close>

definition in_process_transport :: "lib \<Rightarrow> 'w host transport" where
  "in_process_transport L = \<lparr>tr_attempt = (\<lambda>event. handle_attempt L event None False),
     tr_outcome = (\<lambda>event. handle_outcome L event None), tr_numbering = None\<rparr>"

definition in_process_negotiate :: "'w host \<Rightarrow> audit_capability \<Rightarrow> negotiation_result" where
  "in_process_negotiate h offered = negotiate (Some (h_capability h)) offered"

section \<open>The session of a task, and decorated tools\<close>

text \<open>The state of a task: its context variable \<open>_current_session\<close>, and the tool it runs.\<close>

record 'w task =
  tk_current :: "'w amcp_session option"
  tk_tool :: "'w tool"

definition in_tool :: "('w tool, 'a) prog \<Rightarrow> ('w task, 'a) prog" where
  "in_tool m = (\<lambda>k. case m (tk_tool k) of (r, t) \<Rightarrow> (r, k\<lparr>tk_tool := t\<rparr>))"

text \<open>\<open>with bound_session(session): body\<close>: the variable is reset to what it was, however the body ends.\<close>

definition bound_session :: "'w amcp_session \<Rightarrow> ('w task, 'a) prog \<Rightarrow> ('w task, 'a) prog" where
  "bound_session se body = (\<lambda>k. case body (k\<lparr>tk_current := Some se\<rparr>) of
     (r, k') \<Rightarrow> (r, k'\<lparr>tk_current := tk_current k\<rparr>))"

definition current_session :: "('w task, 'w amcp_session) prog" where
  "current_session = withS (\<lambda>k. case tk_current k of None \<Rightarrow> raise LookupError | Some se \<Rightarrow> ret se)"

datatype ('w, 'x) target_resource_spec = FixedTarget json | TargetOf "'x \<Rightarrow> ('w tool, json) prog"

definition resolve_target :: "('w, 'x) target_resource_spec \<Rightarrow> 'x \<Rightarrow> ('w tool, json) prog" where
  "resolve_target spec args = (case spec of FixedTarget v \<Rightarrow> ret v | TargetOf f \<Rightarrow> f args)"

definition auditable_tool ::
  "lib \<Rightarrow> pystr \<Rightarrow> bool \<Rightarrow> bool \<Rightarrow> ('w, 'x) target_resource_spec \<Rightarrow> ('x \<Rightarrow> ('w tool, 'a) prog) \<Rightarrow> 'x
    \<Rightarrow> ('w task, 'a) prog" where
  "auditable_tool L action_type mutates egress spec func args =
     thenM current_session (\<lambda>se.
     thenM (in_tool (resolve_target spec args)) (\<lambda>resolved.
     in_tool (thenM (action L se action_type resolved mutates egress
         \<lparr>cx_disclose = None, cx_commit = JNull, cx_commit_salted = None\<rparr>) (\<lambda>ac.
       audited L se ac (\<lambda>_. func args)))))"

section \<open>A transport that seals\<close>

text \<open>
  A call of the world that keeps an invariant and never takes a sealed record away.
\<close>

definition heeds :: "('w \<Rightarrow> bool) \<Rightarrow> ('w \<Rightarrow> sealed_record list) \<Rightarrow> ('w, 'a) prog \<Rightarrow> bool" where
  "heeds okw sealed m \<longleftrightarrow>
     (\<forall>w. okw w \<longrightarrow> okw (snd (m w)) \<and> set (sealed w) \<subseteq> set (sealed (snd (m w))))"

definition signer_heeds :: "('w \<Rightarrow> bool) \<Rightarrow> ('w \<Rightarrow> sealed_record list) \<Rightarrow> 'w amcp_session \<Rightarrow> bool" where
  "signer_heeds okw sealed se \<longleftrightarrow>
     (\<forall>sg e n. se_signer se = Some sg \<longrightarrow> heeds okw sealed (sg_sign sg e n)) \<and>
     (\<forall>v k s p. se_countersignature_verifier se = Some v \<longrightarrow> heeds okw sealed (v k s p)) \<and>
     heeds okw sealed (dp_now (se_deps se)) \<and> heeds okw sealed (dp_new_id (se_deps se)) \<and>
     heeds okw sealed (dp_token (se_deps se))"

locale sealing_transport =
  fixes tr :: "'w transport" and L :: lib and okw :: "'w \<Rightarrow> bool" and sealed :: "'w \<Rightarrow> sealed_record list"
  assumes attempt_heeds: "heeds okw sealed (tr_attempt tr e)"
    and outcome_heeds: "heeds okw sealed (tr_outcome tr e)"
    and accept_sealed: "okw w \<Longrightarrow> tr_attempt tr e w = (Ret (Accept a), w') \<Longrightarrow>
      \<exists>r\<in>set (sealed w'). a = accept_fields r \<and> canonicalize L (JDict (rec_event r)) = canonicalize L (JDict e)"
begin

text \<open>What a program of the tool keeps: the invariant, and every record of \<open>base\<close>.\<close>

definition sound :: "sealed_record set \<Rightarrow> 'w tool \<Rightarrow> bool" where
  "sound base t \<longleftrightarrow> okw (tl_world t) \<and> base \<subseteq> set (sealed (tl_world t))"

lemma sound_seam: "heeds okw sealed m \<Longrightarrow> keeps (sound base) (seam m)"
  by (fastforce simp: keeps_def sound_def seam_def heeds_def split: prod.split)

lemma sound_numbering_section:
  "(\<And>n. keeps (sound base) (body n)) \<Longrightarrow> keeps (sound base) (numbering_section se body)"
  unfolding numbering_section_def Let_def
  by (rule keeps_intros | simp add: sound_def)+

lemma sound_build: "signer_heeds okw sealed se \<Longrightarrow> keeps (sound base) (build L se ac out n reason)"
proof -
  assume s: "signer_heeds okw sealed se"
  have stamp: "keeps (sound base) (stamp se e n)" for e
    using s by (cases "se_signer se"; cases n) (auto simp: stamp_def signer_heeds_def intro: keeps_ret sound_seam)
  then show ?thesis
    unfolding build_def Let_def using s
    by (auto simp: signer_heeds_def intro!: keeps_thenM sound_seam keeps_raise split: option.split)
qed

lemma sound_emit:
  "signer_heeds okw sealed se \<Longrightarrow> se_transport se = tr \<Longrightarrow> keeps (sound base) (emit_outcome L se ac out reason)"
  unfolding emit_outcome_def
  by (intro sound_numbering_section keeps_thenM sound_build sound_seam) (simp_all add: outcome_heeds)

lemma sound_swallow: "keeps (sound base) m \<Longrightarrow> keeps (sound base) (swallow m)"
  unfolding swallow_def by (intro keeps_intros)

lemma sound_abort:
  "signer_heeds okw sealed se \<Longrightarrow> se_transport se = tr \<Longrightarrow> keeps (sound base) (abort L se ac reason)"
  unfolding abort_def emit_aborted_best_effort_def emit_aborted_def
  by (intro keeps_thenM sound_swallow sound_emit keeps_raise)

lemma sound_check_countersigned:
  "signer_heeds okw sealed se \<Longrightarrow> keeps (sound base) (check_countersigned L se a)"
  unfolding check_countersigned_def signer_heeds_def
  by (auto intro!: keeps_intros sound_seam split: option.split)

lemma sound_clear:
  assumes "signer_heeds okw sealed se" "se_transport se = tr"
  shows "keeps (sound base) (clear L se ac attempt r)"
  unfolding clear_def check_polluted_def
  using sound_abort [OF assms] sound_check_countersigned [OF assms(1)]
  by (auto intro!: keeps_intros split: response.split option.split verification.split)

lemma sound_attempt_body:
  assumes "signer_heeds okw sealed se" "se_transport se = tr"
  shows "keeps (sound base) (attempt_body L se ac n)"
  unfolding attempt_body_def using assms
  by (intro keeps_thenM sound_build keeps_catchM sound_seam) (auto intro!: keeps_intros simp: attempt_heeds)

text \<open>The action goes ahead only over a sealed record of the attempt.\<close>

lemma wp_attempt_sealed:
  assumes s: "signer_heeds okw sealed se" "se_transport se = tr" and t: "okw (tl_world t)"
  shows "wp (attempt_section L se ac)
    (\<lambda>x t'. okw (tl_world t') \<and> (\<forall>a. snd x = Answered (Accept a) \<longrightarrow> (\<exists>r\<in>set (sealed (tl_world t')).
        a = accept_fields r \<and> canonicalize L (JDict (rec_event r)) = canonicalize L (JDict (fst x)))))
    (\<lambda>_ t'. okw (tl_world t')) t"
proof -
  have body: "wp (attempt_body L se ac n)
      (\<lambda>x t'. okw (tl_world t') \<and> (\<forall>a. snd x = Answered (Accept a) \<longrightarrow> (\<exists>r\<in>set (sealed (tl_world t')).
          a = accept_fields r \<and> canonicalize L (JDict (rec_event r)) = canonicalize L (JDict (fst x)))))
      (\<lambda>_ t'. okw (tl_world t')) t" for n
    unfolding attempt_body_def wp_thenM
  proof (rule wp_conseq [where Q = "\<lambda>_ t'. okw (tl_world t')" and E = "\<lambda>_ t'. okw (tl_world t')"])
    show "wp (build L se ac ATTEMPTED n None) (\<lambda>_ t'. okw (tl_world t')) (\<lambda>_ t'. okw (tl_world t')) t"
      using sound_build [OF s(1), of "{}"] t by (simp add: keeps_wp sound_def [abs_def])
  next
    fix attempt and t1 :: "'w tool" assume "okw (tl_world t1)"
    moreover obtain r w where run: "tr_attempt tr attempt (tl_world t1) = (r, w)" by (metis prod.exhaust)
    ultimately have "okw w" using attempt_heeds by (metis heeds_def snd_conv)
    with run \<open>okw (tl_world t1)\<close> s(2) show "wp (catchM
        (thenM (seam (tr_attempt (se_transport se) attempt)) (\<lambda>r. ret (attempt, Answered r)))
        (\<lambda>e. if e = AmcpUsageError \<or> \<not> is_Exception e then raise e else ret (attempt, Faulted)))
      (\<lambda>x t'. okw (tl_world t') \<and> (\<forall>a. snd x = Answered (Accept a) \<longrightarrow> (\<exists>r\<in>set (sealed (tl_world t')).
          a = accept_fields r \<and> canonicalize L (JDict (rec_event r)) = canonicalize L (JDict (fst x)))))
      (\<lambda>_ t'. okw (tl_world t')) t1"
      by (cases r) (auto simp: wp_simps wp_def [of "tr_attempt tr attempt"] dest: accept_sealed)
  qed
  have [simp]: "tl_world (advance ref m t') = tl_world t'" for ref m t' by (simp add: advance_def)
  show ?thesis
    unfolding attempt_section_body wp_numbering_section by (cases "se_signer se") (use body in simp_all)
qed

lemma enter_sealed:
  assumes s: "signer_heeds okw sealed se" "se_transport se = tr" and t: "okw (tl_world t)"
    and run: "enter L se ac t = (Ret a, t')"
  shows "okw (tl_world t') \<and> (\<exists>attempt. cleared L se ac attempt a \<and> (\<exists>r\<in>set (sealed (tl_world t')).
      a = accept_fields r \<and> canonicalize L (JDict (rec_event r)) = canonicalize L (JDict attempt)))"
proof -
  obtain attempt answer t1 where sec: "attempt_section L se ac t = (Ret (attempt, answer), t1)"
    and rest: "(case answer of Faulted \<Rightarrow> abort L se ac HOST_UNAVAILABLE | Answered r \<Rightarrow> clear L se ac attempt r) t1 = (Ret a, t')"
    using run by (auto simp: enter_def thenM_def split: prod.splits pyres.splits)
  have cleared0: "sent_attempt L se ac attempt \<and> (\<forall>r. answer = Answered r \<longrightarrow> answered se attempt r)"
    using wp_Ret [OF wp_attempt_section sec] by simp
  have sealed0: "okw (tl_world t1)" "\<And>a. answer = Answered (Accept a) \<Longrightarrow> \<exists>r\<in>set (sealed (tl_world t1)).
      a = accept_fields r \<and> canonicalize L (JDict (rec_event r)) = canonicalize L (JDict attempt)"
    using wp_Ret [OF wp_attempt_sealed [OF s t] sec] by simp_all
  obtain r where r: "answer = Answered r"
  proof (cases answer)
    case Faulted
    then show ?thesis using rest abort_raises [of L se ac HOST_UNAVAILABLE t1] by (metis Pair_inject answer.case(2) pyres.distinct(1))
  qed
  with rest have clear: "clear L se ac attempt r t1 = (Ret a, t')" by simp
  have acc: "r = Accept a" and cl: "cleared L se ac attempt a"
    using wp_Ret [OF wp_clear clear] cleared0 r by simp_all
  obtain x where x: "x \<in> set (sealed (tl_world t1))" "a = accept_fields x"
    "canonicalize L (JDict (rec_event x)) = canonicalize L (JDict attempt)"
    using sealed0(2) r acc by blast
  have "sound {x} (snd (clear L se ac attempt r t1))"
    by (rule keepsD [OF sound_clear [OF s]]) (simp add: sound_def sealed0(1) x(1))
  then show ?thesis using clear cl x by (auto simp: sound_def)
qed

lemma sound_action:
  assumes "signer_heeds okw sealed se"
  shows "keeps (sound base) (action L' se action_type v mutates egress cx)"
proof -
  have "keeps (sound base) (salted_commitment L' se c)" for c
    using assms unfolding salted_commitment_def signer_heeds_def
    by (cases c) (auto simp: encodedM_def intro!: keeps_ret keeps_raise keeps_thenM sound_seam split: option.split)
  moreover have "keeps (sound base) (if b then ret None else thenM (canonM (hash_canonical L' x)) (\<lambda>h. ret (Some h)))" for b x
    by (intro keeps_intros)
  ultimately show ?thesis
    using assms unfolding action_def audited_action_of_def signer_heeds_def
    by (auto intro!: keeps_thenM sound_seam keeps_ret keeps_raise keeps_canonM split: sum.split)
qed

text \<open>A body that matters runs over a sealed record of its own attempt.\<close>

lemma body_sealed:
  assumes s: "signer_heeds okw sealed se" "se_transport se = tr" and t: "okw (tl_world t)"
    and differ: "audited L se ac body t \<noteq> audited L se ac body' t"
  shows "\<exists>a t' attempt. enter L se ac t = (Ret a, t') \<and> cleared L se ac attempt a \<and> okw (tl_world t') \<and>
    (\<exists>r\<in>set (sealed (tl_world t')).
       a = accept_fields r \<and> canonicalize L (JDict (rec_event r)) = canonicalize L (JDict attempt))"
proof -
  obtain r t' where run: "enter L se ac t = (r, t')" by (metis prod.exhaust)
  show ?thesis
  proof (cases r)
    case (Ret a)
    with run have "enter L se ac t = (Ret a, t')" by simp
    with enter_sealed [OF s t this] show ?thesis by metis
  next
    case (Exc e)
    with run differ show ?thesis by (simp add: audited_def thenM_def)
  qed
qed

end

section \<open>What a decorated tool runs\<close>

definition no_context :: action_context where
  "no_context = \<lparr>cx_disclose = None, cx_commit = JNull, cx_commit_salted = None\<rparr>"

lemma decorated_run:
  "bound_session se (auditable_tool L action_type mutates egress (FixedTarget v) func args) k =
     (case action L se action_type v mutates egress no_context (tk_tool k) of
        (Exc e, t) \<Rightarrow> (Exc e, k\<lparr>tk_tool := t\<rparr>)
      | (Ret ac, t) \<Rightarrow> (case audited L se ac (\<lambda>_. func args) t of (r, t') \<Rightarrow> (r, k\<lparr>tk_tool := t'\<rparr>)))"
  by (cases k) (simp add: bound_session_def auditable_tool_def current_session_def resolve_target_def in_tool_def
      no_context_def thenM_def withS_def ret_def split: prod.split pyres.split)

end
