(* ===== verification/HostLive.thy ===== *)
theory HostLive
  imports HostProperties
begin

text \<open>
  The other half of what a host promises: when the outside works, it answers. \<open>working sm\<close> says the seams answer and
  the repository takes the next record.
\<close>

definition working :: "'w store \<Rightarrow> pystr \<Rightarrow> 'w seams \<Rightarrow> bool" where
  "working stored ts sm \<longleftrightarrow> countersigner sm = None \<and> (\<forall>w. \<exists>w'. clock sm w = (Ret ts, w')) \<and>
     (\<forall>rp p r w. repository sm = Some rp \<and> rec_seqno r = int (length (stored w p)) \<longrightarrow>
        (\<exists>w'. rp_append rp p r w = (Ret (), w')))"

section \<open>Digests and accepts\<close>

lemma hexlify_pattern: "list_all is_lower_hex (hexlify bs)"
proof -
  have "is_lower_hex (hex_digit n)" if "n < 16" for n
    using that by (auto simp: is_lower_hex_def is_digit_def between_def hex_digit_def)
  moreover have "unat b div 16 < 16" "unat b mod 16 < 16" for b :: byte
    using unat_byte [of b] by auto
  ultimately show ?thesis by (induction bs) (simp_all add: hexlify_def)
qed

lemma lower_hex_safe: "list_all is_lower_hex s \<Longrightarrow> \<not> lone_surrogate s"
  by (auto simp: lone_surrogate_def list_ex_iff list_all_iff is_lower_hex_def is_digit_def between_def is_surrogate_def)

definition digest_form :: "pystr \<Rightarrow> bool" where
  "digest_form s \<longleftrightarrow> length s = 64 \<and> list_all is_lower_hex s"

lemma digest_form_match: "digest_form s \<Longrightarrow> fullmatch CHAIN_HASH_PATTERN s"
  by (simp add: digest_form_def CHAIN_HASH_PATTERN_def fullmatch_iff in_lang_rep_Cls)

lemma genesis_form: "digest_form GENESIS_HASH"
  by (simp add: digest_form_def GENESIS_HASH_def list_all_iff is_lower_hex_def is_digit_def between_def)

definition sha256_length :: "lib \<Rightarrow> bool" where
  "sha256_length L \<longleftrightarrow> (\<forall>bs. length (sha256 L bs) = 32)"

lemma record_hash_form:
  "sha256_length L \<Longrightarrow> compute_record_hash L e n ts prev = Inr h \<Longrightarrow> digest_form h"
  by (auto simp: compute_record_hash_Inr sha256_hex_def digest_form_def sha256_length_def hexlify_pattern)

lemma chain_tail_form:
  assumes "sha256_length L" "chain_from L n h rs" "digest_form h"
  shows "digest_form (chain_tail h rs)"
  using assms(2,3)
  by (induction rs arbitrary: n h) (auto dest: record_hash_form [OF assms(1)])

lemma ustr_safe: "\<not> lone_surrogate (ustr s)"
proof -
  have "\<not> is_surrogate (of_char c)" for c :: char
    unfolding is_surrogate_def using nat_of_char_less_256 [of c] by linarith
  then show ?thesis by (simp add: lone_surrogate_def ustr_def list_ex_iff)
qed

lemma accept_constructs:
  assumes "digest_form (rec_record_hash r)" "digest_form (rec_previous_hash r)"
    and "fullmatch (DATETIME_PATTERN L) (rec_host_ts r)" "\<not> lone_surrogate (rec_host_ts r)"
    and "0 \<le> rec_seqno r" "rec_seqno r \<le> MAX_SAFE_INTEGER"
    and "rec_host_signature r = None" "rec_host_key_id r = None" "rec_log_id r = None"
  shows "accept_error L (accept_fields r) = None"
proof -
  have s: "\<not> lone_surrogate (rec_record_hash r)" "\<not> lone_surrogate (rec_previous_hash r)"
    using assms(1,2) lower_hex_safe by (auto simp: digest_form_def)
  have wire: "accept_to_wire (accept_fields r) = [
     (ustr ''status'', JStr (status_str ACCEPT)), (SEQ, JInt (rec_seqno r)), (RECORD_HASH, JStr (rec_record_hash r)),
     (HOST_TS, JStr (rec_host_ts r)), (PREVIOUS_HASH, JStr (rec_previous_hash r))]"
    by (simp add: accept_to_wire_def accept_fields_def accept_def opt_member_def assms)
  show ?thesis
    unfolding accept_error_def wire validated_JDict
    using assms s digest_form_match
    by (simp add: ustr_safe null_member_def extra_member_def accept_response_schema_def member_error_def has_key_def dget_def
        json_count_def integral_def countersignature_fields_travel_together_def)
qed

section \<open>Sealing answers\<close>

lemma seal_answers:
  assumes "jcs_total L" "\<not> outside_canonical_domain (JDict e)" "\<not> lone_surrogate ts"
    and "digest_form (led_tail_hash led)" "0 \<le> led_count led" "led_count led \<le> MAX_SAFE_INTEGER"
  shows "\<exists>r. seal L led e ts = Inr r"
proof -
  have "\<not> outside_canonical_domain (record_preimage e (led_count led) ts (led_tail_hash led))"
    using assms lower_hex_safe by (auto simp: outside_domain_preimage digest_form_def)
  then obtain s where "canonicalize L (record_preimage e (led_count led) ts (led_tail_hash led)) = Inr s"
    using canonicalize_total [OF assms(1)] by blast
  then show ?thesis by (simp add: seal_def compute_record_hash_def)
qed

lemma seal_now_answers:
  assumes env: "env_ok stored (h_seams h)" "working stored ts (h_seams h)"
    and pos: "repository (h_seams h) = None \<or> led_count (h_ledger h) = int (length (held stored h))"
    and dig: "event_digest L e = Inr d" and r: "seal L (h_ledger h) e ts = Inr r"
  shows "\<exists>w. seal_now L e h = (Ret (Some r), remembered r d (commit_record r (h\<lparr>h_world := w\<rparr>)))"
proof -
  obtain w where w: "clock (h_seams h) (h_world h) = (Ret ts, w)" using env(2) unfolding working_def by blast
  have st: "stored w = stored (h_world h)" using env(1) w by (metis env_ok_def frame_def snd_conv)
  have cs: "countersigner (h_seams h) = None" using env(2) by (simp add: working_def)
  have ev: "rec_event r = e" "rec_seqno r = led_count (h_ledger h)" using seal_fields [OF r] by simp_all
  have rem: "remember L r h' = (Ret (), remembered r d h')" for h' :: "'a host"
    using wp_remember [of L r "\<lambda>_ h''. h'' = remembered r d h'" "\<lambda>_ _. False" h'] dig ev(1)
    by (auto simp: wp_def split: prod.splits pyres.splits)
  have "\<exists>w'. persist r (h\<lparr>h_world := w\<rparr>) = (Ret True, h\<lparr>h_world := w'\<rparr>)"
  proof (cases "repository (h_seams h)")
    case None
    then show ?thesis by (auto simp: persist_def withS_def ret_def)
  next
    case (Some rp)
    then have "rec_seqno r = int (length (stored w (h_partition h)))" using pos ev st by (simp add: held_def)
    then obtain w' where "rp_append rp (h_partition h) r w = (Ret (), w')"
      using env(2) Some unfolding working_def by blast
    then show ?thesis
      by (auto simp: persist_def withS_def catchM_def thenM_def outside_def ret_def Some)
  qed
  then obtain w' where "persist r (h\<lparr>h_world := w\<rparr>) = (Ret True, h\<lparr>h_world := w'\<rparr>)" ..
  then have "seal_now L e h = (Ret (Some r), remembered r d (commit_record r (h\<lparr>h_world := w'\<rparr>)))"
    using w r cs
    by (simp add: seal_now_def seal_event_def countersign_record_def withS_def thenM_def outside_def gets_def canonM_def
        ret_def modify_def rem)
  then show ?thesis ..
qed

section \<open>Fresh attempts are accepted\<close>

lemma unseen_event:
  assumes inv: "host_inv L base h" and new: "eid \<notin> event_id ` set (events base h)" and op: "h_sessions h sid \<noteq> None"
  shows "ss_outcomes (session_of_id h sid) eid = None \<and> h_sealed_attempts h eid = None"
proof
  have idx: "index_ok L (records base h) (h_sealed_attempts h) (h_sealed_digests h)"
    using inv by (simp add: host_inv_def)
  obtain s where s: "h_sessions h sid = Some s" using op by blast
  then have "outcomes_ok L (events base h) sid (ss_outcomes s)" using inv by (auto simp: host_inv_def session_ok_def)
  then show "ss_outcomes (session_of_id h sid) eid = None"
    using new s unfolding outcomes_ok_def terminal_in_def session_of_id_def or_default_def
    by (cases "ss_outcomes s eid") (simp, metis imageI option.case(2))
  show "h_sealed_attempts h eid = None"
  proof (rule ccontr)
    assume "h_sealed_attempts h eid \<noteq> None"
    then obtain x where "h_sealed_attempts h eid = Some x" by blast
    then have "x \<in> set (records base h)" "event_id (rec_event x) = eid" using idx by (simp_all add: index_ok_def)
    then have "eid \<in> event_id ` set (events base h)" by (metis image_eqI list.set_map)
    with new show False by contradiction
  qed
qed


lemma sample_working: "working mem_stored (ustr ''2026-01-02T03:04:06Z'') sample_seams"
  by (simp add: working_def sample_seams_def sample_clock_def ret_def memory_repository_def mem_append_def mem_stored_def Let_def
      split: option.split)

lemma sample_sha256: "sha256_length sample_lib"
  by (simp add: sha256_length_def sample_lib_def checksum_def Let_def)

lemma sample_open: "h_seams sample_host = sample_seams" "h_persistence_available sample_host"
  "h_sessions sample_host sample_sid \<noteq> None" "records [] sample_host = []"
  using sample_new
  by (simp_all add: sample_host_def new_host_def host_capability_defaults_def sample_seams_def open_session_def
      withS_def thenM_def modify_def ret_def records_def new_ledger_def)


end
