(* ===== verification/Clock.thy ===== *)
theory Clock
  imports Models "HOL-Library.Code_Target_Nat"
begin

text \<open>
  \<open>src/auditable_mcp/clock.py\<close>: the text of a time, and that the schema of an event accepts it. The reading of the
  system clock is the input \<open>u\<close>.
\<close>

section \<open>The text of a time\<close>

record utc =
  ut_year :: nat
  ut_month :: nat
  ut_day :: nat
  ut_hour :: nat
  ut_minute :: nat
  ut_second :: nat
  ut_microsecond :: nat

definition two_digits :: "nat \<Rightarrow> pystr" where
  "two_digits n = [48 + n div 10 mod 10, 48 + n mod 10]"

definition three_digits :: "nat \<Rightarrow> pystr" where
  "three_digits n = [48 + n div 100 mod 10, 48 + n div 10 mod 10, 48 + n mod 10]"

definition four_digits :: "nat \<Rightarrow> pystr" where
  "four_digits n = [48 + n div 1000 mod 10, 48 + n div 100 mod 10, 48 + n div 10 mod 10, 48 + n mod 10]"

text \<open>\<open>isoformat(timespec='milliseconds')\<close> of an aware UTC time, the offset written \<open>Z\<close>: milliseconds are cut, not rounded.\<close>

definition now_iso :: "utc \<Rightarrow> pystr" where
  "now_iso u = four_digits (ut_year u) @ ustr ''-'' @ two_digits (ut_month u) @ ustr ''-'' @ two_digits (ut_day u) @
     ustr ''T'' @ two_digits (ut_hour u) @ ustr '':'' @ two_digits (ut_minute u) @ ustr '':'' @ two_digits (ut_second u) @
     ustr ''.'' @ three_digits (ut_microsecond u div 1000) @ ustr ''Z''"

definition leap_year :: "nat \<Rightarrow> bool" where
  "leap_year y \<longleftrightarrow> y mod 4 = 0 \<and> (y mod 100 \<noteq> 0 \<or> y mod 400 = 0)"

definition days_in_month :: "nat \<Rightarrow> nat \<Rightarrow> nat" where
  "days_in_month y m = (if m = 2 then (if leap_year y then 29 else 28) else if m \<in> {4, 6, 9, 11} then 30 else 31)"

text \<open>What a \<open>datetime\<close> object guarantees of its fields.\<close>

definition utc_ok :: "utc \<Rightarrow> bool" where
  "utc_ok u \<longleftrightarrow> 1 \<le> ut_year u \<and> ut_year u \<le> 9999 \<and> 1 \<le> ut_month u \<and> ut_month u \<le> 12 \<and> 1 \<le> ut_day u \<and>
     ut_day u \<le> days_in_month (ut_year u) (ut_month u) \<and> ut_hour u < 24 \<and> ut_minute u < 60 \<and> ut_second u < 60 \<and>
     ut_microsecond u < 1000000"

section \<open>It is a date-time of the schema\<close>

definition ascii_nd :: "nat \<Rightarrow> bool" where
  "ascii_nd c \<longleftrightarrow> 48 \<le> c \<and> c \<le> 57"

lemma in_lang_SeqI: "in_lang a s \<Longrightarrow> in_lang b t \<Longrightarrow> in_lang (Seq a b) (s @ t)"
  by (rule in_lang.seq)

lemma four_two: "four_digits y = two_digits (y div 100) @ two_digits (y mod 100)"
proof -
  have m: "y mod 100 = 10 * (y div 10 mod 10) + y mod 10" using mod_mult2_eq [of y 10 10] by simp
  then have "y mod 100 div 10 = y div 10 mod 10" "y mod 100 mod 10 = y mod 10" by simp_all
  moreover have "y div 1000 = y div 100 div 10" by (simp add: div_mult2_eq [symmetric])
  ultimately show ?thesis by (simp add: four_digits_def two_digits_def)
qed

text \<open>The month and day of the patterns, and the last two digits of a leap year, checked one by one.\<close>

definition month_day_rx :: "(nat \<Rightarrow> bool) \<Rightarrow> rx" where
  "month_day_rx d = alts [
         seqs [Alt (Seq (lit ''0'') (one_of ''13578'')) (Seq (lit ''1'') (one_of ''02'')), lit ''-'',
           alts [Seq (lit ''0'') (Cls (between CHR ''1'' CHR ''9'')), Seq (one_of ''12'') (Cls d),
             Seq (lit ''3'') (one_of ''01'')]],
         seqs [Alt (Seq (lit ''0'') (one_of ''469'')) (lit ''11''), lit ''-'',
           alts [Seq (lit ''0'') (Cls (between CHR ''1'' CHR ''9'')), Seq (one_of ''12'') (Cls d),
             lit ''30'']],
         seqs [lit ''02'', lit ''-'',
           alts [Seq (lit ''0'') (Cls (between CHR ''1'' CHR ''9'')), Seq (lit ''1'') (Cls d),
             Seq (lit ''2'') (Cls (between CHR ''0'' CHR ''8''))]]]"

definition leap_rest_rx :: rx where
  "leap_rest_rx = Alt (seqs [one_of ''2468'', one_of ''048''])
     (Alt (seqs [one_of ''13579'', one_of ''26'']) (seqs [lit ''0'', one_of ''48'']))"

definition leap_century_rx :: rx where
  "leap_century_rx = Alt (seqs [one_of ''02468'', one_of ''048'']) (seqs [one_of ''13579'', one_of ''26''])"

lemma month_days_checked:
  "list_all (\<lambda>m. list_all (\<lambda>dd. fullmatch (month_day_rx ascii_nd) (two_digits m @ ustr ''-'' @ two_digits dd))
     [1..<Suc (if m = 2 then 28 else days_in_month 1 m)]) [1..<13]"
  by code_simp

lemma leap_rest_checked:
  "list_all (\<lambda>n. n mod 4 = 0 \<and> n \<noteq> 0 \<longrightarrow> fullmatch leap_rest_rx (two_digits n)) [0..<100]"
  by code_simp

lemma leap_century_checked: "list_all (\<lambda>n. n mod 4 = 0 \<longrightarrow> fullmatch leap_century_rx (two_digits n)) [0..<100]"
  by code_simp

text \<open>The same patterns over any engine's digits.\<close>

lemmas rx_mono = rx_le_Seq rx_le_Alt rx_le_Cls rx_le_refl rx_le_rep

lemma month_day_mono: "(\<And>c. ascii_nd c \<Longrightarrow> d c) \<Longrightarrow> rx_le (month_day_rx ascii_nd) (month_day_rx d)"
  unfolding month_day_rx_def alts.simps seqs_def list.map foldr.simps comp_def id_def
  by (intro rx_mono) simp_all

lemma digit_ascii: "ascii_nd (48 + n mod 10)"
proof -
  have "n mod 10 < 10" by simp
  then show ?thesis unfolding ascii_nd_def by linarith
qed

lemma two_digits_lang: "(\<And>c. ascii_nd c \<Longrightarrow> d c) \<Longrightarrow> in_lang (seqs [Cls d, Cls d]) (two_digits n)"
  using digit_ascii by (simp add: seqs_def two_digits_def)

lemma year_lang: "(\<And>c. ascii_nd c \<Longrightarrow> d c) \<Longrightarrow> in_lang (rep 4 (Cls d)) (four_digits y)"
  using digit_ascii by (simp add: in_lang_rep_Cls four_digits_def)

lemma ordinary_day:
  assumes "1 \<le> m" "m \<le> 12" "1 \<le> dd" "dd \<le> (if m = 2 then 28 else days_in_month 1 m)"
  shows "fullmatch (month_day_rx ascii_nd) (two_digits m @ ustr ''-'' @ two_digits dd)"
proof -
  let ?days = "\<lambda>m. if m = 2 then 28 else days_in_month 1 m"
  have "m \<in> set [1..<13]" "dd \<in> set [1..<Suc (?days m)]" using assms by auto
  then show ?thesis using month_days_checked unfolding list_all_iff by blast
qed

lemma seqs_append:
  assumes "in_lang (seqs [a, b]) w" "in_lang c v"
  shows "in_lang (seqs [a, b, c]) (w @ v)"
proof -
  obtain s t where st: "w = s @ t" "in_lang a s" "in_lang b t"
    using assms(1) by (auto simp: seqs_def in_lang_Seq)
  have "in_lang (Seq c Eps) (v @ [])" by (rule in_lang.seq [OF assms(2) in_lang.eps])
  from in_lang.seq [OF st(2) in_lang.seq [OF st(3) this]] show ?thesis by (simp add: seqs_def st(1))
qed

lemma leap_day:
  assumes d: "\<And>c. ascii_nd c \<Longrightarrow> d c" and y: "leap_year y" "y \<le> 9999"
  shows "in_lang (alts [
         seqs [Cls d, Cls d, one_of ''2468'', one_of ''048''],
         seqs [Cls d, Cls d, one_of ''13579'', one_of ''26''],
         seqs [Cls d, Cls d, lit ''0'', one_of ''48''],
         seqs [one_of ''02468'', one_of ''048'', lit ''00''],
         seqs [one_of ''13579'', one_of ''26'', lit ''00'']]) (four_digits y)"
proof (cases "y mod 100 = 0")
  case False
  have "y mod 100 mod 4 = 0" using y(1) by (simp add: leap_year_def mod_mod_cancel)
  moreover have "y mod 100 < 100" by simp
  ultimately have "fullmatch leap_rest_rx (two_digits (y mod 100))"
    using leap_rest_checked False unfolding list_all_iff by fastforce
  then show ?thesis
    using digit_ascii d
    by (auto simp: fullmatch_iff four_two leap_rest_rx_def seqs_def two_digits_def [of "y div 100"] in_lang_Seq_Cls)
next
  case True
  have "y div 100 mod 4 = 0"
  proof -
    have "y mod 400 = 0" using y(1) True by (simp add: leap_year_def)
    then show ?thesis using mod_mult2_eq [of y 100 4] True by simp
  qed
  moreover have "y div 100 < 100" using y(2) by linarith
  ultimately have "fullmatch leap_century_rx (two_digits (y div 100))"
    using leap_century_checked unfolding list_all_iff by fastforce
  then have *: "in_lang leap_century_rx (two_digits (y div 100))" by (simp add: fullmatch_iff)
  have "in_lang (seqs [a, b, lit ''00'']) (two_digits (y div 100) @ two_digits (y mod 100))"
    if "in_lang (seqs [a, b]) (two_digits (y div 100))" for a b
    by (rule seqs_append [OF that]) (simp add: True two_digits_def lit_def seqs_def ustr_def)
  with * show ?thesis unfolding leap_century_rx_def four_two by (auto simp del: append.simps)
qed

lemma date_lang:
  assumes d: "\<And>c. ascii_nd c \<Longrightarrow> d c" and u: "utc_ok u"
  shows "in_lang (date_rx d) (four_digits (ut_year u) @ ustr ''-'' @ two_digits (ut_month u) @ ustr ''-'' @ two_digits (ut_day u))"
proof (cases "ut_month u = 2 \<and> ut_day u = 29")
  case True
  then have "leap_year (ut_year u)" using u by (auto simp: utc_ok_def days_in_month_def split: if_splits)
  then have "in_lang (Seq (alts [
         seqs [Cls d, Cls d, one_of ''2468'', one_of ''048''],
         seqs [Cls d, Cls d, one_of ''13579'', one_of ''26''],
         seqs [Cls d, Cls d, lit ''0'', one_of ''48''],
         seqs [one_of ''02468'', one_of ''048'', lit ''00''],
         seqs [one_of ''13579'', one_of ''26'', lit ''00'']]) (lit ''-02-29''))
      (four_digits (ut_year u) @ ustr ''-02-29'')"
    using leap_day [OF d] u by (intro in_lang.seq) (simp_all add: utc_ok_def lit_def seqs_def ustr_def)
  then show ?thesis using True by (simp add: date_rx_def two_digits_def ustr_def)
next
  case False
  have "days_in_month y m = days_in_month 1 m" if "m \<noteq> 2" for y m using that by (simp add: days_in_month_def)
  then have "ut_day u \<le> (if ut_month u = 2 then 28 else days_in_month 1 (ut_month u))"
    using u False by (auto simp: utc_ok_def days_in_month_def split: if_splits)
  then have "fullmatch (month_day_rx ascii_nd) (two_digits (ut_month u) @ ustr ''-'' @ two_digits (ut_day u))"
    using u by (intro ordinary_day) (simp_all add: utc_ok_def)
  then have "in_lang (month_day_rx d) (two_digits (ut_month u) @ ustr ''-'' @ two_digits (ut_day u))"
    using rx_leD [OF month_day_mono [OF d]] by (simp add: fullmatch_iff)
  moreover have "in_lang (lit ''-'') (ustr ''-'')" by (simp add: lit_def seqs_def ustr_def)
  ultimately have "in_lang (seqs [rep 4 (Cls d), lit ''-'', month_day_rx d])
      (four_digits (ut_year u) @ ustr ''-'' @ (two_digits (ut_month u) @ ustr ''-'' @ two_digits (ut_day u)) @ [])"
    unfolding seqs_def foldr.simps comp_def id_def by (intro in_lang.seq in_lang.eps year_lang d)
  then show ?thesis by (simp add: date_rx_def month_day_rx_def)
qed

lemma small_checked:
  "list_all (\<lambda>n. fullmatch (hour_rx ascii_nd) (two_digits n)) [0..<24]"
  "list_all (\<lambda>n. fullmatch (sixty_rx ascii_nd) (two_digits n)) [0..<60]"
  by code_simp+

lemma small_mono:
  assumes "\<And>c. ascii_nd c \<Longrightarrow> d c"
  shows "rx_le (hour_rx ascii_nd) (hour_rx d)" "rx_le (sixty_rx ascii_nd) (sixty_rx d)"
  unfolding hour_rx_def sixty_rx_def by (intro rx_mono; simp add: assms)+

lemma small_lang:
  assumes "\<And>c. ascii_nd c \<Longrightarrow> d c"
  shows "n < 24 \<Longrightarrow> in_lang (hour_rx d) (two_digits n)" "n < 60 \<Longrightarrow> in_lang (sixty_rx d) (two_digits n)"
  using small_checked small_mono [OF assms] unfolding list_all_iff rx_le_def fullmatch_iff by simp_all

lemma fraction_lang:
  assumes "\<And>c. ascii_nd c \<Longrightarrow> d c"
  shows "in_lang (fraction_rx d) (ustr ''.'' @ three_digits n)"
proof -
  have "in_lang (some_of d) (three_digits n)"
    using assms digit_ascii by (simp add: in_lang_some_of three_digits_def)
  moreover have "in_lang (lit ''.'') (ustr ''.'')" by (simp add: lit_def seqs_def ustr_def)
  ultimately have "in_lang (Seq (lit ''.'') (some_of d)) (ustr ''.'' @ three_digits n)" by (intro in_lang.seq)
  then show ?thesis by (simp add: fraction_rx_def opt_def)
qed

end
