(* ===== verification/EmbeddingProperties.thy ===== *)
theory EmbeddingProperties
  imports Embedding SessionProperties HostLive Clock
begin

text \<open>
  The embedded host keeps the contract of a sealing transport, so what a session over it establishes is established of
  the host's own chain. The decorator and the clock come with what they promise.
\<close>

section \<open>The embedded host seals\<close>

lemma records_settled: "settled_from stored base h h0 \<Longrightarrow> set (records base h) \<subseteq> set (records base h0)"
  by (auto simp: settled_from_def split: if_splits)

lemma handle_attempt_grows:
  assumes "jcs_total L" "host_safe stored L base h"
  shows "set (records base h) \<subseteq> set (records base (snd (handle_attempt L e x b h)))"
proof -
  have post: "set (records base h0) \<subseteq> set (records base h')" if "attempt_post stored L base e h0 r h'" for h0 h' r
    using that by (auto simp: attempt_post_def split: response.splits dest: tracked_records [where base = base])
  have exc: "set (records base h0) \<subseteq> set (records base h')" if "attempt_exc stored L base e h0 h'" for h0 h'
    using that by (auto simp: attempt_exc_def)
  obtain r h' where run: "handle_attempt L e x b h = (r, h')" by (metis prod.exhaust)
  have "wp (handle_attempt L e x b) (\<lambda>_ h'. set (records base h) \<subseteq> set (records base h'))
      (\<lambda>_ h'. set (records base h) \<subseteq> set (records base h')) h"
    by (rule wp_conseq [OF handle_attempt_ok [OF assms]])
      (unfold handled_def, use records_settled post exc in \<open>(metis (no_types, lifting) order_trans tracked_records order_refl)+\<close>)
  with run show ?thesis by (simp add: wp_def split: pyres.splits)
qed

lemma handle_outcome_grows:
  assumes "jcs_total L" "host_safe stored L base h"
  shows "set (records base h) \<subseteq> set (records base (snd (handle_outcome L e x h)))"
proof -
  have post: "set (records base h0) \<subseteq> set (records base h')" if "outcome_post stored L base e h0 r h'" for h0 h' r
    using that by (auto simp: outcome_post_def split: disposition.splits dest: tracked_records [where base = base])
  have exc: "set (records base h0) \<subseteq> set (records base h')" if "outcome_exc stored L base h0 h'" for h0 h'
    using that by (auto simp: outcome_exc_def dest: tracked_records [where base = base])
  obtain r h' where run: "handle_outcome L e x h = (r, h')" by (metis prod.exhaust)
  have "wp (record_outcome L e x) (\<lambda>_ h'. set (records base h) \<subseteq> set (records base h'))
      (\<lambda>_ h'. set (records base h) \<subseteq> set (records base h')) h"
    by (rule wp_conseq [OF record_outcome_ok [OF assms]])
      (unfold handled_def, use records_settled post exc in \<open>(metis (no_types, lifting) order_trans tracked_records order_refl)+\<close>)
  then have "wp (handle_outcome L e x) (\<lambda>_ h'. set (records base h) \<subseteq> set (records base h'))
      (\<lambda>_ h'. set (records base h) \<subseteq> set (records base h')) h"
    by (simp add: handle_outcome_def wp_simps)
  with run show ?thesis by (simp add: wp_def split: pyres.splits)
qed

definition embedded_ok :: "'w store \<Rightarrow> lib \<Rightarrow> sealed_record list \<Rightarrow> 'w host \<Rightarrow> bool" where
  "embedded_ok stored L base h \<longleftrightarrow> jcs_total L \<and> host_safe stored L base h"

interpretation in_process: sealing_transport "in_process_transport L" L "embedded_ok stored L base" "records base"
  for L stored base
proof
  fix e
  show "heeds (embedded_ok stored L base) (records base) (tr_attempt (in_process_transport L) e)"
    using handle_attempt_grows keepsD [OF handle_attempt_safe]
    by (fastforce simp: heeds_def embedded_ok_def in_process_transport_def)
  show "heeds (embedded_ok stored L base) (records base) (tr_outcome (in_process_transport L) e)"
    using handle_outcome_grows keepsD [OF handle_outcome_safe]
    by (fastforce simp: heeds_def embedded_ok_def in_process_transport_def)
next
  fix w e a w'
  assume ok: "embedded_ok stored L base w" and run: "tr_attempt (in_process_transport L) e w = (Ret (Accept a), w')"
  then have "wp (handle_attempt L e None False)
    (\<lambda>resp h'. handled stored base (\<lambda>h0. attempt_post stored L base e h0 resp) w h' \<or>
       resp = Unavailable \<and> host_safe stored L base h' \<and> tracked w h')
    (\<lambda>_ h'. handled stored base (attempt_exc stored L base e) w h' \<or> host_safe stored L base h' \<and> tracked w h') w"
    by (intro handle_attempt_ok) (simp_all add: embedded_ok_def)
  from wp_Ret [OF this] run show "\<exists>r\<in>set (records base w').
      a = accept_fields r \<and> canonicalize L (JDict (rec_event r)) = canonicalize L (JDict e)"
    by (fastforce simp: in_process_transport_def handled_def attempt_post_def)
qed

section \<open>A decorated tool over an embedded host\<close>

text \<open>The seams of the session other than its transport: the world outside the host, away from the repository.\<close>

definition seam_outside :: "'w store \<Rightarrow> ('w host, 'a) prog \<Rightarrow> bool" where
  "seam_outside stored m \<longleftrightarrow> (\<exists>m'. m = outside m' \<and> frame stored m')"

definition seams_outside :: "'w store \<Rightarrow> 'w host amcp_session \<Rightarrow> bool" where
  "seams_outside stored se \<longleftrightarrow>
     (\<forall>sg e n. se_signer se = Some sg \<longrightarrow> seam_outside stored (sg_sign sg e n)) \<and>
     (\<forall>v k s p. se_countersignature_verifier se = Some v \<longrightarrow> seam_outside stored (v k s p)) \<and>
     seam_outside stored (dp_now (se_deps se)) \<and> seam_outside stored (dp_new_id (se_deps se)) \<and>
     seam_outside stored (dp_token (se_deps se))"

lemma outside_heeds: "seam_outside stored m \<Longrightarrow> heeds (embedded_ok stored L base) (records base) m"
proof -
  assume "seam_outside stored m"
  then obtain m' where m: "m = outside m'" "frame stored m'" by (auto simp: seam_outside_def)
  show ?thesis
    unfolding heeds_def m(1)
  proof (intro allI impI conjI)
    fix h assume ok: "embedded_ok stored L base h"
    obtain r w where run: "m' (h_world h) = (r, w)" by (metis prod.exhaust)
    then have st: "stored w = stored (h_world h)" using m(2) by (metis frame_def snd_conv)
    show "embedded_ok stored L base (snd (outside m' h))"
      using ok run st by (auto simp: outside_def embedded_ok_def host_safe_def host_inv_def store_ok_def sealable_def
          records_def host_level_def held_def)
    show "set (records base h) \<subseteq> set (records base (snd (outside m' h)))"
      using run by (simp add: outside_def records_def)
  qed
qed

lemma seam_outside_ret: "seam_outside stored (ret x)"
proof -
  have "ret x = outside (ret x)" by (simp add: ret_def outside_def fun_eq_iff)
  then show ?thesis unfolding seam_outside_def by (metis frame_def ret_def snd_conv)
qed

lemma seams_heed: "seams_outside stored se \<Longrightarrow> signer_heeds (embedded_ok stored L base) (records base) se"
  unfolding seams_outside_def signer_heeds_def by (blast intro: outside_heeds)


definition sample_task :: "memory host task" where
  "sample_task = \<lparr>tk_current = None, tk_tool = sample_tool sample_host\<rparr>"

definition sample_target :: json where
  "sample_target = JDict [(KIND, JStr (ustr ''table'')), (REF, JStr (ustr ''orders''))]"

lemma sample_action_made:
  "action sample_lib (sample_session tr) (ustr ''db.write'') sample_target True False no_context t = (Ret sample_action, t)"
proof -
  have "target_error sample_target = Inr (ac_target sample_action)" by code_simp
  then show ?thesis
    by (simp add: action_def audited_action_of_def no_context_def salted_commitment_def thenM_def seam_def ret_def
        sample_deps_def sample_action_def)
qed

lemma sample_enters_embedded:
  "\<exists>a t'. enter sample_lib (sample_session (in_process_transport sample_lib)) sample_action (sample_tool sample_host) = (Ret a, t')"
proof -
  have "case fst (handle_attempt sample_lib sample_attempt None False sample_host) of Ret (Accept a) \<Rightarrow> True | _ \<Rightarrow> False"
    by code_simp
  then obtain a w where "tr_attempt (in_process_transport sample_lib) sample_attempt (tl_world (sample_tool sample_host)) =
      (Ret (Accept a), w)"
    by (cases "handle_attempt sample_lib sample_attempt None False sample_host")
      (auto simp: in_process_transport_def sample_tool_def split: pyres.splits response.splits)
  from sample_section [OF this] show ?thesis
    by (auto simp: enter_def thenM_def clear_def check_countersigned_def check_polluted_def ret_def split: option.split)
qed

text \<open>What \<open>leave\<close> never touches tells two bodies apart.\<close>

definition fresh_is :: "nat \<Rightarrow> 'w tool \<Rightarrow> bool" where
  "fresh_is n t \<longleftrightarrow> tl_fresh t = n"

lemma fresh_seam: "keeps (fresh_is n) (seam m)"
  by (simp add: keeps_def seam_def fresh_is_def split: prod.split)

lemma fresh_build: "keeps (fresh_is n) (build L se ac out k reason)"
  unfolding build_def stamp_def Let_def by (rule keeps_intros fresh_seam | simp)+

lemma leave_fresh: "keeps (fresh_is n) (leave L se ac failed)"
  unfolding leave_def swallow_def emit_outcome_def numbering_section_def Let_def
  by (rule keeps_intros fresh_seam fresh_build | simp add: fresh_is_def)+


section \<open>Bounds\<close>



section \<open>The clock\<close>

text \<open>
  C30. Every time the SDK stamps is one its own schema accepts: for every reading of the clock (any day of
  the years 1 to 9999, leap days included), \<open>now_iso\<close> is a date-time of the pattern events and accepts are validated
  with, whatever other digits the engine's \<open>\d\<close> admits.
\<close>

theorem now_iso_accepted:
  assumes "utc_ok u" "\<forall>c. 48 \<le> c \<and> c \<le> 57 \<longrightarrow> is_nd L c"
  shows "fullmatch (DATETIME_PATTERN L) (now_iso u)"
proof -
  have d: "ascii_nd c \<Longrightarrow> is_nd L c" for c using assms(2) by (simp add: ascii_nd_def)
  have lits: "in_lang (lit [c]) (ustr [c])" for c by (simp add: lit_def seqs_def ustr_def)
  have "in_lang (DATETIME_PATTERN L) ((four_digits (ut_year u) @ ustr ''-'' @ two_digits (ut_month u) @ ustr ''-'' @
      two_digits (ut_day u)) @ ustr ''T'' @ two_digits (ut_hour u) @ ustr '':'' @ two_digits (ut_minute u) @
      (ustr '':'' @ two_digits (ut_second u) @ (ustr ''.'' @ three_digits (ut_microsecond u div 1000)) @ []) @ ustr ''Z'' @ [])"
    unfolding DATETIME_PATTERN_def Let_def seqs_def foldr.simps comp_def id_def using assms(1)
    by (intro in_lang.seq in_lang.eps date_lang d small_lang fraction_lang lits) (simp_all add: utc_ok_def)
  then show ?thesis by (simp add: fullmatch_iff now_iso_def)
qed

text \<open>The 29th of February 2024.\<close>

definition leap_instant :: utc where
  "leap_instant = \<lparr>ut_year = 2024, ut_month = 2, ut_day = 29, ut_hour = 23, ut_minute = 59, ut_second = 59,
     ut_microsecond = 999999\<rparr>"

theorem now_iso_accepted_witness:
  "now_iso leap_instant = ustr ''2024-02-29T23:59:59.999Z'' \<and> fullmatch (DATETIME_PATTERN sample_lib) (now_iso leap_instant)"
proof -
  have "utc_ok leap_instant" "now_iso leap_instant = ustr ''2024-02-29T23:59:59.999Z''" by code_simp+
  with now_iso_accepted [of leap_instant sample_lib] show ?thesis by (simp add: sample_lib_def)
qed

end
