(* ===== verification/WireMeta.thy ===== *)
theory WireMeta
  imports Capability
begin

text \<open>
  \<open>src/auditable_mcp/models.py\<close>, the rest of the wire contracts: reading an Attempt Response, which is a
  union told apart by its \<open>status\<close>, and the two \<open>_meta\<close> members of the MCP binding, the host's
  \<open>AuditRequestMeta\<close> on a request and the tool's \<open>AuditResultMeta\<close> on a result. What a side writes the
  other side reads back.
\<close>

abbreviation STATUS :: pystr where "STATUS \<equiv> ustr ''status''"
abbreviation RESPONSES :: pystr where "RESPONSES \<equiv> ustr ''responses''"
abbreviation EVENTS :: pystr where "EVENTS \<equiv> ustr ''events''"

section \<open>Attempt Responses\<close>

definition reject_response_schema :: schema where
  "reject_response_schema = [
     (STATUS, False, TLiteral [status_str REJECT]),
     (REASON, True, TLiteral (map code_str reject_reasons))]"

definition unavailable_response_schema :: schema where
  "unavailable_response_schema = [
     (STATUS, False, TLiteral [status_str UNAVAILABLE]),
     (REASON, False, TLiteral [code_str INTERNAL_ERROR])]"

definition response_to_wire :: "response \<Rightarrow> jobj" where
  "response_to_wire r =
     (case r of
        Accept a \<Rightarrow> accept_to_wire a
      | Reject c \<Rightarrow> [(STATUS, JStr (status_str REJECT)), (REASON, JStr (code_str c))]
      | Unavailable \<Rightarrow> [(STATUS, JStr (status_str UNAVAILABLE)), (REASON, JStr (code_str INTERNAL_ERROR))])"

definition str_member :: "jobj \<Rightarrow> pystr \<Rightarrow> pystr" where
  "str_member d k = (case dget d k of JStr s \<Rightarrow> s | _ \<Rightarrow> [])"

definition opt_str_member :: "jobj \<Rightarrow> pystr \<Rightarrow> pystr option" where
  "opt_str_member d k = (case dget d k of JStr s \<Rightarrow> Some s | _ \<Rightarrow> None)"

text \<open>The model of a validated accept: its members are strings and a count.\<close>

definition read_accept :: "jobj \<Rightarrow> accept_response" where
  "read_accept d =
     \<lparr>acc_seq = (case json_count (dget d SEQ) of Some n \<Rightarrow> n | None \<Rightarrow> 0),
      acc_record_hash = str_member d RECORD_HASH, acc_host_ts = str_member d HOST_TS,
      acc_previous_hash = str_member d PREVIOUS_HASH, acc_host_signature = opt_str_member d HOST_SIGNATURE,
      acc_host_key_id = opt_str_member d HOST_KEY_ID, acc_log_id = opt_str_member d LOG_ID\<rparr>"

definition read_reject :: "jobj \<Rightarrow> response option" where
  "read_reject d = map_option Reject (find (\<lambda>c. JStr (code_str c) = dget d REASON) reject_reasons)"

definition parse_response :: "lib \<Rightarrow> json \<Rightarrow> response option" where
  "parse_response L v =
     (case v of
        JDict d \<Rightarrow>
          let status = dget d STATUS in
          if status = JStr (status_str ACCEPT) then
            (if validated (accept_response_schema L) [countersignature_fields_travel_together] v = None
             then Some (Accept (read_accept d)) else None)
          else if status = JStr (status_str REJECT) then
            (if validated reject_response_schema [] v = None then read_reject d else None)
          else if status = JStr (status_str UNAVAILABLE) then
            (if validated unavailable_response_schema [] v = None then Some Unavailable else None)
          else None
      | _ \<Rightarrow> None)"

definition response_ok :: "lib \<Rightarrow> response \<Rightarrow> bool" where
  "response_ok L r \<longleftrightarrow>
     (case r of Accept a \<Rightarrow> accept_error L a = None | Reject c \<Rightarrow> c \<in> set reject_reasons | Unavailable \<Rightarrow> True)"

section \<open>The audit members of \<open>_meta\<close>\<close>

record request_meta =
  rm_session_id :: pystr
  rm_responses :: "(pystr \<times> response) list option"

definition request_meta_schema :: schema where
  "request_meta_schema = [
     (SESSION_ID, True, TStr 0 (Some SESSION_ID_PATTERN)),
     (RESPONSES, False, TObject)]"

definition responses_ok :: "lib \<Rightarrow> jobj \<Rightarrow> bool" where
  "responses_ok L rs = list_all (\<lambda>(k, v). fullmatch UUID_PATTERN k \<and> parse_response L v \<noteq> None) rs"

fun request_member_ok :: "lib \<Rightarrow> ftype \<Rightarrow> json \<Rightarrow> bool" where
  "request_member_ok L TObject (JDict rs) = responses_ok L rs"
| "request_member_ok L t v = plain_ok t v"

definition read_responses :: "lib \<Rightarrow> jobj \<Rightarrow> (pystr \<times> response) list" where
  "read_responses L rs = map (\<lambda>(k, v). (k, case parse_response L v of Some r \<Rightarrow> r | None \<Rightarrow> Unavailable)) rs"

definition parse_request_meta :: "lib \<Rightarrow> json \<Rightarrow> request_meta option" where
  "parse_request_meta L v =
     (if shape_error (request_member_ok L) request_meta_schema v \<noteq> None then None
      else case v of
        JDict d \<Rightarrow> Some \<lparr>rm_session_id = str_member d SESSION_ID,
          rm_responses = (case dget d RESPONSES of JDict rs \<Rightarrow> Some (read_responses L rs) | _ \<Rightarrow> None)\<rparr>
      | _ \<Rightarrow> None)"

record result_meta =
  sm_session_id :: pystr
  sm_events :: "jobj list"

definition result_meta_schema :: schema where
  "result_meta_schema = [
     (SESSION_ID, True, TStr 0 (Some SESSION_ID_PATTERN)),
     (EVENTS, True, TObject)]"

fun is_object :: "json \<Rightarrow> bool" where
  "is_object (JDict d) = True"
| "is_object _ = False"

fun object_of :: "json \<Rightarrow> jobj" where
  "object_of (JDict d) = d"
| "object_of _ = []"

fun result_member_ok :: "ftype \<Rightarrow> json \<Rightarrow> bool" where
  "result_member_ok TObject (JList xs) = (xs \<noteq> [] \<and> list_all is_object xs)"
| "result_member_ok TObject _ = False"
| "result_member_ok t v = plain_ok t v"

definition parse_result_meta :: "json \<Rightarrow> result_meta option" where
  "parse_result_meta v =
     (if shape_error result_member_ok result_meta_schema v \<noteq> None then None
      else case v of
        JDict d \<Rightarrow> Some \<lparr>sm_session_id = str_member d SESSION_ID,
          sm_events = (case dget d EVENTS of JList xs \<Rightarrow> map object_of xs | _ \<Rightarrow> [])\<rparr>
      | _ \<Rightarrow> None)"

text \<open>The members as the two sides write them.\<close>

definition request_meta_to_wire :: "pystr \<Rightarrow> (pystr \<times> response) list option \<Rightarrow> jobj" where
  "request_meta_to_wire sid rs =
     (SESSION_ID, JStr sid) #
     (case rs of None \<Rightarrow> [] | Some xs \<Rightarrow> [(RESPONSES, JDict (map (\<lambda>(k, r). (k, JDict (response_to_wire r))) xs))])"

definition result_meta_to_wire :: "pystr \<Rightarrow> jobj list \<Rightarrow> jobj" where
  "result_meta_to_wire sid evs = [(SESSION_ID, JStr sid), (EVENTS, JList (map JDict evs))]"

section \<open>What is written is read back\<close>

lemma status_str_inj [simp]: "status_str a = status_str b \<longleftrightarrow> a = b"
  by (cases a; cases b) simp_all

lemma json_count_validated:
  assumes "validated (accept_response_schema L) rules (JDict d) = None"
  shows "\<exists>n. json_count (dget d SEQ) = Some n"
  using validated_required [OF assms, of SEQ TCount] by (auto simp: accept_response_schema_def)

lemma dget_opt_member [simp]:
  "dget (opt_member k v @ d) k' = (if k = k' \<and> v \<noteq> None then JStr (the v) else dget d k')"
  by (simp add: opt_member_def split: option.split)

lemma dget_opt_member1 [simp]: "dget (opt_member k v) k' = (if k = k' \<and> v \<noteq> None then JStr (the v) else JNull)"
  using dget_opt_member [of k v "[]" k'] by simp

lemma json_count_JInt: "json_count (JInt n) = Some m \<Longrightarrow> m = n"
  by (simp add: json_count_def integral_def split: if_splits)

lemma read_accept_to_wire:
  assumes "accept_error L a = None"
  shows "read_accept (accept_to_wire a) = a"
proof -
  have "\<exists>n. json_count (dget (accept_to_wire a) SEQ) = Some n"
    using assms json_count_validated unfolding accept_error_def by blast
  then have "json_count (JInt (acc_seq a)) = Some (acc_seq a)"
    by (auto simp: accept_to_wire_def dest: json_count_JInt)
  then show ?thesis
    by (simp add: read_accept_def accept_to_wire_def str_member_def opt_str_member_def)
qed

lemma read_reject_to_wire: "c \<in> set reject_reasons \<Longrightarrow> read_reject (response_to_wire (Reject c)) = Some (Reject c)"
  by (cases c) (simp_all add: read_reject_def response_to_wire_def reject_reasons_def)

lemma lone_surrogate_code [simp]: "\<not> lone_surrogate (code_str c)"
  by (cases c) simp_all

lemma lone_surrogate_status [simp]: "\<not> lone_surrogate (status_str c)"
  by (cases c) simp_all

lemma valid_reject: "c \<in> set reject_reasons \<Longrightarrow> validated reject_response_schema [] (JDict (response_to_wire (Reject c))) = None"
  by (auto simp: validated_JDict response_to_wire_def null_member_def extra_member_def reject_response_schema_def
      member_error_def)

lemma valid_unavailable: "validated unavailable_response_schema [] (JDict (response_to_wire Unavailable)) = None"
  by (simp add: validated_JDict response_to_wire_def null_member_def extra_member_def unavailable_response_schema_def
      member_error_def)

lemma response_status:
  "dget (response_to_wire r) STATUS =
     JStr (status_str (case r of Accept _ \<Rightarrow> ACCEPT | Reject _ \<Rightarrow> REJECT | Unavailable \<Rightarrow> UNAVAILABLE))"
  by (cases r) (simp_all add: response_to_wire_def accept_to_wire_def)

lemma parse_response_to_wire:
  assumes "response_ok L r"
  shows "parse_response L (JDict (response_to_wire r)) = Some r"
proof (cases r)
  case (Accept a)
  then have a: "accept_error L a = None" using assms by (simp add: response_ok_def)
  then show ?thesis
    using a read_accept_to_wire [OF a] unfolding accept_error_def
    by (simp add: parse_response_def response_status Accept) (simp add: response_to_wire_def)
next
  case (Reject c)
  then show ?thesis
    using assms valid_reject read_reject_to_wire
    by (simp add: parse_response_def response_status response_ok_def)
next
  case Unavailable
  then show ?thesis
    by (simp add: parse_response_def response_status valid_unavailable)
qed

lemma parse_response_surrogate: "parse_response L v \<noteq> None \<Longrightarrow> \<not> has_lone_surrogate v"
  by (auto simp: parse_response_def validated_def model_error_def shape_error_def Let_def split: json.splits if_splits)

text \<open>The characters a pattern admits: enough to see that what matches it holds no surrogate.\<close>

definition rx_within :: "(nat \<Rightarrow> bool) \<Rightarrow> rx \<Rightarrow> bool" where
  "rx_within P r \<longleftrightarrow> (\<forall>s. in_lang r s \<longrightarrow> list_all P s)"

lemma rx_within_simps:
  "rx_within P Eps" "rx_within P (Cls Q) \<longleftrightarrow> (\<forall>c. Q c \<longrightarrow> P c)"
  "(\<And>c. Q c \<Longrightarrow> P c) \<Longrightarrow> rx_within P (Many Q)"
  "rx_within P a \<Longrightarrow> rx_within P b \<Longrightarrow> rx_within P (Seq a b)"
  "rx_within P a \<Longrightarrow> rx_within P b \<Longrightarrow> rx_within P (Alt a b)"
  by (auto simp: rx_within_def in_lang_Cls in_lang_Many in_lang_Seq list_all_iff)

lemma rx_within_seqs: "list_all (rx_within P) rs \<Longrightarrow> rx_within P (seqs rs)"
  by (induction rs) (auto simp: seqs_def intro: rx_within_simps)

lemma rx_within_rep: "rx_within P r \<Longrightarrow> rx_within P (rep n r)"
  by (induction n) (auto intro: rx_within_simps)

definition latin :: "nat \<Rightarrow> bool" where
  "latin c \<longleftrightarrow> c < 256"

lemma latin_classes:
  "is_lower_hex c \<Longrightarrow> latin c" "is_alnum c \<Longrightarrow> latin c" "between a b c \<Longrightarrow> latin c" "c \<in> set (ustr s) \<Longrightarrow> latin c"
proof -
  have b: "between a b c \<Longrightarrow> latin c" for a b
    unfolding between_def latin_def using nat_of_char_less_256 [of b] by linarith
  then show "between a b c \<Longrightarrow> latin c" .
  show "is_lower_hex c \<Longrightarrow> latin c" "is_alnum c \<Longrightarrow> latin c"
    by (auto simp: is_lower_hex_def is_alnum_def is_digit_def b)
  show "c \<in> set (ustr s) \<Longrightarrow> latin c"
    by (auto simp: ustr_def latin_def nat_of_char_less_256)
qed

lemma rx_within_lit: "rx_within latin (lit s)"
  unfolding lit_def
  by (rule rx_within_seqs) (auto simp: list_all_iff rx_within_simps intro: latin_classes(4))

lemma latin_no_surrogate: "rx_within latin r \<Longrightarrow> fullmatch r s \<Longrightarrow> \<not> lone_surrogate s"
  unfolding rx_within_def fullmatch_iff
  by (fastforce simp: lone_surrogate_def list_all_iff list_ex_iff is_surrogate_def latin_def)

lemma uuid_within: "rx_within latin UUID_PATTERN" "rx_within latin SESSION_ID_PATTERN"
  unfolding UUID_PATTERN_def SESSION_ID_PATTERN_def uuid_rx_def one_of_def
  by (auto intro!: rx_within_simps rx_within_seqs rx_within_lit rx_within_rep
      simp: rx_within_simps latin_classes)

lemmas uuid_no_surrogate = latin_no_surrogate [OF uuid_within(1)]
  and session_no_surrogate = latin_no_surrogate [OF uuid_within(2)]

lemma response_no_surrogate:
  "response_ok L r \<Longrightarrow> \<not> list_ex (\<lambda>kv. lone_surrogate (fst kv) \<or> has_lone_surrogate (snd kv)) (response_to_wire r)"
  using parse_response_surrogate [of L "JDict (response_to_wire r)"] by (simp add: parse_response_to_wire)

definition request_meta_ok :: "lib \<Rightarrow> pystr \<Rightarrow> (pystr \<times> response) list option \<Rightarrow> bool" where
  "request_meta_ok L sid rs \<longleftrightarrow> fullmatch SESSION_ID_PATTERN sid \<and>
     (case rs of None \<Rightarrow> True | Some xs \<Rightarrow> list_all (\<lambda>(k, r). fullmatch UUID_PATTERN k \<and> response_ok L r) xs)"

definition wire_responses :: "(pystr \<times> response) list \<Rightarrow> jobj" where
  "wire_responses xs = map (\<lambda>(k, r). (k, JDict (response_to_wire r))) xs"

lemma read_responses_wire:
  "list_all (\<lambda>(k, r). fullmatch UUID_PATTERN k \<and> response_ok L r) xs \<Longrightarrow>
     responses_ok L (wire_responses xs) \<and> read_responses L (wire_responses xs) = xs \<and>
     \<not> has_lone_surrogate (JDict (wire_responses xs))"
  by (induction xs)
    (auto simp: responses_ok_def read_responses_def wire_responses_def parse_response_to_wire uuid_no_surrogate
      response_no_surrogate)

lemma parse_request_meta_to_wire:
  assumes "request_meta_ok L sid rs"
  shows "parse_request_meta L (JDict (request_meta_to_wire sid rs)) = Some \<lparr>rm_session_id = sid, rm_responses = rs\<rparr>"
proof (cases rs)
  case None
  then show ?thesis
    using assms session_no_surrogate
    by (simp add: request_meta_ok_def request_meta_to_wire_def parse_request_meta_def request_meta_schema_def
        shape_error_def null_member_def member_error_def extra_member_def str_member_def)
next
  case (Some xs)
  then have "list_all (\<lambda>(k, r). fullmatch UUID_PATTERN k \<and> response_ok L r) xs"
    using assms by (simp add: request_meta_ok_def)
  from read_responses_wire [OF this] show ?thesis
    using assms Some session_no_surrogate
    by (simp add: request_meta_ok_def request_meta_to_wire_def parse_request_meta_def request_meta_schema_def
        shape_error_def null_member_def member_error_def extra_member_def str_member_def wire_responses_def)
qed

lemma parse_request_meta_session:
  assumes "parse_request_meta L v = Some m"
  shows "fullmatch SESSION_ID_PATTERN (rm_session_id m)"
  using assms
  by (auto simp: parse_request_meta_def shape_error_def first_error_None request_meta_schema_def member_error_def
      str_member_def plain_ok_TStr split: json.splits if_splits)

lemma parse_result_meta_to_wire:
  assumes "fullmatch SESSION_ID_PATTERN sid" "evs \<noteq> []" "\<not> has_lone_surrogate (JList (map JDict evs))"
  shows "parse_result_meta (JDict (result_meta_to_wire sid evs)) = Some \<lparr>sm_session_id = sid, sm_events = evs\<rparr>"
  using assms session_no_surrogate
  by (simp add: result_meta_to_wire_def parse_result_meta_def result_meta_schema_def o_def
      shape_error_def null_member_def member_error_def extra_member_def str_member_def list_all_iff)

end
