(* ===== verification/McpFrames.thy ===== *)
theory McpFrames
  imports WireMeta Json_Text
begin

text \<open>
  \<open>src/auditable_mcp/mcp/seam.py\<close>, what both sides of the MCP binding share: JSON-RPC frames, the reading of
  \<open>_meta\<close>, the round tokens and the affinity header. The constants of the \<open>mcp\<close> package the source imports
  are the parameter \<open>mcp\<close>; a request id is a string or an integer, and never a boolean.
\<close>

section \<open>Frames\<close>

datatype rid = RidStr pystr | RidInt int

fun rid_json :: "rid \<Rightarrow> json" where
  "rid_json (RidStr s) = JStr s"
| "rid_json (RidInt n) = JInt n"

type_synonym rpc_error = "int \<times> pystr \<times> json option"

datatype rpc_frame =
    Request rid pystr "jobj option"
  | Notification pystr "jobj option"
  | Response rid jobj
  | Error "rid option" rpc_error

record mcp =
  mcp_version_key :: pystr
  mcp_modern_version :: "json \<Rightarrow> bool"
  mcp_capabilities_key :: pystr

text \<open>\<open>_key\<close>: an id by type and value; a value no request id is stands for its type and printed form.\<close>

datatype idkey = StrKey pystr | IntKey int | OtherKey json

fun key :: "json \<Rightarrow> idkey" where
  "key (JStr s) = StrKey s"
| "key (JInt n) = IntKey n"
| "key v = OtherKey v"

definition rid_key :: "rid \<Rightarrow> idkey" where
  "rid_key i = key (rid_json i)"

lemma rid_key_inj [simp]: "rid_key i = rid_key j \<longleftrightarrow> i = j"
  by (cases i; cases j) (simp_all add: rid_key_def)

section \<open>Constants\<close>

abbreviation ATTEMPT_METHOD :: pystr where "ATTEMPT_METHOD \<equiv> ustr ''audit/attempt''"
abbreviation OUTCOME_METHOD :: pystr where "OUTCOME_METHOD \<equiv> ustr ''audit/outcome''"
abbreviation TOOLS_CALL_METHOD :: pystr where "TOOLS_CALL_METHOD \<equiv> ustr ''tools/call''"
abbreviation CANCELLED_METHOD :: pystr where "CANCELLED_METHOD \<equiv> ustr ''notifications/cancelled''"
abbreviation INITIALIZE_METHOD :: pystr where "INITIALIZE_METHOD \<equiv> ustr ''initialize''"
abbreviation DISCOVER_METHOD :: pystr where "DISCOVER_METHOD \<equiv> ustr ''server/discover''"

definition HANDSHAKE_METHODS :: "pystr list" where
  "HANDSHAKE_METHODS = [INITIALIZE_METHOD, DISCOVER_METHOD]"

abbreviation RESULT_TYPE :: pystr where "RESULT_TYPE \<equiv> ustr ''resultType''"
abbreviation INPUT_REQUIRED :: pystr where "INPUT_REQUIRED \<equiv> ustr ''input_required''"
abbreviation INPUT_REQUESTS :: pystr where "INPUT_REQUESTS \<equiv> ustr ''inputRequests''"
abbreviation REQUEST_STATE :: pystr where "REQUEST_STATE \<equiv> ustr ''requestState''"
abbreviation META :: pystr where "META \<equiv> ustr ''_meta''"
abbreviation REQUEST_ID :: pystr where "REQUEST_ID \<equiv> ustr ''requestId''"
abbreviation TASK :: pystr where "TASK \<equiv> ustr ''task''"
abbreviation CAPABILITIES :: pystr where "CAPABILITIES \<equiv> ustr ''capabilities''"

definition ID_PREFIX :: pystr where "ID_PREFIX = ustr ''amcp-''"
definition ROUND_TOKEN_PREFIX :: pystr where "ROUND_TOKEN_PREFIX = ustr ''amcp.''"
definition AFFINITY_HEADER :: pystr where "AFFINITY_HEADER = ustr ''Auditable-Mcp-Session''"

definition MAX_ROUNDS_PER_CALL :: nat where "MAX_ROUNDS_PER_CALL = 256"
definition MAX_IDLE_SESSIONS :: nat where "MAX_IDLE_SESSIONS = 1024"

text \<open>The JSON-RPC error codes; the messages end in the section mark of the specification.\<close>

definition RPC_INVALID_REQUEST :: int where "RPC_INVALID_REQUEST = -32600"
definition RPC_INVALID_PARAMS :: int where "RPC_INVALID_PARAMS = -32602"
definition RPC_INTERNAL_ERROR :: int where "RPC_INTERNAL_ERROR = -32603"

definition section_mark :: "string \<Rightarrow> pystr" where
  "section_mark n = ustr '' ('' @ [167] @ ustr n @ ustr '')''"

definition NO_OPEN_ROUND_MESSAGE :: pystr where
  "NO_OPEN_ROUND_MESSAGE = ustr ''this requestState names no open round'' @ section_mark ''6.4''"

definition RETRY_NOT_SENT_MESSAGE :: pystr where
  "RETRY_NOT_SENT_MESSAGE = ustr ''the retry of an audit round could not be sent'' @ section_mark ''6.4''"

section \<open>Round tokens\<close>

definition starts_with :: "pystr \<Rightarrow> pystr \<Rightarrow> bool" where
  "starts_with p s = (take (length p) s = p)"

lemma starts_with_append [simp]: "starts_with p (p @ s)"
  by (simp add: starts_with_def)

lemma starts_with_iff: "starts_with p s \<longleftrightarrow> (\<exists>t. s = p @ t)"
  by (metis append_take_drop_id starts_with_append starts_with_def)

text \<open>\<open>P{0,n}\<close>.\<close>

primrec up_to :: "nat \<Rightarrow> (nat \<Rightarrow> bool) \<Rightarrow> rx" where
  "up_to 0 P = Eps"
| "up_to (Suc n) P = opt (Seq (Cls P) (up_to n P))"

definition INSTANCE_PATTERN :: rx where
  "INSTANCE_PATTERN = Seq (Cls is_b64url) (up_to 63 is_b64url)"

definition ROUND_SECRET_PATTERN :: rx where
  "ROUND_SECRET_PATTERN = rep 43 (Cls is_b64url)"

text \<open>\<open>check_instance\<close> raises \<open>ValueError\<close>, here \<open>None\<close>.\<close>

definition check_instance :: "pystr \<Rightarrow> pystr option" where
  "check_instance instance_name = (if fullmatch INSTANCE_PATTERN instance_name then Some instance_name else None)"

definition dot :: nat where
  "dot = 46"

text \<open>\<open>f'{ROUND_TOKEN_PREFIX}{instance}.{secrets.token_urlsafe(32)}'\<close> and \<open>new_instance_id\<close>, of the bytes drawn.\<close>

definition round_token :: "pystr \<Rightarrow> byte list \<Rightarrow> pystr" where
  "round_token instance_name raw = ROUND_TOKEN_PREFIX @ instance_name @ [dot] @ b64url_encode raw"

definition new_instance_id :: "byte list \<Rightarrow> pystr" where
  "new_instance_id raw = b64url_encode raw"

definition round_token_instance :: "json \<Rightarrow> pystr option" where
  "round_token_instance request_state =
     (case request_state of
        JStr s \<Rightarrow>
          if \<not> starts_with ROUND_TOKEN_PREFIX s then None
          else
            let rest = drop (length ROUND_TOKEN_PREFIX) s;
                instance_name = takeWhile (\<lambda>c. c \<noteq> dot) rest;
                tail = dropWhile (\<lambda>c. c \<noteq> dot) rest
            in if tail = [] \<or> \<not> fullmatch INSTANCE_PATTERN instance_name then None
               else if \<not> fullmatch ROUND_SECRET_PATTERN (tl tail) then None
               else Some instance_name
      | _ \<Rightarrow> None)"

section \<open>The affinity header\<close>

text \<open>\<open>str.lower\<close> on the letters a header name is compared by.\<close>

definition lower :: "pystr \<Rightarrow> pystr" where
  "lower s = map (\<lambda>c. if 65 \<le> c \<and> c \<le> 90 then c + 32 else c) s"

type_synonym headers = "(pystr \<times> pystr) list"

definition with_affinity_header :: "headers option \<Rightarrow> pystr \<Rightarrow> headers" where
  "with_affinity_header hs session_id =
     AList.update AFFINITY_HEADER session_id
       (filter (\<lambda>(name, _). lower name \<noteq> lower AFFINITY_HEADER) (case hs of None \<Rightarrow> [] | Some h \<Rightarrow> h))"

section \<open>Reading frames\<close>

definition meta_of :: "json \<Rightarrow> jobj" where
  "meta_of params = (case params of JDict d \<Rightarrow> (case dget d META of JDict m \<Rightarrow> m | _ \<Rightarrow> []) | _ \<Rightarrow> [])"

definition params_of :: "jobj option \<Rightarrow> jobj" where
  "params_of params = (case params of None \<Rightarrow> [] | Some d \<Rightarrow> d)"

definition is_modern :: "mcp \<Rightarrow> json \<Rightarrow> bool" where
  "is_modern mc params = mcp_modern_version mc (dget (meta_of params) (mcp_version_key mc))"

definition concludes :: "rpc_frame \<Rightarrow> bool" where
  "concludes f = (case f of Response i result \<Rightarrow> dget result RESULT_TYPE \<noteq> JStr INPUT_REQUIRED | _ \<Rightarrow> True)"

definition is_attempt :: "json \<Rightarrow> bool" where
  "is_attempt event = (case event of JDict d \<Rightarrow> outcome_is d ATTEMPTED | _ \<Rightarrow> False)"

definition read_response :: "lib \<Rightarrow> json \<Rightarrow> response" where
  "read_response L v = (case parse_response L v of Some r \<Rightarrow> r | None \<Rightarrow> Unavailable)"

definition decision :: "lib \<Rightarrow> rpc_frame \<Rightarrow> response" where
  "decision L f = (case f of Response i result \<Rightarrow> read_response L (JDict result) | _ \<Rightarrow> Unavailable)"

text \<open>\<open>d.setdefault(k, v)\<close>.\<close>

definition set_default :: "pystr \<Rightarrow> json \<Rightarrow> jobj \<Rightarrow> jobj" where
  "set_default k v d = (if has_key d k then d else d @ [(k, v)])"

lemma dget_AList_update [simp]: "dget (AList.update k v d) k' = (if k' = k then v else dget d k')"
  by (simp add: dget_def update_conv')

lemma dget_delete [simp]: "dget (AList.delete k d) k' = (if k' = k then JNull else dget d k')"
  by (simp add: dget_def delete_conv')

lemma set_delete_subset: "set (AList.delete k xs) \<subseteq> set xs"
  by (auto simp: AList.delete_eq)

lemma set_update_subset: "set (AList.update k v xs) \<subseteq> insert (k, v) (set xs)"
  by (induction xs) auto

text \<open>\<open>declare_into\<close> in the \<open>capabilities\<close> of a handshake result or an \<open>initialize\<close> request.\<close>

definition declare_capabilities :: "audit_capability \<Rightarrow> jobj \<Rightarrow> jobj" where
  "declare_capabilities c d =
     (let d' = set_default CAPABILITIES (JDict []) d in
      case dget d' CAPABILITIES of
        JDict caps \<Rightarrow> AList.update CAPABILITIES (JDict (declare_into caps c)) d'
      | _ \<Rightarrow> d')"

section \<open>A call outside the binding\<close>

definition without_session :: "negotiation_result \<Rightarrow> negotiation_result" where
  "without_session n = (if \<not> negotiated n then n else n\<lparr>ng_outcome := NO_SESSION\<rparr>)"

definition negotiate_unaudited :: "mcp \<Rightarrow> json \<Rightarrow> audit_capability \<Rightarrow> negotiation_result" where
  "negotiate_unaudited mc params offered =
     without_session (negotiate (capability_of (dget (meta_of params) (mcp_capabilities_key mc))) offered)"

lemma without_session_not: "\<not> negotiated (without_session n)"
  by (simp add: without_session_def negotiated_def)

section \<open>Facts about tokens and headers\<close>

lemma in_lang_Cls_Seq_iff: "in_lang (Seq (Cls P) r) s \<longleftrightarrow> (\<exists>c t. s = c # t \<and> P c \<and> in_lang r t)"
  by (auto simp: in_lang_Seq in_lang_Cls) (metis append_Cons append_Nil)

lemma in_lang_up_to: "in_lang (up_to n P) s \<longleftrightarrow> length s \<le> n \<and> list_all P s"
proof (induction n arbitrary: s)
  case (Suc n)
  show ?case
    by (cases s) (auto simp: opt_def in_lang_Cls_Seq_iff Suc.IH)
qed auto

lemma instance_iff:
  "fullmatch INSTANCE_PATTERN s \<longleftrightarrow> 1 \<le> length s \<and> length s \<le> 64 \<and> list_all is_b64url s"
  unfolding fullmatch_iff INSTANCE_PATTERN_def
  by (cases s) (auto simp: in_lang_Cls_Seq_iff in_lang_up_to Suc_le_eq)

lemma secret_iff: "fullmatch ROUND_SECRET_PATTERN s \<longleftrightarrow> length s = 43 \<and> list_all is_b64url s"
  by (simp add: fullmatch_iff ROUND_SECRET_PATTERN_def in_lang_rep_Cls)

lemma dot_not_b64url: "is_b64url c \<Longrightarrow> c \<noteq> dot"
  by (auto simp: is_b64url_def is_alnum_iff dot_def ustr_def)

lemma token_split:
  assumes "list_all is_b64url i"
  shows "takeWhile (\<lambda>c. c \<noteq> dot) (i @ dot # s) = i" "dropWhile (\<lambda>c. c \<noteq> dot) (i @ dot # s) = dot # s"
  using assms dot_not_b64url by (auto simp: takeWhile_append dropWhile_append list_all_iff)

lemma round_token_instance_rest:
  "round_token_instance (JStr (ROUND_TOKEN_PREFIX @ rest)) = Some i \<longleftrightarrow>
     dropWhile (\<lambda>c. c \<noteq> dot) rest \<noteq> [] \<and> i = takeWhile (\<lambda>c. c \<noteq> dot) rest \<and>
     fullmatch INSTANCE_PATTERN i \<and> fullmatch ROUND_SECRET_PATTERN (tl (dropWhile (\<lambda>c. c \<noteq> dot) rest))"
  by (auto simp: round_token_instance_def Let_def)

lemma round_token_instance_prefix:
  "round_token_instance v = Some i \<Longrightarrow> \<exists>rest. v = JStr (ROUND_TOKEN_PREFIX @ rest)"
  by (cases v) (simp_all add: round_token_instance_def starts_with_iff split: if_splits)

lemma round_token_instance_iff:
  "round_token_instance v = Some i \<longleftrightarrow>
     (\<exists>secret. v = JStr (ROUND_TOKEN_PREFIX @ i @ dot # secret) \<and> fullmatch INSTANCE_PATTERN i \<and>
        fullmatch ROUND_SECRET_PATTERN secret)" (is "?l \<longleftrightarrow> ?r")
proof
  assume l: ?l
  then obtain rest where v: "v = JStr (ROUND_TOKEN_PREFIX @ rest)" using round_token_instance_prefix by blast
  let ?tail = "dropWhile (\<lambda>c. c \<noteq> dot) rest"
  have tail: "?tail \<noteq> []" "i = takeWhile (\<lambda>c. c \<noteq> dot) rest" "fullmatch INSTANCE_PATTERN i"
    "fullmatch ROUND_SECRET_PATTERN (tl ?tail)"
    using l unfolding v round_token_instance_rest by blast+
  then have "?tail = dot # tl ?tail" using hd_dropWhile [of "\<lambda>c. c \<noteq> dot" rest] by (cases ?tail) auto
  then have "rest = i @ dot # tl ?tail"
    using takeWhile_dropWhile_id [of "\<lambda>c. c \<noteq> dot" rest] unfolding tail(2) by metis
  then show ?r using v tail(3,4) by blast
next
  assume ?r
  then obtain secret where v: "v = JStr (ROUND_TOKEN_PREFIX @ i @ dot # secret)"
    "fullmatch INSTANCE_PATTERN i" "fullmatch ROUND_SECRET_PATTERN secret" by blast
  then have "list_all is_b64url i" by (simp add: instance_iff)
  then show ?l using v by (simp add: round_token_instance_rest token_split)
qed

text \<open>\<open>rstrip\<close> drops nothing but padding: three bytes are four characters, a last one or two are two or three.\<close>

lemma rstrip_padding:
  "list_all (\<lambda>c. c \<noteq> pad_char) xs \<Longrightarrow> rstrip pad_char (xs @ padding n) = xs"
  by (cases xs rule: rev_cases) (auto simp: rstrip_def padding_def dropWhile_append)

lemma b64url_encode_chars:
  "b64url_encode raw = map (b64_char ''-_'') (digits_of_bytes raw)"
  unfolding b64url_encode_def base64_encode_def Let_def
  by (rule rstrip_padding) (auto simp: list_all_iff b64_char_not_pad)

lemma b64url_encode_class: "list_all is_b64url (b64url_encode raw)"
  using digits_of_bytes_bound [of raw] b64_char_url by (auto simp: b64url_encode_chars list_all_iff)

lemma length_digits_of_bytes: "length (digits_of_bytes raw) = (4 * length raw + 2) div 3"
proof (induction raw rule: digits_of_bytes.induct)
  case (4 a b c r)
  have "(4 * (length r + 3) + 2) div 3 = (4 * length r + 2) div 3 + 4" using div_mult_self1 [of 3 "4 * length r + 2" 4] by (simp add: algebra_simps)
  with 4 show ?case by (simp add: algebra_simps)
qed simp_all

lemma length_b64url_encode: "length (b64url_encode raw) = (4 * length raw + 2) div 3"
  by (simp add: b64url_encode_chars length_digits_of_bytes)

lemma round_token_secret: "length raw = 32 \<Longrightarrow> fullmatch ROUND_SECRET_PATTERN (b64url_encode raw)"
  by (simp add: secret_iff length_b64url_encode b64url_encode_class)

lemma new_instance_id_ok: "length raw = 16 \<Longrightarrow> fullmatch INSTANCE_PATTERN (new_instance_id raw)"
  by (simp add: new_instance_id_def instance_iff length_b64url_encode b64url_encode_class)

lemma round_token_prefix [simp]: "starts_with ROUND_TOKEN_PREFIX (round_token i raw)"
  by (simp add: round_token_def)

lemma affinity_header_get:
  "map_of (with_affinity_header hs sid) name =
     (if name = AFFINITY_HEADER then Some sid
      else if lower name = lower AFFINITY_HEADER then None
      else map_of (case hs of None \<Rightarrow> [] | Some h \<Rightarrow> h) name)"
proof -
  have "map_of (filter (\<lambda>(n, _). P n) xs) name = (if P name then map_of xs name else None)"
    for P and xs :: headers
    by (induction xs) auto
  then show ?thesis by (simp add: with_affinity_header_def update_conv')
qed

end
