(* ===== verification/McpHost.thy ===== *)
theory McpHost
  imports McpFrames
begin

text \<open>
  \<open>src/auditable_mcp/mcp/seam.py\<close>, the host side: \<open>McpAuditReceiver\<close>, its calls and lanes, the rounds it follows
  and the end of its connection. \<open>hs_call\<close> and \<open>hs_work\<close> are the heaps of \<open>_HostCall\<close> (with the \<open>_Lane\<close> of the
  call) and \<open>_RoundWork\<close>. A lane is a queue of jobs; a job that waits (on the endpoint, on a round's work, on a
  deadline) is an activity, and each function is a run from one \<open>await\<close> to the next. The endpoint is outside:
  \<open>hs_trace\<close> is the sequence of the calls it is given and of its decisions, \<open>None\<close> where it raised.
\<close>

section \<open>State\<close>

datatype job =
    AnswerAttempt rid jobj pystr
  | SealAll "json list" pystr
  | Conclude nat rpc_frame
  | Follow nat rpc_frame
  | CloseJob nat

datatype activity =
    Deciding rid jobj pystr
  | Sealing "json list" pystr "nat option"
  | Following nat jobj nat
  | Abandoning nat pystr nat

datatype audit_step =
    SessionOpened pystr
  | AttemptReceived rid jobj pystr
  | HandedOver jobj pystr
  | Decided jobj pystr "response option"
  | OutcomeSealed jobj pystr
  | SessionClosed pystr

record seam_call =
  hc_original_id :: rid
  hc_params :: jobj
  hc_session_id :: pystr
  hc_current_id :: rid
  hc_client_id :: rid
  hc_rounds :: nat
  hc_held :: "pystr set"
  hc_ended :: bool
  hc_headers :: "headers option"
  hc_queue :: "job list"
  hc_lane_open :: bool

record round_work =
  rw_session_id :: pystr
  rw_events :: "json list"
  rw_decide :: bool
  rw_next :: nat
  rw_responses :: "(pystr \<times> response) list"
  rw_cutoff :: bool
  rw_busy :: "json option"

record host_config =
  hf_mcp :: mcp
  hf_capability :: audit_capability

record host_seam =
  hs_calls :: "(idkey \<times> nat) list"
  hs_concluding :: "nat list"
  hs_held :: "(pystr \<times> nat \<times> jobj) list"
  hs_handshake_id :: "idkey option"
  hs_handshake_read :: bool
  hs_owed :: "(pystr \<times> nat) list"
  hs_next_id :: nat
  hs_call :: "nat \<Rightarrow> seam_call"
  hs_work :: "nat \<Rightarrow> round_work"
  hs_fresh :: nat
  hs_jobs :: "job list"
  hs_running :: "(nat option \<times> activity) list"
  hs_late :: "(jobj \<times> pystr) list"
  hs_waited :: "nat list"
  hs_open :: bool
  hs_sent :: "(rpc_frame \<times> headers option) list"
  hs_up :: "rpc_frame list"
  hs_trace :: "audit_step list"

definition no_host_call :: seam_call where
  "no_host_call = \<lparr>hc_original_id = RidInt 0, hc_params = [], hc_session_id = [], hc_current_id = RidInt 0,
     hc_client_id = RidInt 0, hc_rounds = 0, hc_held = {}, hc_ended = True, hc_headers = None, hc_queue = [],
     hc_lane_open = False\<rparr>"

definition no_work :: round_work where
  "no_work = \<lparr>rw_session_id = [], rw_events = [], rw_decide = False, rw_next = 0, rw_responses = [],
     rw_cutoff = True, rw_busy = None\<rparr>"

definition new_host_seam :: host_seam where
  "new_host_seam = \<lparr>hs_calls = [], hs_concluding = [], hs_held = [], hs_handshake_id = None,
     hs_handshake_read = False, hs_owed = [], hs_next_id = 0, hs_call = (\<lambda>_. no_host_call),
     hs_work = (\<lambda>_. no_work), hs_fresh = 0, hs_jobs = [], hs_running = [], hs_late = [], hs_waited = [],
     hs_open = True, hs_sent = [], hs_up = [], hs_trace = []\<rparr>"

definition upd_hcall :: "nat \<Rightarrow> (seam_call \<Rightarrow> seam_call) \<Rightarrow> host_seam \<Rightarrow> host_seam" where
  "upd_hcall c f s = s\<lparr>hs_call := (hs_call s)(c := f (hs_call s c))\<rparr>"

definition upd_work :: "nat \<Rightarrow> (round_work \<Rightarrow> round_work) \<Rightarrow> host_seam \<Rightarrow> host_seam" where
  "upd_work w f s = s\<lparr>hs_work := (hs_work s)(w := f (hs_work s w))\<rparr>"

definition traced :: "audit_step \<Rightarrow> host_seam \<Rightarrow> host_seam" where
  "traced x s = s\<lparr>hs_trace := hs_trace s @ [x]\<rparr>"

definition host_send :: "rpc_frame \<Rightarrow> headers option \<Rightarrow> host_seam \<Rightarrow> bool \<times> host_seam" where
  "host_send f hs s = (if hs_open s then (True, s\<lparr>hs_sent := hs_sent s @ [(f, hs)]\<rparr>) else (False, s))"

definition deliver_up :: "rpc_frame \<Rightarrow> host_seam \<Rightarrow> host_seam" where
  "deliver_up f s = s\<lparr>hs_up := hs_up s @ [f]\<rparr>"

section \<open>Results without their audit\<close>

definition without_audit :: "jobj \<Rightarrow> jobj" where
  "without_audit result =
     (case dget result META of
        JDict meta \<Rightarrow>
          if \<not> has_key meta EXTENSION_ID then result
          else let rest = AList.delete EXTENSION_ID meta in
            if rest \<noteq> [] then AList.update META (JDict rest) result else AList.delete META result
      | _ \<Rightarrow> result)"

text \<open>\<open>_events_of\<close>: every item, valid or not, in the order the tool emitted them.\<close>

definition events_of :: "jobj \<Rightarrow> json list" where
  "events_of result =
     (case dget (meta_of (JDict result)) EXTENSION_ID of
        JDict carried \<Rightarrow> (case dget carried EVENTS of JList events \<Rightarrow> events | _ \<Rightarrow> [])
      | _ \<Rightarrow> [])"

section \<open>Sessions, lanes and what is owed\<close>

text \<open>\<open>_NO_CALL\<close>: the session id of an event that arrived on no call.\<close>

definition NO_CALL :: pystr where
  "NO_CALL = []"

definition owe :: "pystr \<Rightarrow> nat \<Rightarrow> host_seam \<Rightarrow> host_seam" where
  "owe sid n s =
     (if n = 0 then s
      else s\<lparr>hs_owed := AList.update sid ((case map_of (hs_owed s) sid of Some m \<Rightarrow> m | None \<Rightarrow> 0) + n) (hs_owed s)\<rparr>)"

definition settle_owed :: "pystr \<Rightarrow> host_seam \<Rightarrow> host_seam" where
  "settle_owed sid s =
     (let owed = (case map_of (hs_owed s) sid of Some m \<Rightarrow> m | None \<Rightarrow> 0) in
      if owed > 1 then s\<lparr>hs_owed := AList.update sid (owed - 1) (hs_owed s)\<rparr>
      else if owed > 0 then s\<lparr>hs_owed := AList.delete sid (hs_owed s)\<rparr> else s)"

definition dispatch :: "nat option \<Rightarrow> job \<Rightarrow> host_seam \<Rightarrow> host_seam" where
  "dispatch lane j s =
     (case lane of
        Some c \<Rightarrow>
          if hc_lane_open (hs_call s c) then upd_hcall c (\<lambda>h. h\<lparr>hc_queue := hc_queue h @ [j]\<rparr>) s
          else s\<lparr>hs_jobs := hs_jobs s @ [j]\<rparr>
      | None \<Rightarrow> s\<lparr>hs_jobs := hs_jobs s @ [j]\<rparr>)"

definition route :: "rid option \<Rightarrow> jobj option \<Rightarrow> host_seam \<Rightarrow> pystr \<times> nat option" where
  "route related params s =
     (case (case related of Some r \<Rightarrow> map_of (hs_calls s) (rid_key r) | None \<Rightarrow> None) of
        Some c \<Rightarrow> (hc_session_id (hs_call s c), Some c)
      | None \<Rightarrow>
          (case find (\<lambda>c. JStr (hc_session_id (hs_call s c)) = dget (params_of params) SESSION_ID)
                  (map snd (hs_calls s)) of
             Some c \<Rightarrow> (hc_session_id (hs_call s c), Some c)
           | None \<Rightarrow> (NO_CALL, None)))"

definition detach :: "nat \<Rightarrow> host_seam \<Rightarrow> host_seam" where
  "detach c s =
     (let h = hs_call s c in
      (upd_hcall c (\<lambda>h. h\<lparr>hc_ended := True, hc_held := {}\<rparr>) s)
        \<lparr>hs_calls := AList.delete (rid_key (hc_current_id h)) (hs_calls s),
         hs_held := filter (\<lambda>(state, _). state \<notin> hc_held h) (hs_held s),
         hs_concluding := List.insert c (hs_concluding s)\<rparr>)"

definition evict :: "nat \<Rightarrow> host_seam \<Rightarrow> host_seam" where
  "evict c s = dispatch (Some c) (CloseJob c) (detach c s)"

text \<open>\<open>_hold\<close>: each turn of its loop removes the round it evicts, so the fuel is the number of them.\<close>

primrec evict_held :: "nat \<Rightarrow> host_seam \<Rightarrow> host_seam" where
  "evict_held 0 s = s"
| "evict_held (Suc n) s =
     (case hs_held s of
        [] \<Rightarrow> s
      | (state, c, rs) # _ \<Rightarrow> if length (hs_held s) > MAX_IDLE_SESSIONS then evict_held n (evict c s) else s)"

definition hold :: "nat \<Rightarrow> pystr \<Rightarrow> jobj \<Rightarrow> host_seam \<Rightarrow> host_seam" where
  "hold c state responses s =
     (let s1 = s\<lparr>hs_held := AList.delete state (hs_held s)\<rparr>;
          s2 = (case map_of (hs_held s) state of
                  Some (c', _) \<Rightarrow> if c' \<noteq> c then evict c' s1 else s1
                | None \<Rightarrow> s1);
          s3 = upd_hcall c (\<lambda>h. h\<lparr>hc_held := insert state (hc_held h)\<rparr>)
                 (s2\<lparr>hs_held := AList.update state (c, responses) (hs_held s2)\<rparr>)
      in evict_held (length (hs_held s3)) s3)"

section \<open>Outbound frames\<close>

text \<open>\<open>params.setdefault(META, {})[EXTENSION_ID] = v\<close>, where \<open>META\<close> is absent or an object.\<close>

definition set_audit_meta :: "jobj \<Rightarrow> jobj \<Rightarrow> jobj" where
  "set_audit_meta v d = AList.update META (JDict (AList.update EXTENSION_ID (JDict v) (meta_of (JDict d)))) d"

definition declare_request :: "host_config \<Rightarrow> pystr \<Rightarrow> jobj \<Rightarrow> jobj" where
  "declare_request hf meth d =
     (if meth = INITIALIZE_METHOD then declare_capabilities (hf_capability hf) d
      else case dget d META of
        JDict m \<Rightarrow>
          (case dget m (mcp_capabilities_key (hf_mcp hf)) of
             JDict caps \<Rightarrow> AList.update META (JDict (AList.update (mcp_capabilities_key (hf_mcp hf))
               (JDict (declare_into caps (hf_capability hf))) m)) d
           | _ \<Rightarrow> d)
      | _ \<Rightarrow> d)"

definition answers_meta :: "pystr \<Rightarrow> jobj \<Rightarrow> jobj" where
  "answers_meta sid responses = [(SESSION_ID, JStr sid), (RESPONSES, JDict responses)]"

definition host_cancel :: "jobj option \<Rightarrow> host_seam \<Rightarrow> rpc_frame \<times> host_seam" where
  "host_cancel params s =
     (let d = params_of params; target = key (dget d REQUEST_ID) in
      case find (\<lambda>c. rid_key (hc_client_id (hs_call s c)) = target) (map snd (hs_calls s)) of
        None \<Rightarrow> (Notification CANCELLED_METHOD params, s)
      | Some c \<Rightarrow>
          let s1 = evict c s; current = hc_current_id (hs_call s1 c) in
          (if rid_key current = target then Notification CANCELLED_METHOD params
           else Notification CANCELLED_METHOD (Some (AList.update REQUEST_ID (rid_json current) d)), s1))"

text \<open>A new audited call, with the session the endpoint opened for it.\<close>

definition open_host_call :: "pystr \<Rightarrow> rid \<Rightarrow> jobj \<Rightarrow> host_seam \<Rightarrow> jobj \<times> host_seam" where
  "open_host_call sid i d s =
     (let d' = set_audit_meta [(SESSION_ID, JStr sid)] d; c = hs_fresh s;
          call = \<lparr>hc_original_id = i, hc_params = d', hc_session_id = sid, hc_current_id = i, hc_client_id = i,
                  hc_rounds = 0, hc_held = {}, hc_ended = False, hc_headers = None, hc_queue = [],
                  hc_lane_open = True\<rparr>
      in (d', traced (SessionOpened sid)
                (s\<lparr>hs_call := (hs_call s)(c := call), hs_fresh := Suc c,
                   hs_calls := AList.update (rid_key i) c (hs_calls s)\<rparr>)))"

text \<open>The client's own retry of a round that asked it for input.\<close>

definition retry_host_call :: "pystr \<Rightarrow> nat \<Rightarrow> jobj \<Rightarrow> rid \<Rightarrow> jobj \<Rightarrow> host_seam \<Rightarrow> jobj \<times> host_seam" where
  "retry_host_call state c responses i d s =
     (let h = hs_call s c;
          s1 = s\<lparr>hs_held := AList.delete state (hs_held s),
                 hs_calls := AList.update (rid_key i) c (AList.delete (rid_key (hc_current_id h)) (hs_calls s))\<rparr>;
          s2 = upd_hcall c (\<lambda>h. h\<lparr>hc_held := hc_held h - {state}, hc_current_id := i, hc_client_id := i\<rparr>) s1
      in (set_audit_meta (answers_meta (hc_session_id h) responses) d, s2))"

definition host_call_out :: "pystr \<Rightarrow> rid \<Rightarrow> jobj \<Rightarrow> host_seam \<Rightarrow> jobj \<times> host_seam" where
  "host_call_out sid i d s =
     (if has_key d META \<and> \<not> is_object (dget d META) then (d, s)
      else case (case dget d REQUEST_STATE of
                   JStr state \<Rightarrow> map_option (\<lambda>e. (state, e)) (map_of (hs_held s) state) | _ \<Rightarrow> None) of
        Some (state, c, responses) \<Rightarrow> retry_host_call state c responses i d s
      | None \<Rightarrow> if is_object (dget d TASK) then (d, s) else open_host_call sid i d s)"

definition host_outbound :: "host_config \<Rightarrow> pystr \<Rightarrow> rpc_frame \<Rightarrow> host_seam \<Rightarrow> rpc_frame \<times> host_seam" where
  "host_outbound hf sid f s =
     (case f of
        Notification meth params \<Rightarrow> if meth = CANCELLED_METHOD then host_cancel params s else (f, s)
      | Request i meth params \<Rightarrow>
          let s1 = (if meth \<in> set HANDSHAKE_METHODS \<and> \<not> hs_handshake_read s
                    then s\<lparr>hs_handshake_id := Some (rid_key i)\<rparr> else s)
          in (case params of
                None \<Rightarrow> (f, s1)
              | Some d \<Rightarrow>
                  let d1 = declare_request hf meth d in
                  if meth \<noteq> TOOLS_CALL_METHOD then (Request i meth (Some d1), s1)
                  else case host_call_out sid i d1 s1 of (d2, s2) \<Rightarrow> (Request i meth (Some d2), s2))
      | _ \<Rightarrow> (f, s))"

text \<open>\<open>_outbound_metadata\<close>: the headers the frame leaves with.\<close>

definition outbound_headers :: "rpc_frame \<Rightarrow> headers option \<Rightarrow> host_seam \<Rightarrow> headers option \<times> host_seam" where
  "outbound_headers f own s =
     (case f of
        Request i meth params \<Rightarrow>
          (case (if meth = TOOLS_CALL_METHOD then map_of (hs_calls s) (rid_key i) else None) of
             None \<Rightarrow> (own, s)
           | Some c \<Rightarrow>
               if hc_ended (hs_call s c) then (own, s)
               else (Some (with_affinity_header own (hc_session_id (hs_call s c))),
                     upd_hcall c (\<lambda>h. h\<lparr>hc_headers := Some (case own of None \<Rightarrow> [] | Some x \<Rightarrow> x)\<rparr>) s))
      | _ \<Rightarrow> (own, s))"

definition host_pump_outbound :: "host_config \<Rightarrow> pystr \<Rightarrow> rpc_frame \<Rightarrow> headers option \<Rightarrow> host_seam \<Rightarrow> host_seam" where
  "host_pump_outbound hf sid f own s =
     (case host_outbound hf sid f s of
        (g, s1) \<Rightarrow> (case outbound_headers g own s1 of (hs, s2) \<Rightarrow> snd (host_send g hs s2)))"

section \<open>Inbound frames\<close>

definition OUTCOME_REQUEST_MESSAGE :: pystr where
  "OUTCOME_REQUEST_MESSAGE = OUTCOME_METHOD @ ustr '' is a notification'' @ section_mark ''6.5''"

text \<open>An answer of the tool to a call in flight: what it carries is owed, then the call concludes or goes on.\<close>

definition host_answer :: "nat \<Rightarrow> rpc_frame \<Rightarrow> host_seam \<Rightarrow> rpc_frame option \<times> host_seam" where
  "host_answer c f s =
     (let s1 = (case f of
                  Response i result \<Rightarrow> owe (hc_session_id (hs_call s c))
                    (length (filter (\<lambda>e. \<not> is_attempt e) (events_of result))) s
                | _ \<Rightarrow> s)
      in if \<not> hc_ended (hs_call s1 c) \<and> concludes f then
           (Some (case f of
                    Error i e \<Rightarrow> Error (Some (hc_client_id (hs_call s1 c))) e
                  | Response i result \<Rightarrow> Response (hc_client_id (hs_call s1 c)) (without_audit result)
                  | _ \<Rightarrow> f),
            dispatch (Some c) (Conclude c f) (detach c s1))
         else (None, dispatch (Some c) (Follow c f) s1))"

definition opt_key :: "rid option \<Rightarrow> idkey" where
  "opt_key i = (case i of Some r \<Rightarrow> rid_key r | None \<Rightarrow> key JNull)"

definition host_inbound :: "rid option \<Rightarrow> rpc_frame \<Rightarrow> host_seam \<Rightarrow> rpc_frame option \<times> host_seam" where
  "host_inbound related f s =
     (case f of
        Request i meth params \<Rightarrow>
          if meth = ATTEMPT_METHOD then
            (case route related params s of
               (sid, lane) \<Rightarrow> (None, dispatch lane (AnswerAttempt i (params_of params) sid)
                                  (traced (AttemptReceived i (params_of params) sid) s)))
          else if meth = OUTCOME_METHOD then
            (None, snd (host_send (Error (Some i) (RPC_INVALID_REQUEST, OUTCOME_REQUEST_MESSAGE, None)) None s))
          else (Some f, s)
      | Notification meth params \<Rightarrow>
          if meth = OUTCOME_METHOD then
            (case route related params s of
               (sid, lane) \<Rightarrow> (None, dispatch lane
                  (SealAll [case params of Some d \<Rightarrow> JDict d | None \<Rightarrow> JNull] sid) (owe sid 1 s)))
          else if meth = ATTEMPT_METHOD then (None, s)
          else (Some f, s)
      | Response i result \<Rightarrow>
          if hs_handshake_id s = Some (rid_key i) then
            (Some f, s\<lparr>hs_handshake_id := None, hs_handshake_read := True\<rparr>)
          else (case map_of (hs_calls s) (rid_key i) of Some c \<Rightarrow> host_answer c f s | None \<Rightarrow> (Some f, s))
      | Error i e \<Rightarrow>
          (case map_of (hs_calls s) (opt_key i) of Some c \<Rightarrow> host_answer c f s | None \<Rightarrow> (Some f, s)))"

definition host_pump_inbound :: "rid option \<Rightarrow> rpc_frame \<Rightarrow> host_seam \<Rightarrow> host_seam" where
  "host_pump_inbound related f s =
     (case host_inbound related f s of (None, s') \<Rightarrow> s' | (Some g, s') \<Rightarrow> deliver_up g s')"

section \<open>Jobs and activities\<close>

text \<open>An activity goes on, or ends and leaves its lane to the next job.\<close>

definition end_activity :: "nat option \<Rightarrow> activity \<Rightarrow> host_seam \<Rightarrow> host_seam" where
  "end_activity lane a s = s\<lparr>hs_running := remove1 (lane, a) (hs_running s)\<rparr>"

definition begin_activity :: "nat option \<Rightarrow> activity \<Rightarrow> host_seam \<Rightarrow> host_seam" where
  "begin_activity lane a s = s\<lparr>hs_running := hs_running s @ [(lane, a)]\<rparr>"

definition new_work :: "pystr \<Rightarrow> json list \<Rightarrow> bool \<Rightarrow> host_seam \<Rightarrow> nat \<times> host_seam" where
  "new_work sid events decide s =
     (let w = hs_fresh s in
      (w, s\<lparr>hs_fresh := Suc w,
            hs_work := (hs_work s)(w := \<lparr>rw_session_id = sid, rw_events = events, rw_decide = decide, rw_next = 0,
              rw_responses = [], rw_cutoff = False, rw_busy = None\<rparr>)\<rparr>))"

definition TOO_MANY_ROUNDS_MESSAGE :: pystr where
  "TOO_MANY_ROUNDS_MESSAGE =
     ustr ''the tool exceeded the limit of '' @ decimal MAX_ROUNDS_PER_CALL @ ustr '' audit rounds for one call''"

definition NO_STATE_MESSAGE :: pystr where
  "NO_STATE_MESSAGE = ustr ''the tool asked for input without a requestState'' @ section_mark ''6.4''"

text \<open>\<open>_abandon\<close>, to its wait.\<close>

definition abandon_start :: "nat option \<Rightarrow> nat \<Rightarrow> json list \<Rightarrow> pystr \<Rightarrow> host_seam \<Rightarrow> host_seam" where
  "abandon_start lane c events message s =
     (case new_work (hc_session_id (hs_call s c)) events False (detach c s) of
        (w, s') \<Rightarrow> begin_activity lane (Abandoning c message w) s')"

definition follow_start :: "nat option \<Rightarrow> nat \<Rightarrow> rpc_frame \<Rightarrow> host_seam \<Rightarrow> host_seam" where
  "follow_start lane c f s =
     (case f of
        Response i result \<Rightarrow>
          if hc_ended (hs_call s c) then s
          else
            let events = events_of result;
                s1 = upd_hcall c (\<lambda>h. h\<lparr>hc_rounds := Suc (hc_rounds h)\<rparr>) s
            in if hc_rounds (hs_call s1 c) > MAX_ROUNDS_PER_CALL
               then abandon_start lane c events TOO_MANY_ROUNDS_MESSAGE s1
               else (case dget result REQUEST_STATE of
                       JStr state \<Rightarrow>
                         (case new_work (hc_session_id (hs_call s1 c)) events True s1 of
                            (w, s2) \<Rightarrow> begin_activity lane (Following c result w) s2)
                     | _ \<Rightarrow> abandon_start lane c events NO_STATE_MESSAGE s1)
      | _ \<Rightarrow> s)"

definition start_job :: "nat option \<Rightarrow> job \<Rightarrow> host_seam \<Rightarrow> host_seam" where
  "start_job lane j s =
     (case j of
        AnswerAttempt i event sid \<Rightarrow> begin_activity lane (Deciding i event sid) (traced (HandedOver event sid) s)
      | SealAll events sid \<Rightarrow> begin_activity lane (Sealing events sid None) s
      | Conclude c f \<Rightarrow> begin_activity lane
          (Sealing (case f of Response i result \<Rightarrow> events_of result | _ \<Rightarrow> []) (hc_session_id (hs_call s c)) (Some c)) s
      | Follow c f \<Rightarrow> follow_start lane c f s
      | CloseJob c \<Rightarrow> begin_activity lane (Sealing [] (hc_session_id (hs_call s c)) (Some c)) s)"

text \<open>A lane takes up its next job when it has none in progress; work for no open session runs on its own.\<close>

definition lane_idle :: "nat \<Rightarrow> host_seam \<Rightarrow> bool" where
  "lane_idle c s = list_all (\<lambda>(lane, _). lane \<noteq> Some c) (hs_running s)"

definition take_job :: "nat \<Rightarrow> host_seam \<Rightarrow> host_seam" where
  "take_job c s =
     (case hc_queue (hs_call s c) of
        [] \<Rightarrow> s
      | j # js \<Rightarrow> start_job (Some c) j (upd_hcall c (\<lambda>h. h\<lparr>hc_queue := js\<rparr>) s))"

definition take_own_job :: "job \<Rightarrow> host_seam \<Rightarrow> host_seam" where
  "take_own_job j s = start_job None j (s\<lparr>hs_jobs := remove1 j (hs_jobs s)\<rparr>)"

section \<open>Attempts\<close>

text \<open>\<open>_hand_over\<close>: an endpoint that raised is answered for as unavailable.\<close>

definition handed :: "response option \<Rightarrow> response" where
  "handed r = (case r of Some x \<Rightarrow> x | None \<Rightarrow> Unavailable)"

definition decide_answer :: "nat option \<Rightarrow> rid \<Rightarrow> jobj \<Rightarrow> pystr \<Rightarrow> response option \<Rightarrow> host_seam \<Rightarrow> host_seam" where
  "decide_answer lane i event sid r s =
     snd (host_send (Response i (response_to_wire (handed r))) None
       (traced (Decided event sid r) (end_activity lane (Deciding i event sid) s)))"

text \<open>The deadline of an attempt: it is answered unavailable, and the endpoint goes on.\<close>

definition decide_late :: "nat option \<Rightarrow> rid \<Rightarrow> jobj \<Rightarrow> pystr \<Rightarrow> host_seam \<Rightarrow> host_seam" where
  "decide_late lane i event sid s =
     (let s1 = end_activity lane (Deciding i event sid) s
      in snd (host_send (Response i (response_to_wire Unavailable)) None
           (s1\<lparr>hs_late := hs_late s1 @ [(event, sid)]\<rparr>)))"

definition late_decision :: "jobj \<Rightarrow> pystr \<Rightarrow> response option \<Rightarrow> host_seam \<Rightarrow> host_seam" where
  "late_decision event sid r s = traced (Decided event sid r) (s\<lparr>hs_late := remove1 (event, sid) (hs_late s)\<rparr>)"

section \<open>Outcomes and the end of a session\<close>

definition seam_seal_outcome :: "json \<Rightarrow> pystr \<Rightarrow> host_seam \<Rightarrow> host_seam" where
  "seam_seal_outcome event sid s = settle_owed sid (traced (OutcomeSealed (object_of event) sid) s)"

definition close_call :: "nat \<Rightarrow> host_seam \<Rightarrow> host_seam" where
  "close_call c s =
     (let s1 = upd_hcall c (\<lambda>h. h\<lparr>hc_lane_open := False\<rparr>) (traced (SessionClosed (hc_session_id (hs_call s c))) s)
      in s1\<lparr>hs_concluding := removeAll c (hs_concluding s1)\<rparr>)"

definition seal_item :: "nat option \<Rightarrow> json list \<Rightarrow> pystr \<Rightarrow> nat option \<Rightarrow> host_seam \<Rightarrow> host_seam" where
  "seal_item lane events sid after s =
     (let s1 = end_activity lane (Sealing events sid after) s in
      case events of
        e # es \<Rightarrow> begin_activity lane (Sealing es sid after) (seam_seal_outcome e sid s1)
      | [] \<Rightarrow> (case after of None \<Rightarrow> s1 | Some c \<Rightarrow> close_call c s1))"

section \<open>Rounds\<close>

text \<open>\<open>_work_through\<close>, one item: taken up, and decided or sealed.\<close>

definition work_take :: "nat \<Rightarrow> host_seam \<Rightarrow> host_seam" where
  "work_take w s =
     (let x = hs_work s w in
      if rw_busy x \<noteq> None \<or> rw_next x \<ge> length (rw_events x) \<or> rw_cutoff x then s
      else
        let event = rw_events x ! rw_next x;
            s1 = upd_work w (\<lambda>x. x\<lparr>rw_next := Suc (rw_next x)\<rparr>) s
        in if is_attempt event \<and> \<not> rw_decide x then s1
           else upd_work w (\<lambda>x. x\<lparr>rw_busy := Some event\<rparr>)
             (if is_attempt event then traced (HandedOver (object_of event) (rw_session_id x)) s1 else s1))"

definition work_finish :: "nat \<Rightarrow> response option \<Rightarrow> host_seam \<Rightarrow> host_seam" where
  "work_finish w r s =
     (let x = hs_work s w in
      case rw_busy x of
        None \<Rightarrow> s
      | Some event \<Rightarrow>
          let s1 = upd_work w (\<lambda>x. x\<lparr>rw_busy := None\<rparr>) s in
          if \<not> is_attempt event then seam_seal_outcome event (rw_session_id x) s1
          else
            let s2 = traced (Decided (object_of event) (rw_session_id x) r) s1 in
            case dget (object_of event) ID of
              JStr eid \<Rightarrow>
                if rw_cutoff x then s2
                else upd_work w (\<lambda>x. x\<lparr>rw_responses := AList.update eid (handed r) (rw_responses x)\<rparr>) s2
            | _ \<Rightarrow> s2)"

definition work_done :: "round_work \<Rightarrow> bool" where
  "work_done x \<longleftrightarrow> rw_busy x = None \<and> (rw_next x \<ge> length (rw_events x) \<or> rw_cutoff x)"

definition leftover_outcomes :: "round_work \<Rightarrow> json list" where
  "leftover_outcomes x = filter (\<lambda>e. \<not> is_attempt e) (drop (rw_next x) (rw_events x))"

text \<open>What the retry carries: each attempt under its id where that is a string, unavailable where undecided.\<close>

definition round_responses :: "json list \<Rightarrow> (pystr \<times> response) list \<Rightarrow> jobj" where
  "round_responses events decided =
     fold (\<lambda>event acc.
       if is_attempt event then
         (case dget (object_of event) ID of
            JStr eid \<Rightarrow> AList.update eid (JDict (response_to_wire
              (case map_of decided eid of Some r \<Rightarrow> r | None \<Rightarrow> Unavailable))) acc
          | _ \<Rightarrow> acc)
       else acc) events []"

text \<open>The retry this seam sends itself, repeating the request and its headers.\<close>

definition send_retry :: "nat \<Rightarrow> json \<Rightarrow> jobj \<Rightarrow> host_seam \<Rightarrow> host_seam" where
  "send_retry c state responses s =
     (let h = hs_call s c; n = Suc (hs_next_id s); i = RidStr (ID_PREFIX @ decimal n);
          s1 = upd_hcall c (\<lambda>h. h\<lparr>hc_current_id := i\<rparr>)
                 (s\<lparr>hs_next_id := n,
                    hs_calls := AList.update (rid_key i) c (AList.delete (rid_key (hc_current_id h)) (hs_calls s))\<rparr>);
          params = set_audit_meta (answers_meta (hc_session_id h) responses)
                     (AList.update REQUEST_STATE state (hc_params h))
      in case host_send (Request i TOOLS_CALL_METHOD (Some params))
                (Some (with_affinity_header (hc_headers h) (hc_session_id h))) s1 of
           (True, s2) \<Rightarrow> s2
         | (False, s2) \<Rightarrow>
             deliver_up (Error (Some (hc_client_id h)) (RPC_INTERNAL_ERROR, RETRY_NOT_SENT_MESSAGE, None)) (evict c s2))"

definition seal_leftover :: "nat \<Rightarrow> json list \<Rightarrow> host_seam \<Rightarrow> host_seam" where
  "seal_leftover c leftover s =
     (if leftover = [] then s else dispatch (Some c) (SealAll leftover (hc_session_id (hs_call s c))) s)"

text \<open>\<open>_follow\<close> after its wait: the work is done, or the deadline cut it off.\<close>

definition follow_end :: "nat option \<Rightarrow> nat \<Rightarrow> jobj \<Rightarrow> nat \<Rightarrow> host_seam \<Rightarrow> host_seam" where
  "follow_end lane c result w s =
     (let x = hs_work s w;
          s1 = upd_work w (\<lambda>x. x\<lparr>rw_cutoff := True\<rparr>) (end_activity lane (Following c result w) s);
          leftover = leftover_outcomes x
      in if hc_ended (hs_call s1 c)
         then begin_activity lane (Sealing leftover (hc_session_id (hs_call s1 c)) None) s1
         else
           let s2 = seal_leftover c leftover s1;
               responses = round_responses (rw_events x) (rw_responses x)
           in if truthy (dget result INPUT_REQUESTS) then
                let s3 = hold c (case dget result REQUEST_STATE of JStr t \<Rightarrow> t | _ \<Rightarrow> []) responses s2
                in deliver_up (Response (hc_client_id (hs_call s3 c)) (without_audit result)) s3
              else send_retry c (dget result REQUEST_STATE) responses s2)"

definition abandon_end :: "nat option \<Rightarrow> nat \<Rightarrow> pystr \<Rightarrow> nat \<Rightarrow> host_seam \<Rightarrow> host_seam" where
  "abandon_end lane c message w s =
     (let x = hs_work s w;
          s1 = upd_work w (\<lambda>x. x\<lparr>rw_cutoff := True\<rparr>) (end_activity lane (Abandoning c message w) s);
          s2 = dispatch (Some c) (CloseJob c) (seal_leftover c (leftover_outcomes x) s1)
      in deliver_up (Error (Some (hc_client_id (hs_call s2 c))) (RPC_INTERNAL_ERROR, message, None)) s2)"

section \<open>The end of the connection\<close>

text \<open>\<open>_on_close\<close>, to its wait: every call in flight ends, and no lane takes more work.\<close>

definition host_close_begin :: "host_seam \<Rightarrow> host_seam" where
  "host_close_begin s =
     (let calls = remdups (map snd (hs_calls s)) in
      s\<lparr>hs_calls := [], hs_held := [],
        hs_call := (\<lambda>c. if c \<in> set calls then (hs_call s c)\<lparr>hc_ended := True, hc_lane_open := False\<rparr> else hs_call s c),
        hs_waited := remdups (calls @ hs_concluding s)\<rparr>)"

text \<open>After it: each of those sessions is closed, whatever its lane still holds.\<close>

fun close_sessions :: "nat list \<Rightarrow> host_seam \<Rightarrow> host_seam" where
  "close_sessions [] s = s"
| "close_sessions (c # cs) s =
     close_sessions cs
       (let sid = hc_session_id (hs_call s c) in
        traced (SessionClosed sid) (s\<lparr>hs_owed := AList.delete sid (hs_owed s)\<rparr>))"

definition host_close_end :: "host_seam \<Rightarrow> host_seam" where
  "host_close_end s = (close_sessions (hs_waited s) s)\<lparr>hs_concluding := [], hs_waited := []\<rparr>"

end
