(* ===== verification/McpHostRun.thy ===== *)
theory McpHostRun
  imports McpHost
begin

text \<open>
  The runs of the host side: any interleaving of frames from the client and from the tool, jobs of the lanes,
  decisions and deadlines of the endpoint, items of a round, a broken connection and its end; and the invariant of
  every answer it holds or has sent: it is the endpoint's decision for an attempt of that id, or unavailable.
\<close>

section \<open>Runs\<close>

text \<open>
  What the client of the host process keeps to: its ids are not those of the seam, it answers only requests it was
  shown, the extension's member of \<open>_meta\<close> is the binding's to write, and no id in flight is used again.
\<close>

definition own_id :: "rid \<Rightarrow> bool" where
  "own_id i = (case i of RidStr r \<Rightarrow> \<not> starts_with ID_PREFIX r | RidInt n \<Rightarrow> True)"

definition client_frame :: "rpc_frame \<Rightarrow> bool" where
  "client_frame f = (case f of
     Request i meth params \<Rightarrow> own_id i \<and> dget (meta_of (JDict (params_of params))) EXTENSION_ID = JNull
   | Response i result \<Rightarrow> own_id i
   | _ \<Rightarrow> True)"

definition id_free :: "rpc_frame \<Rightarrow> host_seam \<Rightarrow> bool" where
  "id_free f s = (case f of Request i meth params \<Rightarrow> map_of (hs_calls s) (rid_key i) = None | _ \<Rightarrow> True)"

inductive host_run :: "host_config \<Rightarrow> host_seam \<Rightarrow> bool" for hf where
  start: "host_run hf new_host_seam"
| outbound: "host_run hf s \<Longrightarrow> client_frame f \<Longrightarrow> id_free f s \<Longrightarrow> host_run hf (host_pump_outbound hf sid f own s)"
| inbound: "host_run hf s \<Longrightarrow> host_run hf (host_pump_inbound related f s)"
| job: "host_run hf s \<Longrightarrow> lane_idle c s \<Longrightarrow> host_run hf (take_job c s)"
| own_job: "host_run hf s \<Longrightarrow> j \<in> set (hs_jobs s) \<Longrightarrow> host_run hf (take_own_job j s)"
| decide: "host_run hf s \<Longrightarrow> (lane, Deciding i event sid) \<in> set (hs_running s) \<Longrightarrow>
     host_run hf (decide_answer lane i event sid r s)"
| late: "host_run hf s \<Longrightarrow> (lane, Deciding i event sid) \<in> set (hs_running s) \<Longrightarrow>
     host_run hf (decide_late lane i event sid s)"
| late_decision: "host_run hf s \<Longrightarrow> (event, sid) \<in> set (hs_late s) \<Longrightarrow> host_run hf (late_decision event sid r s)"
| seal: "host_run hf s \<Longrightarrow> (lane, Sealing events sid after) \<in> set (hs_running s) \<Longrightarrow>
     host_run hf (seal_item lane events sid after s)"
| work_take: "host_run hf s \<Longrightarrow> host_run hf (work_take w s)"
| work_finish: "host_run hf s \<Longrightarrow> host_run hf (work_finish w r s)"
| follow: "host_run hf s \<Longrightarrow> (lane, Following c result w) \<in> set (hs_running s) \<Longrightarrow>
     host_run hf (follow_end lane c result w s)"
| abandon: "host_run hf s \<Longrightarrow> (lane, Abandoning c message w) \<in> set (hs_running s) \<Longrightarrow>
     host_run hf (abandon_end lane c message w s)"
| break: "host_run hf s \<Longrightarrow> host_run hf (s\<lparr>hs_open := False\<rparr>)"
| close: "host_run hf s \<Longrightarrow> hs_waited s = [] \<Longrightarrow> host_run hf (host_close_begin s)"

section \<open>The invariant of answers\<close>

text \<open>\<open>r\<close> is what the endpoint decided for an attempt of the id \<open>eid\<close> in the session, or unavailable.\<close>

definition decided :: "audit_step list \<Rightarrow> pystr \<Rightarrow> pystr \<Rightarrow> response \<Rightarrow> bool" where
  "decided tr sid eid r \<longleftrightarrow> r = Unavailable \<or>
     (\<exists>event. Decided event sid (Some r) \<in> set tr \<and> dget event ID = JStr eid)"

definition responses_from :: "audit_step list \<Rightarrow> pystr \<Rightarrow> jobj \<Rightarrow> bool" where
  "responses_from tr sid rs \<longleftrightarrow>
     (\<forall>eid v. (eid, v) \<in> set rs \<longrightarrow> (\<exists>r. v = JDict (response_to_wire r) \<and> decided tr sid eid r))"

definition answer_meta_from :: "audit_step list \<Rightarrow> jobj \<Rightarrow> bool" where
  "answer_meta_from tr d \<longleftrightarrow> dget (meta_of (JDict d)) EXTENSION_ID = JNull \<or>
     (\<exists>sid. dget (meta_of (JDict d)) EXTENSION_ID = JDict [(SESSION_ID, JStr sid)]) \<or>
     (\<exists>sid rs. dget (meta_of (JDict d)) EXTENSION_ID = JDict (answers_meta sid rs) \<and> responses_from tr sid rs)"

definition sent_from :: "audit_step list \<Rightarrow> rpc_frame \<Rightarrow> bool" where
  "sent_from tr f = (case f of
     Request i meth params \<Rightarrow> answer_meta_from tr (params_of params)
   | Response i result \<Rightarrow> own_id i \<or>
       (\<exists>d sid r. AttemptReceived i d sid \<in> set tr \<and> result = response_to_wire r \<and>
          (r = Unavailable \<or> Decided d sid (Some r) \<in> set tr))
   | _ \<Rightarrow> True)"

definition job_ok :: "host_seam \<Rightarrow> job \<Rightarrow> bool" where
  "job_ok s j = (case j of
     AnswerAttempt i d sid \<Rightarrow> AttemptReceived i d sid \<in> set (hs_trace s)
   | Follow c f \<Rightarrow> c < hs_fresh s
   | _ \<Rightarrow> True)"

definition activity_ok :: "host_seam \<Rightarrow> activity \<Rightarrow> bool" where
  "activity_ok s a = (case a of
     Deciding i d sid \<Rightarrow> AttemptReceived i d sid \<in> set (hs_trace s)
   | Following c result w \<Rightarrow> c < hs_fresh s \<and> w < hs_fresh s \<and>
       rw_session_id (hs_work s w) = hc_session_id (hs_call s c)
   | _ \<Rightarrow> True)"

definition work_ok :: "host_seam \<Rightarrow> nat \<Rightarrow> bool" where
  "work_ok s w \<longleftrightarrow> (\<forall>eid r. (eid, r) \<in> set (rw_responses (hs_work s w)) \<longrightarrow>
     decided (hs_trace s) (rw_session_id (hs_work s w)) eid r)"

definition answers_hold :: "host_seam \<Rightarrow> bool" where
  "answers_hold s \<longleftrightarrow>
     (\<forall>f h. (f, h) \<in> set (hs_sent s) \<longrightarrow> sent_from (hs_trace s) f) \<and>
     (\<forall>w. work_ok s w) \<and>
     (\<forall>state c rs. (state, c, rs) \<in> set (hs_held s) \<longrightarrow>
        c < hs_fresh s \<and> responses_from (hs_trace s) (hc_session_id (hs_call s c)) rs) \<and>
     (\<forall>lane a. (lane, a) \<in> set (hs_running s) \<longrightarrow> activity_ok s a) \<and>
     (\<forall>c j. j \<in> set (hc_queue (hs_call s c)) \<longrightarrow> job_ok s j) \<and>
     (\<forall>j. j \<in> set (hs_jobs s) \<longrightarrow> job_ok s j) \<and>
     (\<forall>k c. (k, c) \<in> set (hs_calls s) \<longrightarrow> c < hs_fresh s)"

lemma answers_holdD:
  assumes "answers_hold s"
  shows "(f, h) \<in> set (hs_sent s) \<Longrightarrow> sent_from (hs_trace s) f" "work_ok s w"
    "(state, c, rs) \<in> set (hs_held s) \<Longrightarrow> c < hs_fresh s \<and> responses_from (hs_trace s) (hc_session_id (hs_call s c)) rs"
    "(lane, a) \<in> set (hs_running s) \<Longrightarrow> activity_ok s a"
    "j \<in> set (hc_queue (hs_call s d)) \<Longrightarrow> job_ok s j" "j' \<in> set (hs_jobs s) \<Longrightarrow> job_ok s j'"
    "(k, b) \<in> set (hs_calls s) \<Longrightarrow> b < hs_fresh s"
  using assms unfolding answers_hold_def by blast+

lemma answers_holdI:
  assumes "\<And>f h. (f, h) \<in> set (hs_sent s) \<Longrightarrow> sent_from (hs_trace s) f" "\<And>w. work_ok s w"
    "\<And>state c rs. (state, c, rs) \<in> set (hs_held s) \<Longrightarrow>
       c < hs_fresh s \<and> responses_from (hs_trace s) (hc_session_id (hs_call s c)) rs"
    "\<And>lane a. (lane, a) \<in> set (hs_running s) \<Longrightarrow> activity_ok s a"
    "\<And>c j. j \<in> set (hc_queue (hs_call s c)) \<Longrightarrow> job_ok s j" "\<And>j. j \<in> set (hs_jobs s) \<Longrightarrow> job_ok s j"
    "\<And>k c. (k, c) \<in> set (hs_calls s) \<Longrightarrow> c < hs_fresh s"
  shows "answers_hold s"
  using assms unfolding answers_hold_def by blast

section \<open>The operations keep it\<close>

named_theorems hin \<open>an operation keeps the invariant of answers\<close>

lemma decided_mono: "decided tr sid eid r \<Longrightarrow> set tr \<subseteq> set tr' \<Longrightarrow> decided tr' sid eid r"
  unfolding decided_def by blast

lemma responses_from_mono: "responses_from tr sid rs \<Longrightarrow> set tr \<subseteq> set tr' \<Longrightarrow> responses_from tr' sid rs"
  unfolding responses_from_def using decided_mono by blast

lemma sent_from_mono: "sent_from tr f \<Longrightarrow> set tr \<subseteq> set tr' \<Longrightarrow> sent_from tr' f"
  using responses_from_mono unfolding sent_from_def answer_meta_from_def
  by (cases f) (simp_all, blast+)

text \<open>A step: the trace and the heap grow, and what is stored anew is itself as the invariant says.\<close>

lemma job_ok_mono: "job_ok s j \<Longrightarrow> set (hs_trace s) \<subseteq> set (hs_trace s') \<Longrightarrow> hs_fresh s \<le> hs_fresh s' \<Longrightarrow> job_ok s' j"
  by (cases j) (auto simp: job_ok_def)

lemma answers_hold_step:
  assumes "answers_hold s" and tr: "set (hs_trace s) \<subseteq> set (hs_trace s')" and fresh: "hs_fresh s \<le> hs_fresh s'"
    and sid: "\<And>c. c < hs_fresh s \<Longrightarrow> hc_session_id (hs_call s' c) = hc_session_id (hs_call s c)"
    and wid: "\<And>w. w < hs_fresh s \<Longrightarrow> rw_session_id (hs_work s' w) = rw_session_id (hs_work s w)"
    and work: "\<And>w. hs_work s' w = hs_work s w \<or> work_ok s' w"
    and sent: "\<And>f h. (f, h) \<in> set (hs_sent s') \<Longrightarrow> (f, h) \<in> set (hs_sent s) \<or> sent_from (hs_trace s') f"
    and held: "\<And>state c rs. (state, c, rs) \<in> set (hs_held s') \<Longrightarrow> (state, c, rs) \<in> set (hs_held s) \<or>
       c < hs_fresh s' \<and> responses_from (hs_trace s') (hc_session_id (hs_call s' c)) rs"
    and running: "\<And>lane a. (lane, a) \<in> set (hs_running s') \<Longrightarrow> (lane, a) \<in> set (hs_running s) \<or> activity_ok s' a"
    and queue: "\<And>c j. j \<in> set (hc_queue (hs_call s' c)) \<Longrightarrow> j \<in> set (hc_queue (hs_call s c)) \<or> job_ok s' j"
    and jobs: "\<And>j. j \<in> set (hs_jobs s') \<Longrightarrow> j \<in> set (hs_jobs s) \<or> job_ok s' j"
    and calls: "\<And>k c. (k, c) \<in> set (hs_calls s') \<Longrightarrow> (k, c) \<in> set (hs_calls s) \<or> c < hs_fresh s'"
  shows "answers_hold s'"
proof (rule answers_holdI)
  note D = answers_holdD [OF assms(1)]
  show "sent_from (hs_trace s') f" if "(f, h) \<in> set (hs_sent s')" for f h
    using sent [OF that] D(1) sent_from_mono [OF _ tr] by blast
  show "work_ok s' w" for w
  proof (cases "hs_work s' w = hs_work s w")
    case True
    then show ?thesis using D(2) [of w] decided_mono [OF _ tr] by (simp add: work_ok_def)
  next
    case False
    then show ?thesis using work [of w] by blast
  qed
  show "c < hs_fresh s' \<and> responses_from (hs_trace s') (hc_session_id (hs_call s' c)) rs"
    if h: "(state, c, rs) \<in> set (hs_held s')" for state c rs
    using held [OF h]
  proof
    assume "(state, c, rs) \<in> set (hs_held s)"
    from D(3) [OF this] show ?thesis using fresh sid [of c] responses_from_mono [OF _ tr] by simp
  qed
  show "activity_ok s' a" if r: "(lane, a) \<in> set (hs_running s')" for lane a
    using running [OF r]
  proof
    assume "(lane, a) \<in> set (hs_running s)"
    from D(4) [OF this] show ?thesis
      using fresh sid wid tr by (cases a) (auto simp: activity_ok_def)
  qed
  show "job_ok s' j" if "j \<in> set (hc_queue (hs_call s' c))" for c j
    using queue [OF that] D(5) job_ok_mono [OF _ tr fresh] by blast
  show "job_ok s' j" if "j \<in> set (hs_jobs s')" for j
    using jobs [OF that] D(6) job_ok_mono [OF _ tr fresh] by blast
  show "c < hs_fresh s'" if "(k, c) \<in> set (hs_calls s')" for k c
    using calls [OF that] D(7) [of k c] fresh by linarith
qed

lemma hin_fields [hin]:
  "answers_hold s \<Longrightarrow> answers_hold (s\<lparr>hs_concluding := a\<rparr>)"
  "answers_hold s \<Longrightarrow> answers_hold (s\<lparr>hs_handshake_id := b\<rparr>)"
  "answers_hold s \<Longrightarrow> answers_hold (s\<lparr>hs_handshake_id := b, hs_handshake_read := d\<rparr>)"
  "answers_hold s \<Longrightarrow> answers_hold (s\<lparr>hs_owed := e\<rparr>)"
  "answers_hold s \<Longrightarrow> answers_hold (s\<lparr>hs_late := f\<rparr>)"
  "answers_hold s \<Longrightarrow> answers_hold (s\<lparr>hs_open := g\<rparr>)"
  "answers_hold s \<Longrightarrow> answers_hold (s\<lparr>hs_up := h\<rparr>)"
  "answers_hold s \<Longrightarrow> answers_hold (s\<lparr>hs_next_id := n\<rparr>)"
  "answers_hold s \<Longrightarrow> set hl \<subseteq> set (hs_held s) \<Longrightarrow> answers_hold (s\<lparr>hs_held := hl\<rparr>)"
  "answers_hold s \<Longrightarrow> set js \<subseteq> set (hs_jobs s) \<Longrightarrow> answers_hold (s\<lparr>hs_jobs := js\<rparr>)"
  "answers_hold s \<Longrightarrow> set cs \<subseteq> set (hs_calls s) \<Longrightarrow> set hl \<subseteq> set (hs_held s) \<Longrightarrow>
     answers_hold (s\<lparr>hs_calls := cs, hs_held := hl, hs_concluding := a\<rparr>)"
  by (erule answers_hold_step; auto)+

lemma hin_traced [hin]: "answers_hold s \<Longrightarrow> answers_hold (traced x s)"
  unfolding traced_def by (erule answers_hold_step; auto)

lemma hin_upd_hcall [hin]:
  assumes "answers_hold s" "\<And>h. hc_session_id (f h) = hc_session_id h"
    "set (hc_queue (f (hs_call s c))) \<subseteq> set (hc_queue (hs_call s c))"
  shows "answers_hold (upd_hcall c f s)"
  using assms(1) unfolding upd_hcall_def
  by (rule answers_hold_step) (use assms(2,3) in \<open>auto split: if_splits\<close>)

lemma hin_send [hin]: "answers_hold s \<Longrightarrow> sent_from (hs_trace s) f \<Longrightarrow> answers_hold (snd (host_send f h s))"
proof (cases "hs_open s")
  case True
  assume "answers_hold s" "sent_from (hs_trace s) f"
  then have "answers_hold (s\<lparr>hs_sent := hs_sent s @ [(f, h)]\<rparr>)" by (erule_tac answers_hold_step; auto)
  with True show ?thesis by (simp add: host_send_def)
qed (simp add: host_send_def)

lemma hin_deliver_up [hin]: "answers_hold s \<Longrightarrow> answers_hold (deliver_up f s)"
  by (simp add: deliver_up_def hin_fields)

lemma hin_owe [hin]: "answers_hold s \<Longrightarrow> answers_hold (owe sid n s)" "answers_hold s \<Longrightarrow> answers_hold (settle_owed sid s)"
  by (auto simp: owe_def settle_owed_def Let_def intro!: hin)

lemma job_ok_same [simp]:
  "job_ok (s\<lparr>hs_jobs := js\<rparr>) j = job_ok s j" "job_ok (upd_hcall c f s) j = job_ok s j"
  "job_ok (s\<lparr>hs_running := rs\<rparr>) j = job_ok s j"
  by (simp_all add: job_ok_def upd_hcall_def split: job.split)

lemma activity_ok_same [simp]:
  "activity_ok (s\<lparr>hs_running := rs\<rparr>) a = activity_ok s a"
  by (simp add: activity_ok_def split: activity.split)

lemma hin_new_job:
  "answers_hold s \<Longrightarrow> job_ok s j \<Longrightarrow> answers_hold (s\<lparr>hs_jobs := hs_jobs s @ [j]\<rparr>)"
  "answers_hold s \<Longrightarrow> job_ok s j \<Longrightarrow> answers_hold (upd_hcall c (\<lambda>h. h\<lparr>hc_queue := hc_queue h @ [j]\<rparr>) s)"
proof -
  assume s: "answers_hold s" and j: "job_ok s j"
  show "answers_hold (s\<lparr>hs_jobs := hs_jobs s @ [j]\<rparr>)" using s by (rule answers_hold_step) (use j in auto)
  have "job_ok (upd_hcall c f s) j" for f using j by simp
  then show "answers_hold (upd_hcall c (\<lambda>h. h\<lparr>hc_queue := hc_queue h @ [j]\<rparr>) s)"
    by - (rule answers_hold_step [OF s], auto simp: upd_hcall_def split: if_splits)
qed

lemma hin_dispatch [hin]: "answers_hold s \<Longrightarrow> job_ok s j \<Longrightarrow> answers_hold (dispatch lane j s)"
  by (simp add: dispatch_def hin_new_job split: option.split)

lemma hin_begin [hin]: "answers_hold s \<Longrightarrow> activity_ok s a \<Longrightarrow> answers_hold (begin_activity lane a s)"
  unfolding begin_activity_def by (erule answers_hold_step; auto)

lemma hin_end [hin]: "answers_hold s \<Longrightarrow> answers_hold (end_activity lane a s)"
  unfolding end_activity_def by (erule answers_hold_step; use notin_set_remove1 in fastforce)

section \<open>Calls, rounds and frames\<close>

lemma queue_detach: "hc_queue (hs_call (detach c s) d) = hc_queue (hs_call s d)"
  by (simp add: detach_def Let_def upd_hcall_def)

lemma hin_detach [hin]: "answers_hold s \<Longrightarrow> answers_hold (detach c s)"
  using set_delete_subset [of "rid_key (hc_current_id (hs_call s c))" "hs_calls s"]
  by (auto simp: detach_def Let_def upd_hcall_def intro!: hin(11) [OF hin_upd_hcall [unfolded upd_hcall_def], simplified])

lemma job_ok_simps [simp]:
  "job_ok s (CloseJob c)" "job_ok s (Conclude c f)" "job_ok s (SealAll evs sid)"
  by (simp_all add: job_ok_def)

lemma activity_ok_simps [simp]: "activity_ok s (Sealing evs sid after)" "activity_ok s (Abandoning c m w)"
  by (simp_all add: activity_ok_def)

lemma hin_evict [hin]: "answers_hold s \<Longrightarrow> answers_hold (evict c s)"
  by (simp add: evict_def hin)

lemma hin_evict_held [hin]: "answers_hold s \<Longrightarrow> answers_hold (evict_held n s)"
  by (induction n arbitrary: s) (simp_all add: hin split: list.split prod.split)

text \<open>What an operation leaves of the parts the side conditions speak of.\<close>

lemma parts_dispatch [simp]:
  "hs_trace (dispatch lane j s) = hs_trace s" "hs_fresh (dispatch lane j s) = hs_fresh s"
  "hc_session_id (hs_call (dispatch lane j s) c) = hc_session_id (hs_call s c)"
  "hs_work (dispatch lane j s) = hs_work s" "hs_next_id (dispatch lane j s) = hs_next_id s"
  "hs_held (dispatch lane j s) = hs_held s" "hs_calls (dispatch lane j s) = hs_calls s"
  "hs_concluding (dispatch lane j s) = hs_concluding s" "hs_waited (dispatch lane j s) = hs_waited s"
  "hc_current_id (hs_call (dispatch lane j s) c) = hc_current_id (hs_call s c)"
  "hc_ended (hs_call (dispatch lane j s) c) = hc_ended (hs_call s c)"
  "hc_held (hs_call (dispatch lane j s) c) = hc_held (hs_call s c)"
  "hs_open (dispatch lane j s) = hs_open s" "hs_sent (dispatch lane j s) = hs_sent s"
  by (simp_all add: dispatch_def upd_hcall_def split: option.split)

lemma parts_detach [simp]:
  "hs_trace (detach c s) = hs_trace s" "hs_fresh (detach c s) = hs_fresh s"
  "hc_session_id (hs_call (detach c s) d) = hc_session_id (hs_call s d)"
  "hs_work (detach c s) = hs_work s" "hs_next_id (detach c s) = hs_next_id s"
  "hc_current_id (hs_call (detach c s) d) = hc_current_id (hs_call s d)"
  "hc_ended (hs_call (detach c s) d) = (d = c \<or> hc_ended (hs_call s d))"
  by (simp_all add: detach_def Let_def upd_hcall_def)

lemma parts_evict [simp]:
  "hs_trace (evict c s) = hs_trace s" "hs_fresh (evict c s) = hs_fresh s"
  "hc_session_id (hs_call (evict c s) d) = hc_session_id (hs_call s d)" "hs_work (evict c s) = hs_work s"
  "hs_next_id (evict c s) = hs_next_id s"
  by (simp_all add: evict_def)

lemma parts_small [simp]:
  "hs_trace (end_activity lane a s) = hs_trace s" "hs_fresh (end_activity lane a s) = hs_fresh s"
  "hs_call (end_activity lane a s) = hs_call s" "hs_work (end_activity lane a s) = hs_work s"
  "hs_trace (upd_hcall c f s) = hs_trace s" "hs_fresh (upd_hcall c f s) = hs_fresh s"
  "hs_work (upd_hcall c f s) = hs_work s" "hs_trace (traced x s) = hs_trace s @ [x]"
  "hs_fresh (traced x s) = hs_fresh s" "hs_call (traced x s) = hs_call s" "hs_work (traced x s) = hs_work s"
  "hs_trace (upd_work w g s) = hs_trace s" "hs_fresh (upd_work w g s) = hs_fresh s"
  "hs_call (upd_work w g s) = hs_call s" "hs_trace (owe sid n s) = hs_trace s" "hs_fresh (owe sid n s) = hs_fresh s"
  "hs_trace (deliver_up fr s) = hs_trace s" "hs_fresh (deliver_up fr s) = hs_fresh s"
  by (simp_all add: end_activity_def upd_hcall_def traced_def upd_work_def owe_def deliver_up_def)

lemma hin_new_work:
  assumes "answers_hold s" "new_work sid events decide s = (w, s')"
  shows "answers_hold s'"
  using assms(1) by (rule answers_hold_step) (use assms(2) in \<open>auto simp: new_work_def Let_def work_ok_def\<close>)

lemma parts_new_work:
  assumes "new_work sid events decide s = (w, s')"
  shows "w = hs_fresh s" "hs_fresh s' = Suc w" "rw_session_id (hs_work s' w) = sid" "hs_call s' = hs_call s"
    "rw_events (hs_work s' w) = events" "hs_trace s' = hs_trace s"
  using assms by (auto simp: new_work_def Let_def)

lemma hin_upd_work [hin]:
  assumes "answers_hold s" "\<And>x. rw_session_id (f x) = rw_session_id x"
    "\<And>eid r. (eid, r) \<in> set (rw_responses (f (hs_work s w))) \<Longrightarrow>
       (eid, r) \<in> set (rw_responses (hs_work s w)) \<or> decided (hs_trace s) (rw_session_id (hs_work s w)) eid r"
  shows "answers_hold (upd_work w f s)"
proof (rule answers_hold_step [OF assms(1)])
  have "work_ok (upd_work w f s) v" for v
  proof (cases "v = w")
    case True
    then show ?thesis
      using answers_holdD(2) [OF assms(1), of w] assms(2) assms(3) unfolding work_ok_def upd_work_def by simp blast
  next
    case False
    then show ?thesis using answers_holdD(2) [OF assms(1), of v] by (simp add: work_ok_def upd_work_def)
  qed
  then show "hs_work (upd_work w f s) v = hs_work s v \<or> work_ok (upd_work w f s) v" for v by blast
qed (auto simp: upd_work_def assms(2))

lemma hin_abandon_start [hin]: "answers_hold s \<Longrightarrow> answers_hold (abandon_start lane c events message s)"
  using hin_new_work [OF hin_detach] by (auto simp: abandon_start_def split: prod.split intro!: hin_begin)

lemma hin_follow_start [hin]:
  assumes "answers_hold s" "c < hs_fresh s"
  shows "answers_hold (follow_start lane c f s)"
proof (cases f)
  case (Response i result)
  let ?s1 = "upd_hcall c (\<lambda>h. h\<lparr>hc_rounds := Suc (hc_rounds h)\<rparr>) s"
  have s1: "answers_hold ?s1" using assms(1) by (auto intro!: hin)
  have "answers_hold (begin_activity lane (Following c result w) s2)"
    if w: "new_work (hc_session_id (hs_call ?s1 c)) events True ?s1 = (w, s2)" for events w s2
    using parts_new_work [OF w] assms(2) by (auto simp: activity_ok_def intro!: hin_begin hin_new_work [OF s1 w])
  then show ?thesis
    using assms(1) s1 by (auto simp: follow_start_def Response Let_def hin split: json.split prod.split)
qed (use assms in \<open>simp_all add: follow_start_def\<close>)

lemma hin_start_job [hin]: "answers_hold s \<Longrightarrow> job_ok s j \<Longrightarrow> answers_hold (start_job lane j s)"
  by (cases j) (auto simp: start_job_def job_ok_def activity_ok_def intro!: hin)

lemma hin_take_job [hin]: "answers_hold s \<Longrightarrow> answers_hold (take_job c s)"
proof (cases "hc_queue (hs_call s c)")
  case (Cons j js)
  assume s: "answers_hold s"
  then have "job_ok s j" using answers_holdD(5) [OF s, of j c] Cons by simp
  moreover have "answers_hold (upd_hcall c (\<lambda>h. h\<lparr>hc_queue := js\<rparr>) s)" using s Cons by (auto intro!: hin)
  ultimately show ?thesis by (simp add: take_job_def Cons hin)
qed (simp add: take_job_def)

lemma hin_take_own_job [hin]: "answers_hold s \<Longrightarrow> j \<in> set (hs_jobs s) \<Longrightarrow> answers_hold (take_own_job j s)"
  using answers_holdD(6) [of s j] set_remove1_subset [of j "hs_jobs s"]
  by (simp add: take_own_job_def hin del: set_remove1_eq)

lemma hin_decide:
  assumes "answers_hold s" "(lane, Deciding i event sid) \<in> set (hs_running s)"
  shows "answers_hold (decide_answer lane i event sid r s)" "answers_hold (decide_late lane i event sid s)"
proof -
  have "AttemptReceived i event sid \<in> set (hs_trace s)"
    using answers_holdD(4) [OF assms] by (simp add: activity_ok_def)
  then have "sent_from (hs_trace s @ [Decided event sid r]) (Response i (response_to_wire (handed r)))"
      "sent_from (hs_trace s) (Response i (response_to_wire Unavailable))"
    unfolding sent_from_def handed_def by (cases r; force)+
  then show "answers_hold (decide_answer lane i event sid r s)" "answers_hold (decide_late lane i event sid s)"
    using assms(1) by (auto simp: decide_answer_def decide_late_def Let_def intro!: hin)
qed

lemma hin_seal_outcome [hin]: "answers_hold s \<Longrightarrow> answers_hold (seam_seal_outcome event sid s)"
  by (simp add: seam_seal_outcome_def hin)

lemma hin_close_call [hin]: "answers_hold s \<Longrightarrow> answers_hold (close_call c s)"
  by (auto simp: close_call_def Let_def intro!: hin)

lemma hin_seal_next [hin]: "answers_hold s \<Longrightarrow> answers_hold (seal_item lane events sid after s)"
  by (auto simp: seal_item_def Let_def split: list.split option.split intro!: hin)

lemma hin_work_take [hin]: "answers_hold s \<Longrightarrow> answers_hold (work_take w s)"
  by (auto simp: work_take_def Let_def intro!: hin)

lemma hin_work_finish [hin]:
  assumes "answers_hold s"
  shows "answers_hold (work_finish w r s)"
proof -
  let ?s1 = "\<lambda>event. traced (Decided (object_of event) (rw_session_id (hs_work s w)) r) (upd_work w (\<lambda>x. x\<lparr>rw_busy := None\<rparr>) s)"
  have s1: "answers_hold (?s1 event)" for event using assms by (auto intro!: hin)
  have "answers_hold (upd_work w (\<lambda>x. x\<lparr>rw_responses := AList.update eid (handed r) (rw_responses x)\<rparr>) (?s1 event))"
    if "dget (object_of event) ID = JStr eid" for event eid
  proof (rule hin_upd_work [OF s1])
    fix e q
    assume q: "(e, q) \<in> set (rw_responses (hs_work (?s1 event) w\<lparr>rw_responses :=
        AList.update eid (handed r) (rw_responses (hs_work (?s1 event) w))\<rparr>))"
    have "decided (hs_trace (?s1 event)) (rw_session_id (hs_work s w)) eid (handed r)"
      using that by (cases r) (auto simp: decided_def handed_def)
    moreover have "rw_session_id (hs_work (?s1 event) w) = rw_session_id (hs_work s w)" by (simp add: upd_work_def)
    ultimately show "(e, q) \<in> set (rw_responses (hs_work (?s1 event) w)) \<or>
        decided (hs_trace (?s1 event)) (rw_session_id (hs_work (?s1 event) w)) e q"
      using q set_update_subset by fastforce
  qed simp
  then show ?thesis
    using assms s1 by (auto simp: work_finish_def Let_def split: option.split json.split intro!: hin)
qed

lemma responses_from_update:
  "responses_from tr sid acc \<Longrightarrow> decided tr sid eid r \<Longrightarrow>
     responses_from tr sid (AList.update eid (JDict (response_to_wire r)) acc)"
  using set_update_subset [of eid "JDict (response_to_wire r)" acc] unfolding responses_from_def by blast

lemma round_responses_from:
  assumes "\<And>eid r. (eid, r) \<in> set ds \<Longrightarrow> decided tr sid eid r"
  shows "responses_from tr sid (round_responses events ds)"
proof -
  have given: "decided tr sid eid (case map_of ds eid of Some r \<Rightarrow> r | None \<Rightarrow> Unavailable)" for eid
    using assms map_of_SomeD [of ds eid] by (auto simp: decided_def split: option.split)
  have "responses_from tr sid acc \<Longrightarrow> responses_from tr sid (fold (\<lambda>event acc.
       if is_attempt event then
         (case dget (object_of event) ID of
            JStr eid \<Rightarrow> AList.update eid (JDict (response_to_wire
              (case map_of ds eid of Some r \<Rightarrow> r | None \<Rightarrow> Unavailable))) acc
          | _ \<Rightarrow> acc)
       else acc) events acc)" for acc
  proof (induction events arbitrary: acc)
    case (Cons e es)
    then show ?case using given by (simp add: responses_from_update split: json.split)
  qed simp
  moreover have "responses_from tr sid []" by (simp add: responses_from_def)
  ultimately show ?thesis unfolding round_responses_def by blast
qed

lemma hin_hold:
  assumes "answers_hold s" "c < hs_fresh s" "responses_from (hs_trace s) (hc_session_id (hs_call s c)) rs"
  shows "answers_hold (hold c state rs s)"
proof -
  let ?s1 = "s\<lparr>hs_held := AList.delete state (hs_held s)\<rparr>"
  define s2 where "s2 = (case map_of (hs_held s) state of
      Some (c', _) \<Rightarrow> if c' \<noteq> c then evict c' ?s1 else ?s1 | None \<Rightarrow> ?s1)"
  have s1: "answers_hold ?s1" using assms(1) set_delete_subset by (intro hin)
  have inv: "answers_hold s2" using s1 by (auto simp: s2_def hin split: option.split)
  have parts: "hs_fresh s2 = hs_fresh s" "hs_trace s2 = hs_trace s" "hc_session_id (hs_call s2 d) = hc_session_id (hs_call s d)" for d
    by (auto simp: s2_def split: option.split)
  have "answers_hold (s2\<lparr>hs_held := AList.update state (c, rs) (hs_held s2)\<rparr>)"
    using inv by (rule answers_hold_step) (use set_update_subset [of state "(c, rs)" "hs_held s2"] assms(2,3) parts in auto)
  then have "answers_hold (upd_hcall c (\<lambda>h. h\<lparr>hc_held := insert state (hc_held h)\<rparr>)
      (s2\<lparr>hs_held := AList.update state (c, rs) (hs_held s2)\<rparr>))" by (rule hin_upd_hcall) auto
  then show ?thesis unfolding hold_def Let_def s2_def by (rule hin_evict_held)
qed

lemma answer_meta_set:
  "dget (meta_of (JDict (set_audit_meta v d))) EXTENSION_ID = JDict v"
  by (simp add: set_audit_meta_def meta_of_def)

text \<open>The frame of a retry, the state it leaves from, and \<open>send_retry\<close> over them.\<close>

definition retry_state :: "nat \<Rightarrow> host_seam \<Rightarrow> host_seam" where
  "retry_state c s =
     (let n = Suc (hs_next_id s); i = RidStr (ID_PREFIX @ decimal n)
      in upd_hcall c (\<lambda>h. h\<lparr>hc_current_id := i\<rparr>)
           (s\<lparr>hs_next_id := n,
              hs_calls := AList.update (rid_key i) c (AList.delete (rid_key (hc_current_id (hs_call s c))) (hs_calls s))\<rparr>))"

definition retry_frame :: "nat \<Rightarrow> json \<Rightarrow> jobj \<Rightarrow> host_seam \<Rightarrow> rpc_frame" where
  "retry_frame c state rs s =
     Request (RidStr (ID_PREFIX @ decimal (Suc (hs_next_id s)))) TOOLS_CALL_METHOD
       (Some (set_audit_meta (answers_meta (hc_session_id (hs_call s c)) rs)
         (AList.update REQUEST_STATE state (hc_params (hs_call s c)))))"

lemma send_retry_eq:
  "\<exists>h e. send_retry c state rs s =
     (if hs_open s then (retry_state c s)\<lparr>hs_sent := hs_sent s @ [(retry_frame c state rs s, h)]\<rparr>
      else deliver_up e (evict c (retry_state c s)))"
  by (auto simp: send_retry_def retry_state_def retry_frame_def Let_def host_send_def upd_hcall_def)

lemma hin_retry_state:
  assumes "answers_hold s" "c < hs_fresh s"
  shows "answers_hold (retry_state c s)"
proof -
  let ?n = "Suc (hs_next_id s)"
  let ?i = "RidStr (ID_PREFIX @ decimal ?n)"
  let ?del = "AList.delete (rid_key (hc_current_id (hs_call s c))) (hs_calls s)"
  have sub: "(k, d) \<in> set (hs_calls s)" if "(k, d) \<in> set ?del" for k d
    using that set_delete_subset by fastforce
  have "answers_hold (s\<lparr>hs_next_id := ?n, hs_calls := AList.update (rid_key ?i) c ?del\<rparr>)"
    using assms(1) by (rule answers_hold_step) (use assms(2) sub set_update_subset [of "rid_key ?i" c ?del] in auto)
  then show ?thesis unfolding retry_state_def Let_def by (rule hin_upd_hcall) auto
qed

lemma parts_retry_state [simp]:
  "hs_trace (retry_state c s) = hs_trace s" "hs_sent (retry_state c s) = hs_sent s" "hs_fresh (retry_state c s) = hs_fresh s"
  by (simp_all add: retry_state_def Let_def upd_hcall_def)

lemma hin_send_retry:
  assumes "answers_hold s" "c < hs_fresh s" "responses_from (hs_trace s) (hc_session_id (hs_call s c)) rs"
  shows "answers_hold (send_retry c state rs s)"
proof -
  have "sent_from (hs_trace s) (retry_frame c state rs s)"
    using assms(3) by (auto simp: retry_frame_def sent_from_def answer_meta_from_def answer_meta_set params_of_def)
  then have "answers_hold ((retry_state c s)\<lparr>hs_sent := hs_sent s @ [(retry_frame c state rs s, h)]\<rparr>)" for h
    using hin_retry_state [OF assms(1,2)] by - (erule answers_hold_step; auto)
  moreover obtain h e where "send_retry c state rs s =
     (if hs_open s then (retry_state c s)\<lparr>hs_sent := hs_sent s @ [(retry_frame c state rs s, h)]\<rparr>
      else deliver_up e (evict c (retry_state c s)))"
    using send_retry_eq by blast
  ultimately show ?thesis
    using hin_retry_state [OF assms(1,2)] by (simp add: hin)
qed

lemma parts_seal_leftover [simp]:
  "hs_trace (seal_leftover c l s) = hs_trace s" "hs_fresh (seal_leftover c l s) = hs_fresh s"
  "hc_session_id (hs_call (seal_leftover c l s) d) = hc_session_id (hs_call s d)"
  by (simp_all add: seal_leftover_def)

lemma hin_seal_leftover [hin]: "answers_hold s \<Longrightarrow> answers_hold (seal_leftover c l s)"
  by (simp add: seal_leftover_def hin)

lemma hin_follow_end:
  assumes "answers_hold s" "(lane, Following c result w) \<in> set (hs_running s)"
  shows "answers_hold (follow_end lane c result w s)"
proof -
  let ?x = "hs_work s w" and ?rs = "round_responses (rw_events (hs_work s w)) (rw_responses (hs_work s w))"
  let ?s1 = "upd_work w (\<lambda>x. x\<lparr>rw_cutoff := True\<rparr>) (end_activity lane (Following c result w) s)"
  let ?s2 = "seal_leftover c (leftover_outcomes ?x) ?s1"
  have act: "c < hs_fresh s" "rw_session_id ?x = hc_session_id (hs_call s c)"
    using answers_holdD(4) [OF assms] by (simp_all add: activity_ok_def)
  have "responses_from (hs_trace s) (hc_session_id (hs_call s c)) ?rs"
    using answers_holdD(2) [OF assms(1), of w] act(2) by (intro round_responses_from) (auto simp: work_ok_def)
  moreover have "answers_hold ?s1" using assms(1) by (auto intro!: hin)
  then have "answers_hold ?s2" by (rule hin)
  ultimately have "answers_hold (hold c state ?rs ?s2)" "answers_hold (send_retry c st ?rs ?s2)" for state st
    using act(1) by (auto intro!: hin_hold hin_send_retry)
  with \<open>answers_hold ?s1\<close> show ?thesis unfolding follow_end_def Let_def by (auto intro!: hin)
qed

lemma hin_abandon_end [hin]: "answers_hold s \<Longrightarrow> answers_hold (abandon_end lane c message w s)"
  unfolding abandon_end_def Let_def by (auto intro!: hin)

section \<open>Frames\<close>

lemma dget_set_default: "k' \<noteq> k \<Longrightarrow> dget (set_default k v d) k' = dget d k'"
  by (simp add: set_default_def dget_def map_add_def split: option.split)

lemma declare_capabilities_meta: "dget (declare_capabilities c d) META = dget d META"
  by (simp add: declare_capabilities_def Let_def dget_set_default split: json.split)

lemma audit_meta_declared:
  assumes "mcp_capabilities_key (hf_mcp hf) \<noteq> EXTENSION_ID"
  shows "dget (meta_of (JDict (declare_request hf meth d))) EXTENSION_ID = dget (meta_of (JDict d)) EXTENSION_ID"
proof (cases "meth = INITIALIZE_METHOD")
  case True
  then show ?thesis by (simp add: declare_request_def meta_of_def declare_capabilities_meta)
next
  case False
  then show ?thesis
    using assms
    by (cases "dget d META"; cases "dget (object_of (dget d META)) (mcp_capabilities_key (hf_mcp hf))")
      (simp_all add: declare_request_def meta_of_def)
qed

lemma hin_host_call_out:
  assumes "answers_hold s" "dget (meta_of (JDict d)) EXTENSION_ID = JNull" "host_call_out sid i d s = (d', s')"
  shows "answers_hold s' \<and> answer_meta_from (hs_trace s') d'"
proof -
  have same: "answer_meta_from (hs_trace s) d" using assms(2) by (simp add: answer_meta_from_def)
  have opened: "answers_hold (snd (open_host_call sid i d s)) \<and>
      answer_meta_from (hs_trace (snd (open_host_call sid i d s))) (fst (open_host_call sid i d s))"
  proof
    let ?c = "hs_fresh s"
    show "answer_meta_from (hs_trace (snd (open_host_call sid i d s))) (fst (open_host_call sid i d s))"
      by (simp add: open_host_call_def Let_def answer_meta_from_def answer_meta_set)
    let ?call = "\<lparr>hc_original_id = i, hc_params = set_audit_meta [(SESSION_ID, JStr sid)] d, hc_session_id = sid,
        hc_current_id = i, hc_client_id = i, hc_rounds = 0, hc_held = {}, hc_ended = False, hc_headers = None,
        hc_queue = [], hc_lane_open = True\<rparr>"
    have calls: "(k, c) \<in> set (hs_calls s) \<or> c < Suc ?c" if "(k, c) \<in> set (AList.update (rid_key i) ?c (hs_calls s))" for k c
      using that set_update_subset [of "rid_key i" ?c "hs_calls s"] by auto
    have "answers_hold (s\<lparr>hs_call := (hs_call s)(?c := ?call), hs_fresh := Suc ?c,
        hs_calls := AList.update (rid_key i) ?c (hs_calls s)\<rparr>)"
      using assms(1) by (rule answers_hold_step) (use calls in \<open>simp_all split: if_splits\<close>)
    then show "answers_hold (snd (open_host_call sid i d s))"
      unfolding open_host_call_def Let_def snd_conv by (rule hin_traced)
  qed
  have retried: "answers_hold (snd (retry_host_call state c rs i d s)) \<and>
      answer_meta_from (hs_trace (snd (retry_host_call state c rs i d s))) (fst (retry_host_call state c rs i d s))"
    if "map_of (hs_held s) state = Some (c, rs)" for state c rs
  proof
    have held: "c < hs_fresh s" "responses_from (hs_trace s) (hc_session_id (hs_call s c)) rs"
      using answers_holdD(3) [OF assms(1) map_of_SomeD [OF that]] by simp_all
    then show "answer_meta_from (hs_trace (snd (retry_host_call state c rs i d s))) (fst (retry_host_call state c rs i d s))"
      by (auto simp: retry_host_call_def Let_def answer_meta_from_def answer_meta_set)
    let ?del = "AList.delete (rid_key (hc_current_id (hs_call s c))) (hs_calls s)"
    have "answers_hold (s\<lparr>hs_held := AList.delete state (hs_held s), hs_calls := AList.update (rid_key i) c ?del\<rparr>)"
      using assms(1)
      by (rule answers_hold_step)
        (use held(1) set_update_subset [of "rid_key i" c ?del] set_delete_subset [of "rid_key (hc_current_id (hs_call s c))" "hs_calls s"]
          set_delete_subset [of state "hs_held s"] in auto)
    then show "answers_hold (snd (retry_host_call state c rs i d s))"
      unfolding retry_host_call_def Let_def snd_conv by (rule hin_upd_hcall) auto
  qed
  show ?thesis
    using assms(1,3) same opened retried
    by (auto simp: host_call_out_def split: if_splits json.splits option.splits) (metis fst_conv snd_conv)+
qed

lemma hin_host_cancel: "answers_hold s \<Longrightarrow> answers_hold (snd (host_cancel params s))"
  by (auto simp: host_cancel_def Let_def split: option.split intro!: hin)

lemma trace_host_cancel: "fst (host_cancel params s) = f \<Longrightarrow> sent_from tr f"
  by (auto simp: host_cancel_def Let_def sent_from_def split: option.split)

lemma hin_host_outbound:
  assumes "answers_hold s" "client_frame f" "mcp_capabilities_key (hf_mcp hf) \<noteq> EXTENSION_ID"
    and "host_outbound hf sid f s = (g, s')"
  shows "answers_hold s' \<and> sent_from (hs_trace s') g"
proof (cases f)
  case (Request i meth params)
  let ?s1 = "if meth \<in> set HANDSHAKE_METHODS \<and> \<not> hs_handshake_read s then s\<lparr>hs_handshake_id := Some (rid_key i)\<rparr> else s"
  have s1: "answers_hold ?s1" using assms(1) by (simp add: hin)
  show ?thesis
  proof (cases params)
    case None
    then show ?thesis
      using s1 assms(4) Request by (auto simp: host_outbound_def Let_def sent_from_def answer_meta_from_def params_of_def meta_of_def)
  next
    case (Some d)
    have meta: "dget (meta_of (JDict (declare_request hf meth d))) EXTENSION_ID = JNull"
      using assms(2) Some Request audit_meta_declared [OF assms(3)] by (simp add: client_frame_def params_of_def)
    show ?thesis
    proof (cases "meth = TOOLS_CALL_METHOD")
      case False
      then show ?thesis
        using s1 assms(4) Request Some meta
        by (auto simp: host_outbound_def Let_def sent_from_def answer_meta_from_def params_of_def)
    next
      case True
      obtain d2 s2 where out: "host_call_out sid i (declare_request hf meth d) ?s1 = (d2, s2)" by fastforce
      have "g = Request i meth (Some d2)" "s' = s2"
        using assms(4) Request Some True out by (simp_all add: host_outbound_def Let_def)
      then show ?thesis
        using hin_host_call_out [OF s1 meta out] by (simp add: sent_from_def params_of_def)
    qed
  qed
next
  case (Notification meth params)
  then show ?thesis
    using assms(1,4) hin_host_cancel [of s params] trace_host_cancel [of params s]
    by (auto simp: host_outbound_def sent_from_def split: if_splits)
next
  case (Response i result)
  then show ?thesis using assms by (auto simp: host_outbound_def sent_from_def client_frame_def)
next
  case (Error i e)
  then show ?thesis using assms by (auto simp: host_outbound_def sent_from_def)
qed

lemma hin_outbound_headers:
  assumes "answers_hold s" "outbound_headers f own s = (hs, s')"
  shows "answers_hold s' \<and> hs_trace s' = hs_trace s"
  using assms by (auto simp: outbound_headers_def split: rpc_frame.splits if_splits option.splits intro!: hin)

lemma hin_pump_outbound:
  assumes "answers_hold s" "client_frame f" "mcp_capabilities_key (hf_mcp hf) \<noteq> EXTENSION_ID"
  shows "answers_hold (host_pump_outbound hf sid f own s)"
proof -
  obtain g s1 where out: "host_outbound hf sid f s = (g, s1)" by fastforce
  obtain hs s2 where h: "outbound_headers g own s1 = (hs, s2)" by fastforce
  note o = hin_host_outbound [OF assms out]
  have "answers_hold s2 \<and> hs_trace s2 = hs_trace s1" using hin_outbound_headers [OF _ h] o by blast
  then show ?thesis using o by (simp add: host_pump_outbound_def out h hin_send)
qed

lemma hin_host_answer:
  assumes "answers_hold s" "c < hs_fresh s"
  shows "answers_hold (snd (host_answer c f s))"
proof -
  define s1 where "s1 = (case f of Response i result \<Rightarrow> owe (hc_session_id (hs_call s c))
      (length (filter (\<lambda>e. \<not> is_attempt e) (events_of result))) s | _ \<Rightarrow> s)"
  have "answers_hold s1" "hs_fresh s1 = hs_fresh s" using assms(1) by (auto simp: s1_def hin split: rpc_frame.split)
  then have "answers_hold (dispatch (Some c) (Conclude c f) (detach c s1))" "answers_hold (dispatch (Some c) (Follow c f) s1)"
    using assms(2) by (auto simp: job_ok_def intro!: hin)
  then show ?thesis unfolding host_answer_def Let_def s1_def by (simp split: if_split)
qed

lemma hin_pump_inbound:
  assumes "answers_hold s"
  shows "answers_hold (host_pump_inbound related f s)"
proof -
  have call: "map_of (hs_calls s) k = Some c \<Longrightarrow> c < hs_fresh s" for k c
    using answers_holdD(7) [OF assms map_of_SomeD] by blast
  have "job_ok (traced (AttemptReceived i d sid) s) (AnswerAttempt i d sid)" for i d sid by (simp add: job_ok_def)
  then have "answers_hold (snd (host_inbound related f s))"
    using assms call
    by (cases f) (auto simp: host_inbound_def sent_from_def split: prod.split option.split
        intro!: hin hin_host_answer hin_send)
  then show ?thesis by (simp add: host_pump_inbound_def case_prod_beta hin split: option.split)
qed

lemma hin_close_begin [hin]: "answers_hold s \<Longrightarrow> answers_hold (host_close_begin s)"
  unfolding host_close_begin_def Let_def by (erule answers_hold_step) (auto split: if_splits)

lemma host_run_inv: "host_run hf s \<Longrightarrow> mcp_capabilities_key (hf_mcp hf) \<noteq> EXTENSION_ID \<Longrightarrow> answers_hold s"
proof (induction rule: host_run.induct)
  case start
  show ?case by (rule answers_holdI) (simp_all add: new_host_seam_def no_host_call_def no_work_def work_ok_def)
next
  case (outbound s f sid own)
  then show ?case using hin_pump_outbound by blast
next
  case (inbound s related f)
  then show ?case using hin_pump_inbound by blast
next
  case (decide s lane i event sid r)
  then show ?case using hin_decide(1) by blast
next
  case (late s lane i event sid)
  then show ?case using hin_decide(2) by blast
next
  case (follow s lane c result w)
  then show ?case using hin_follow_end by blast
qed (simp_all add: late_decision_def hin)

end
