(* ===== verification/McpHostSessions.thy ===== *)
theory McpHostSessions
  imports McpHostRun
begin

text \<open>
  No audit session of the host side is lost: a session it opened is closed, or its call is in flight under the id
  the tool answers on, or the call is concluding, or the end of the connection is about to close it.
\<close>

definition sessions_tracked :: "host_seam \<Rightarrow> bool" where
  "sessions_tracked s \<longleftrightarrow>
     (\<forall>k c. (k, c) \<in> set (hs_calls s) \<longrightarrow>
        k = rid_key (hc_current_id (hs_call s c)) \<and> \<not> hc_ended (hs_call s c) \<and> c < hs_fresh s) \<and>
     distinct (map fst (hs_calls s)) \<and>
     (\<forall>c. \<not> hc_ended (hs_call s c) \<longrightarrow> (rid_key (hc_current_id (hs_call s c)), c) \<in> set (hs_calls s)) \<and>
     (\<forall>state c rs. (state, c, rs) \<in> set (hs_held s) \<longrightarrow>
        \<not> hc_ended (hs_call s c) \<and> state \<in> hc_held (hs_call s c)) \<and>
     (\<forall>sid. SessionOpened sid \<in> set (hs_trace s) \<longrightarrow> SessionClosed sid \<in> set (hs_trace s) \<or>
        (\<exists>c < hs_fresh s. sid = hc_session_id (hs_call s c) \<and>
           c \<in> snd ` set (hs_calls s) \<union> set (hs_concluding s) \<union> set (hs_waited s))) \<and>
     (\<forall>n c. (StrKey (ID_PREFIX @ decimal n), c) \<in> set (hs_calls s) \<longrightarrow> n \<le> hs_next_id s)"

lemma trackedD:
  assumes "sessions_tracked s"
  shows "(k, c) \<in> set (hs_calls s) \<Longrightarrow>
      k = rid_key (hc_current_id (hs_call s c)) \<and> \<not> hc_ended (hs_call s c) \<and> c < hs_fresh s"
    "distinct (map fst (hs_calls s))"
    "\<not> hc_ended (hs_call s c) \<Longrightarrow> (rid_key (hc_current_id (hs_call s c)), c) \<in> set (hs_calls s)"
    "(state, c, rs) \<in> set (hs_held s) \<Longrightarrow> \<not> hc_ended (hs_call s c) \<and> state \<in> hc_held (hs_call s c)"
    "SessionOpened sid \<in> set (hs_trace s) \<Longrightarrow> SessionClosed sid \<in> set (hs_trace s) \<or>
        (\<exists>c < hs_fresh s. sid = hc_session_id (hs_call s c) \<and>
           c \<in> snd ` set (hs_calls s) \<union> set (hs_concluding s) \<union> set (hs_waited s))"
    "(StrKey (ID_PREFIX @ decimal n), c) \<in> set (hs_calls s) \<Longrightarrow> n \<le> hs_next_id s"
  using assms unfolding sessions_tracked_def by blast+

lemma trackedI:
  assumes "\<And>k c. (k, c) \<in> set (hs_calls s) \<Longrightarrow>
      k = rid_key (hc_current_id (hs_call s c)) \<and> \<not> hc_ended (hs_call s c) \<and> c < hs_fresh s"
    "distinct (map fst (hs_calls s))"
    "\<And>c. \<not> hc_ended (hs_call s c) \<Longrightarrow> (rid_key (hc_current_id (hs_call s c)), c) \<in> set (hs_calls s)"
    "\<And>state c rs. (state, c, rs) \<in> set (hs_held s) \<Longrightarrow> \<not> hc_ended (hs_call s c) \<and> state \<in> hc_held (hs_call s c)"
    "\<And>sid. SessionOpened sid \<in> set (hs_trace s) \<Longrightarrow> SessionClosed sid \<in> set (hs_trace s) \<or>
        (\<exists>c < hs_fresh s. sid = hc_session_id (hs_call s c) \<and>
           c \<in> snd ` set (hs_calls s) \<union> set (hs_concluding s) \<union> set (hs_waited s))"
    "\<And>n c. (StrKey (ID_PREFIX @ decimal n), c) \<in> set (hs_calls s) \<Longrightarrow> n \<le> hs_next_id s"
  shows "sessions_tracked s"
  using assms unfolding sessions_tracked_def by blast

section \<open>Steps that open, move and end no call\<close>

named_theorems trk \<open>an operation keeps every session tracked\<close>

lemma tracked_calm:
  assumes "sessions_tracked s" "hs_calls s' = hs_calls s" "set (hs_held s') \<subseteq> set (hs_held s)"
    "hs_next_id s \<le> hs_next_id s'" "hs_fresh s \<le> hs_fresh s'"
    "\<And>c. hc_current_id (hs_call s' c) = hc_current_id (hs_call s c)" "\<And>c. hc_ended (hs_call s' c) = hc_ended (hs_call s c)"
    "\<And>c. hc_held (hs_call s' c) = hc_held (hs_call s c)" "\<And>c. hc_session_id (hs_call s' c) = hc_session_id (hs_call s c)"
    "set (hs_trace s) \<subseteq> set (hs_trace s')" "\<And>sid. SessionOpened sid \<in> set (hs_trace s') \<Longrightarrow> SessionOpened sid \<in> set (hs_trace s)"
    "set (hs_waited s) \<subseteq> set (hs_waited s')"
    "\<And>c. c \<in> set (hs_concluding s) \<Longrightarrow> c \<in> set (hs_concluding s') \<or> SessionClosed (hc_session_id (hs_call s c)) \<in> set (hs_trace s')"
  shows "sessions_tracked s'"
proof (rule trackedI)
  note D = trackedD [OF assms(1)]
  show "(k, c) \<in> set (hs_calls s') \<Longrightarrow>
      k = rid_key (hc_current_id (hs_call s' c)) \<and> \<not> hc_ended (hs_call s' c) \<and> c < hs_fresh s'" for k c
    using D(1) [of k c] assms(2,5,6,7) by auto
  show "distinct (map fst (hs_calls s'))" using D(2) assms(2) by simp
  show "\<not> hc_ended (hs_call s' c) \<Longrightarrow> (rid_key (hc_current_id (hs_call s' c)), c) \<in> set (hs_calls s')" for c
    using D(3) assms(2,6,7) by simp
  show "(state, c, rs) \<in> set (hs_held s') \<Longrightarrow> \<not> hc_ended (hs_call s' c) \<and> state \<in> hc_held (hs_call s' c)" for state c rs
    using D(4) assms(3,7,8) by blast
  show "SessionClosed sid \<in> set (hs_trace s') \<or>
        (\<exists>c < hs_fresh s'. sid = hc_session_id (hs_call s' c) \<and>
           c \<in> snd ` set (hs_calls s') \<union> set (hs_concluding s') \<union> set (hs_waited s'))"
    if "SessionOpened sid \<in> set (hs_trace s')" for sid
    using D(5) [OF assms(11) [OF that]]
  proof (elim disjE exE conjE)
    assume "SessionClosed sid \<in> set (hs_trace s)"
    then show ?thesis using assms(10) by blast
  next
    fix c assume c: "c < hs_fresh s" "sid = hc_session_id (hs_call s c)"
      "c \<in> snd ` set (hs_calls s) \<union> set (hs_concluding s) \<union> set (hs_waited s)"
    then have "c < hs_fresh s'" "sid = hc_session_id (hs_call s' c)" using assms(5,9) by simp_all
    then show ?thesis using c(2,3) assms(2,12) assms(13) [of c] by auto
  qed
  show "(StrKey (ID_PREFIX @ decimal n), c) \<in> set (hs_calls s') \<Longrightarrow> n \<le> hs_next_id s'" for n c
    using D(6) [of n c] assms(2,4) by simp
qed

lemma trk_fields [trk]:
  "sessions_tracked s \<Longrightarrow> sessions_tracked (s\<lparr>hs_handshake_id := b\<rparr>)"
  "sessions_tracked s \<Longrightarrow> sessions_tracked (s\<lparr>hs_handshake_id := b, hs_handshake_read := d\<rparr>)"
  "sessions_tracked s \<Longrightarrow> sessions_tracked (s\<lparr>hs_owed := e\<rparr>)"
  "sessions_tracked s \<Longrightarrow> sessions_tracked (s\<lparr>hs_late := f\<rparr>)"
  "sessions_tracked s \<Longrightarrow> sessions_tracked (s\<lparr>hs_open := g\<rparr>)"
  "sessions_tracked s \<Longrightarrow> sessions_tracked (s\<lparr>hs_up := h\<rparr>)"
  "sessions_tracked s \<Longrightarrow> sessions_tracked (s\<lparr>hs_jobs := j\<rparr>)"
  "sessions_tracked s \<Longrightarrow> sessions_tracked (s\<lparr>hs_sent := k\<rparr>)"
  "sessions_tracked s \<Longrightarrow> sessions_tracked (s\<lparr>hs_running := l\<rparr>)"
  "sessions_tracked s \<Longrightarrow> sessions_tracked (s\<lparr>hs_work := m\<rparr>)"
  "sessions_tracked s \<Longrightarrow> sessions_tracked (s\<lparr>hs_fresh := Suc (hs_fresh s), hs_work := m\<rparr>)"
  "sessions_tracked s \<Longrightarrow> set n \<subseteq> set (hs_held s) \<Longrightarrow> sessions_tracked (s\<lparr>hs_held := n\<rparr>)"
  by (erule tracked_calm; auto)+

lemma trk_traced [trk]: "sessions_tracked s \<Longrightarrow> (\<And>sid. x \<noteq> SessionOpened sid) \<Longrightarrow> sessions_tracked (traced x s)"
  unfolding traced_def by (erule tracked_calm; auto)

lemma trk_upd_hcall [trk]:
  assumes "sessions_tracked s" "\<And>h. hc_session_id (f h) = hc_session_id h" "\<And>h. hc_current_id (f h) = hc_current_id h"
    "\<And>h. hc_ended (f h) = hc_ended h" "\<And>h. hc_held (f h) = hc_held h"
  shows "sessions_tracked (upd_hcall c f s)"
  using assms(1) unfolding upd_hcall_def by (rule tracked_calm) (simp_all add: assms(2-))

lemma trk_small [trk]:
  "sessions_tracked s \<Longrightarrow> sessions_tracked (snd (host_send fr h s))" "sessions_tracked s \<Longrightarrow> sessions_tracked (deliver_up fr s)"
  "sessions_tracked s \<Longrightarrow> sessions_tracked (owe sid n s)" "sessions_tracked s \<Longrightarrow> sessions_tracked (settle_owed sid s)"
  "sessions_tracked s \<Longrightarrow> sessions_tracked (begin_activity lane a s)" "sessions_tracked s \<Longrightarrow> sessions_tracked (end_activity lane a s)"
  "sessions_tracked s \<Longrightarrow> sessions_tracked (upd_work w g s)" "sessions_tracked s \<Longrightarrow> sessions_tracked (snd (new_work sid evs dec s))"
  by (simp_all add: host_send_def deliver_up_def owe_def settle_owed_def begin_activity_def end_activity_def
      upd_work_def new_work_def Let_def trk_fields)

lemma trk_dispatch [trk]: "sessions_tracked s \<Longrightarrow> sessions_tracked (dispatch lane j s)"
  by (auto simp: dispatch_def split: option.split intro!: trk)

lemma trk_seal_outcome [trk]: "sessions_tracked s \<Longrightarrow> sessions_tracked (seam_seal_outcome event sid s)"
  by (auto simp: seam_seal_outcome_def intro!: trk)

lemma trk_close_call [trk]:
  assumes "sessions_tracked s"
  shows "sessions_tracked (close_call c s)"
  using assms by (rule tracked_calm) (auto simp: close_call_def Let_def upd_hcall_def traced_def)

lemma trk_seal_next [trk]: "sessions_tracked s \<Longrightarrow> sessions_tracked (seal_item lane events sid after s)"
  by (auto simp: seal_item_def Let_def split: list.split option.split intro!: trk)

lemma trk_work_take [trk]: "sessions_tracked s \<Longrightarrow> sessions_tracked (work_take w s)"
  by (auto simp: work_take_def Let_def intro!: trk)

lemma trk_work_finish [trk]: "sessions_tracked s \<Longrightarrow> sessions_tracked (work_finish w r s)"
  by (auto simp: work_finish_def Let_def split: option.split json.split intro!: trk)

lemma trk_decide [trk]:
  "sessions_tracked s \<Longrightarrow> sessions_tracked (decide_answer lane i event sid r s)" "sessions_tracked s \<Longrightarrow> sessions_tracked (decide_late lane i event sid s)"
  "sessions_tracked s \<Longrightarrow> sessions_tracked (late_decision event sid r s)"
  by (auto simp: decide_answer_def decide_late_def late_decision_def Let_def intro!: trk)

lemma trk_seal_leftover [trk]: "sessions_tracked s \<Longrightarrow> sessions_tracked (seal_leftover c l s)"
  by (simp add: seal_leftover_def trk)

section \<open>The end of a call\<close>

lemma only_call:
  assumes "sessions_tracked s" "\<not> hc_ended (hs_call s c)" "(rid_key (hc_current_id (hs_call s c)), d) \<in> set (hs_calls s)"
  shows "d = c"
  using trackedD(2) [OF assms(1)] trackedD(3) [OF assms(1,2)] assms(3) by (meson eq_key_imp_eq_value)

lemma calls_delete: "(k, d) \<in> set (AList.delete k' xs) \<longleftrightarrow> (k, d) \<in> set xs \<and> k \<noteq> k'"
  by (auto simp: AList.delete_eq)

lemma trk_detach:
  assumes "sessions_tracked s" "\<not> hc_ended (hs_call s c)"
  shows "sessions_tracked (detach c s)"
proof (rule trackedI)
  note D = trackedD [OF assms(1)]
  let ?k = "rid_key (hc_current_id (hs_call s c))"
  have calls: "hs_calls (detach c s) = AList.delete ?k (hs_calls s)" by (simp add: detach_def Let_def)
  have cut: "(k, d) \<in> set (hs_calls (detach c s)) \<longleftrightarrow> (k, d) \<in> set (hs_calls s) \<and> d \<noteq> c" for k d
    using D(1) [of k d] only_call [OF assms, of d] unfolding calls calls_delete by auto
  show "(k, d) \<in> set (hs_calls (detach c s)) \<Longrightarrow> k = rid_key (hc_current_id (hs_call (detach c s) d)) \<and>
      \<not> hc_ended (hs_call (detach c s) d) \<and> d < hs_fresh (detach c s)" for k d
    using D(1) [of k d] cut by simp
  show "distinct (map fst (hs_calls (detach c s)))" using D(2) by (simp add: calls distinct_delete)
  show "\<not> hc_ended (hs_call (detach c s) d) \<Longrightarrow> (rid_key (hc_current_id (hs_call (detach c s) d)), d) \<in> set (hs_calls (detach c s))" for d
    using D(3) [of d] cut by simp
  show "(state, d, rs) \<in> set (hs_held (detach c s)) \<Longrightarrow>
      \<not> hc_ended (hs_call (detach c s) d) \<and> state \<in> hc_held (hs_call (detach c s) d)" for state d rs
    using D(4) [of state d rs] by (auto simp: detach_def Let_def upd_hcall_def)
  show "(StrKey (ID_PREFIX @ decimal n), d) \<in> set (hs_calls (detach c s)) \<Longrightarrow> n \<le> hs_next_id (detach c s)" for n d
    using D(6) [of n d] cut by simp
  show "SessionClosed sid \<in> set (hs_trace (detach c s)) \<or> (\<exists>d < hs_fresh (detach c s).
      sid = hc_session_id (hs_call (detach c s) d) \<and>
      d \<in> snd ` set (hs_calls (detach c s)) \<union> set (hs_concluding (detach c s)) \<union> set (hs_waited (detach c s)))"
    if o: "SessionOpened sid \<in> set (hs_trace (detach c s))" for sid
  proof -
    have rest: "hs_concluding (detach c s) = List.insert c (hs_concluding s)" "hs_waited (detach c s) = hs_waited s"
      by (simp_all add: detach_def Let_def upd_hcall_def)
    have "d \<in> snd ` set (hs_calls (detach c s)) \<union> {c}" if "d \<in> snd ` set (hs_calls s)" for d
      using that cut by (force simp: image_iff)
    then show ?thesis using D(5) [of sid] o unfolding rest by (auto simp: image_iff)
  qed
qed

lemma trk_evict: "sessions_tracked s \<Longrightarrow> \<not> hc_ended (hs_call s c) \<Longrightarrow> sessions_tracked (evict c s)"
  by (simp add: evict_def trk trk_detach)

lemma trk_evict_held [trk]: "sessions_tracked s \<Longrightarrow> sessions_tracked (evict_held n s)"
proof (induction n arbitrary: s)
  case (Suc n)
  have "sessions_tracked (evict c s)" if "hs_held s = (state, c, rs) # xs" for state c rs xs
    using trk_evict [OF Suc.prems] trackedD(4) [OF Suc.prems, of state c rs] that by simp
  then show ?case using Suc by (auto split: list.split)
qed simp

lemma held_evict: "hs_held (evict c s) = filter (\<lambda>(state, _). state \<notin> hc_held (hs_call s c)) (hs_held s)"
  by (simp add: evict_def) (simp add: detach_def Let_def)

lemma trk_hold:
  assumes "sessions_tracked s" "\<not> hc_ended (hs_call s c)"
  shows "sessions_tracked (hold c state rs s)"
proof -
  let ?s1 = "s\<lparr>hs_held := AList.delete state (hs_held s)\<rparr>"
  define s2 where "s2 = (case map_of (hs_held s) state of
      Some (c', _) \<Rightarrow> if c' \<noteq> c then evict c' ?s1 else ?s1 | None \<Rightarrow> ?s1)"
  have s1: "sessions_tracked ?s1" using assms(1) set_delete_subset by (rule trk_fields)
  have "sessions_tracked (evict c' ?s1)" if "map_of (hs_held s) state = Some (c', rs')" for c' rs'
    using trk_evict [OF s1] trackedD(4) [OF assms(1) map_of_SomeD [OF that]] by simp
  then have inv: "sessions_tracked s2" using s1 by (auto simp: s2_def split: option.split)
  have alive: "\<not> hc_ended (hs_call s2 c)" using assms(2) by (auto simp: s2_def evict_def split: option.split)
  let ?s3 = "upd_hcall c (\<lambda>h. h\<lparr>hc_held := insert state (hc_held h)\<rparr>)
      (s2\<lparr>hs_held := AList.update state (c, rs) (hs_held s2)\<rparr>)"
  have "sessions_tracked ?s3"
  proof (rule trackedI)
    note D = trackedD [OF inv]
    show "(k, d) \<in> set (hs_calls ?s3) \<Longrightarrow>
        k = rid_key (hc_current_id (hs_call ?s3 d)) \<and> \<not> hc_ended (hs_call ?s3 d) \<and> d < hs_fresh ?s3" for k d
      using D(1) [of k d] alive by (auto simp: upd_hcall_def)
    show "(st, d, x) \<in> set (hs_held ?s3) \<Longrightarrow> \<not> hc_ended (hs_call ?s3 d) \<and> st \<in> hc_held (hs_call ?s3 d)" for st d x
      using D(4) [of st d x] alive set_update_subset [of state "(c, rs)" "hs_held s2"] by (auto simp: upd_hcall_def)
    have same: "hc_session_id (hs_call ?s3 d) = hc_session_id (hs_call s2 d)" for d by (simp add: upd_hcall_def)
    show "SessionClosed sid \<in> set (hs_trace ?s3) \<or> (\<exists>d < hs_fresh ?s3. sid = hc_session_id (hs_call ?s3 d) \<and>
        d \<in> snd ` set (hs_calls ?s3) \<union> set (hs_concluding ?s3) \<union> set (hs_waited ?s3))"
      if "SessionOpened sid \<in> set (hs_trace ?s3)" for sid
      using D(5) [of sid] that unfolding same by (simp add: upd_hcall_def)
  qed (use trackedD(2,3,6) [OF inv] in \<open>auto simp: upd_hcall_def\<close>)
  then show ?thesis unfolding hold_def Let_def s2_def by (rule trk)
qed

section \<open>Calls that move to another id\<close>

lemma update_new: "map_of xs k = None \<Longrightarrow> AList.update k v xs = xs @ [(k, v)]"
  by (induction xs) (auto split: if_splits)

lemma trk_rekey:
  assumes "sessions_tracked s" "\<not> hc_ended (hs_call s c)" "map_of (hs_calls s) (rid_key i) = None" "hs_next_id s \<le> n"
    and "\<And>m. rid_key i = StrKey (ID_PREFIX @ decimal m) \<Longrightarrow> m \<le> n"
    and f: "\<And>h. hc_session_id (f h) = hc_session_id h" "\<And>h. hc_ended (f h) = hc_ended h" "\<And>h. hc_current_id (f h) = i"
    and held: "set hl \<subseteq> set (hs_held s)" "\<And>state rs. (state, c, rs) \<in> set hl \<Longrightarrow> state \<in> hc_held (f (hs_call s c))"
  shows "sessions_tracked (upd_hcall c f (s\<lparr>hs_next_id := n, hs_held := hl,
    hs_calls := AList.update (rid_key i) c (AList.delete (rid_key (hc_current_id (hs_call s c))) (hs_calls s))\<rparr>))"
    (is "sessions_tracked ?t")
proof (rule trackedI)
  note D = trackedD [OF assms(1)]
  let ?k = "rid_key (hc_current_id (hs_call s c))"
  have new: "map_of (AList.delete ?k (hs_calls s)) (rid_key i) = None"
    using assms(3) by (simp add: delete_conv' restrict_map_def)
  then have calls: "hs_calls ?t = AList.delete ?k (hs_calls s) @ [(rid_key i, c)]"
    by (simp add: upd_hcall_def update_new)
  have cut: "(k, d) \<in> set (hs_calls ?t) \<longleftrightarrow> (k, d) \<in> set (hs_calls s) \<and> d \<noteq> c \<or> k = rid_key i \<and> d = c" for k d
    using D(1) [of k d] only_call [OF assms(1,2), of d] unfolding calls by (auto simp: calls_delete)
  have parts: "hs_fresh ?t = hs_fresh s" "hs_trace ?t = hs_trace s" "hs_concluding ?t = hs_concluding s"
    "hs_waited ?t = hs_waited s" "hs_next_id ?t = n" "hs_held ?t = hl"
    "hc_session_id (hs_call ?t d) = hc_session_id (hs_call s d)" "hc_ended (hs_call ?t d) = hc_ended (hs_call s d)"
    "hc_current_id (hs_call ?t d) = (if d = c then i else hc_current_id (hs_call s d))"
    "hc_held (hs_call ?t d) = (if d = c then hc_held (f (hs_call s c)) else hc_held (hs_call s d))" for d
    by (simp_all add: upd_hcall_def f)
  have "c < hs_fresh s" using D(1) [OF D(3) [OF assms(2)]] by blast
  then show "(k, d) \<in> set (hs_calls ?t) \<Longrightarrow>
      k = rid_key (hc_current_id (hs_call ?t d)) \<and> \<not> hc_ended (hs_call ?t d) \<and> d < hs_fresh ?t" for k d
    unfolding parts cut using D(1) [of k d] assms(2) by auto
  have "rid_key i \<notin> fst ` set (AList.delete ?k (hs_calls s))" using new by (simp add: map_of_eq_None_iff)
  then show "distinct (map fst (hs_calls ?t))" using D(2) by (simp add: calls distinct_delete)
  show "\<not> hc_ended (hs_call ?t d) \<Longrightarrow> (rid_key (hc_current_id (hs_call ?t d)), d) \<in> set (hs_calls ?t)" for d
    unfolding parts cut using D(3) [of d] by auto
  show "(state, d, rs) \<in> set (hs_held ?t) \<Longrightarrow> \<not> hc_ended (hs_call ?t d) \<and> state \<in> hc_held (hs_call ?t d)" for state d rs
    unfolding parts using D(4) [of state d rs] held(1) held(2) [of state rs] by auto
  have stays: "d \<in> snd ` set (hs_calls s) \<Longrightarrow> d \<in> snd ` set (hs_calls ?t)" for d
    using cut by (cases "d = c") (force simp: image_iff)+
  show "SessionClosed sid \<in> set (hs_trace ?t) \<or> (\<exists>d < hs_fresh ?t. sid = hc_session_id (hs_call ?t d) \<and>
      d \<in> snd ` set (hs_calls ?t) \<union> set (hs_concluding ?t) \<union> set (hs_waited ?t))"
    if "SessionOpened sid \<in> set (hs_trace ?t)" for sid
    using D(5) [of sid] that stays unfolding parts by blast
  show "(StrKey (ID_PREFIX @ decimal m), d) \<in> set (hs_calls ?t) \<Longrightarrow> m \<le> hs_next_id ?t" for m d
    unfolding parts cut using D(6) [of m d] assms(4,5) by fastforce
qed

lemma decimal_inj: "decimal m = decimal n \<Longrightarrow> m = n"
  by (metis read_decimal_decimal)

lemma trk_retry_state:
  assumes "sessions_tracked s" "\<not> hc_ended (hs_call s c)"
  shows "sessions_tracked (retry_state c s)"
proof -
  let ?n = "Suc (hs_next_id s)"
  let ?i = "RidStr (ID_PREFIX @ decimal ?n)"
  have "map_of (hs_calls s) (rid_key ?i) = None"
    using trackedD(6) [OF assms(1), of ?n] by (force simp: rid_key_def map_of_eq_None_iff)
  then have "sessions_tracked (upd_hcall c (\<lambda>h. h\<lparr>hc_current_id := ?i\<rparr>) (s\<lparr>hs_next_id := ?n, hs_held := hs_held s,
      hs_calls := AList.update (rid_key ?i) c (AList.delete (rid_key (hc_current_id (hs_call s c))) (hs_calls s))\<rparr>))"
    using trackedD(4) [OF assms(1)]
    by (intro trk_rekey [OF assms]) (auto simp: rid_key_def dest!: decimal_inj)
  then show ?thesis by (simp add: retry_state_def Let_def)
qed

lemma trk_send_retry:
  assumes "sessions_tracked s" "\<not> hc_ended (hs_call s c)"
  shows "sessions_tracked (send_retry c state rs s)"
proof -
  have "\<not> hc_ended (hs_call (retry_state c s) c)" using assms(2) by (simp add: retry_state_def Let_def upd_hcall_def)
  then have "sessions_tracked (evict c (retry_state c s))" by (rule trk_evict [OF trk_retry_state [OF assms]])
  moreover obtain h e where "send_retry c state rs s =
     (if hs_open s then (retry_state c s)\<lparr>hs_sent := hs_sent s @ [(retry_frame c state rs s, h)]\<rparr>
      else deliver_up e (evict c (retry_state c s)))"
    using send_retry_eq by blast
  ultimately show ?thesis using trk_retry_state [OF assms] by (simp add: trk)
qed

lemma trk_follow_end [trk]:
  assumes "sessions_tracked s"
  shows "sessions_tracked (follow_end lane c result w s)"
proof -
  let ?s1 = "upd_work w (\<lambda>x. x\<lparr>rw_cutoff := True\<rparr>) (end_activity lane (Following c result w) s)"
  have s1: "sessions_tracked ?s1" using assms by (intro trk)
  have "sessions_tracked (hold c state rs (seal_leftover c l ?s1))" "sessions_tracked (send_retry c st rs (seal_leftover c l ?s1))"
    if "\<not> hc_ended (hs_call ?s1 c)" for state st rs l
    using that s1 by (auto simp: seal_leftover_def intro!: trk_hold trk_send_retry trk)
  with s1 show ?thesis unfolding follow_end_def Let_def by (auto intro!: trk)
qed

lemma trk_abandon_end [trk]: "sessions_tracked s \<Longrightarrow> sessions_tracked (abandon_end lane c message w s)"
  unfolding abandon_end_def Let_def by (intro trk)

lemma trk_abandon_start:
  assumes "sessions_tracked s" "\<not> hc_ended (hs_call s c)"
  shows "sessions_tracked (abandon_start lane c events message s)"
  using trk_small(8) [OF trk_detach [OF assms]] by (auto simp: abandon_start_def split: prod.split intro!: trk) (metis snd_conv)

lemma trk_follow_start [trk]:
  assumes "sessions_tracked s"
  shows "sessions_tracked (follow_start lane c f s)"
proof (cases f)
  case (Response i result)
  let ?s1 = "upd_hcall c (\<lambda>h. h\<lparr>hc_rounds := Suc (hc_rounds h)\<rparr>) s"
  have s1: "sessions_tracked ?s1" using assms by (auto intro!: trk)
  have "sessions_tracked (abandon_start lane c events m ?s1)" if "\<not> hc_ended (hs_call s c)" for events m
    using that by (intro trk_abandon_start s1) (simp add: upd_hcall_def)
  moreover have "sessions_tracked (begin_activity lane a s2)" if "new_work sid events True ?s1 = (w, s2)" for sid events a w s2
    using trk_small(8) [OF s1, of sid events True] that by (auto intro!: trk)
  ultimately show ?thesis
    using assms by (auto simp: follow_start_def Response Let_def split: json.split prod.split)
qed (use assms in \<open>simp_all add: follow_start_def\<close>)

lemma trk_start_job [trk]: "sessions_tracked s \<Longrightarrow> sessions_tracked (start_job lane j s)"
  by (cases j) (auto simp: start_job_def intro!: trk)

lemma trk_take_job [trk]: "sessions_tracked s \<Longrightarrow> sessions_tracked (take_job c s)" "sessions_tracked s \<Longrightarrow> sessions_tracked (take_own_job j s)"
  by (auto simp: take_job_def take_own_job_def split: list.split intro!: trk)

section \<open>Frames and the end of the connection\<close>

lemma own_id_key: "own_id i \<Longrightarrow> rid_key i \<noteq> StrKey (ID_PREFIX @ decimal m)"
  by (cases i) (auto simp: own_id_def rid_key_def)

lemma trk_host_call_out:
  assumes "sessions_tracked s" "own_id i" "map_of (hs_calls s) (rid_key i) = None"
  shows "sessions_tracked (snd (host_call_out sid i d s))"
proof -
  have opened: "sessions_tracked (snd (open_host_call sid i d s))"
  proof (rule trackedI)
    note D = trackedD [OF assms(1)]
    let ?t = "snd (open_host_call sid i d s)" and ?c = "hs_fresh s"
    have calls: "hs_calls ?t = hs_calls s @ [(rid_key i, ?c)]"
      using assms(3) by (simp add: open_host_call_def Let_def traced_def update_new)
    have parts: "hs_fresh ?t = Suc ?c" "hs_trace ?t = hs_trace s @ [SessionOpened sid]" "hs_held ?t = hs_held s"
      "hs_concluding ?t = hs_concluding s" "hs_waited ?t = hs_waited s" "hs_next_id ?t = hs_next_id s"
      "hc_session_id (hs_call ?t e) = (if e = ?c then sid else hc_session_id (hs_call s e))"
      "hc_current_id (hs_call ?t e) = (if e = ?c then i else hc_current_id (hs_call s e))"
      "hc_ended (hs_call ?t e) = (if e = ?c then False else hc_ended (hs_call s e))"
      "hc_held (hs_call ?t e) = (if e = ?c then {} else hc_held (hs_call s e))" for e
      by (simp_all add: open_host_call_def Let_def traced_def)
    have below: "\<not> hc_ended (hs_call s e) \<Longrightarrow> e < ?c" for e using D(1) [OF D(3)] by blast
    show "(k, e) \<in> set (hs_calls ?t) \<Longrightarrow>
        k = rid_key (hc_current_id (hs_call ?t e)) \<and> \<not> hc_ended (hs_call ?t e) \<and> e < hs_fresh ?t" for k e
      unfolding parts calls using D(1) [of k e] by auto
    show "distinct (map fst (hs_calls ?t))" using D(2) assms(3) by (simp add: calls map_of_eq_None_iff)
    show "\<not> hc_ended (hs_call ?t e) \<Longrightarrow> (rid_key (hc_current_id (hs_call ?t e)), e) \<in> set (hs_calls ?t)" for e
      unfolding parts calls using D(3) [of e] by auto
    show "(state, e, rs) \<in> set (hs_held ?t) \<Longrightarrow> \<not> hc_ended (hs_call ?t e) \<and> state \<in> hc_held (hs_call ?t e)" for state e rs
      unfolding parts using D(4) [of state e rs] below [of e] by auto
    show "SessionClosed x \<in> set (hs_trace ?t) \<or> (\<exists>e < hs_fresh ?t. x = hc_session_id (hs_call ?t e) \<and>
        e \<in> snd ` set (hs_calls ?t) \<union> set (hs_concluding ?t) \<union> set (hs_waited ?t))"
      if "SessionOpened x \<in> set (hs_trace ?t)" for x
    proof (cases "x = sid")
      case True
      then show ?thesis unfolding parts calls by (intro disjI2 exI [of _ ?c]) simp
    next
      case False
      then have "SessionOpened x \<in> set (hs_trace s)" using that by (simp add: parts(2))
      from D(5) [OF this] show ?thesis
      proof (elim disjE exE conjE)
        fix e assume e: "e < ?c" "x = hc_session_id (hs_call s e)"
          "e \<in> snd ` set (hs_calls s) \<union> set (hs_concluding s) \<union> set (hs_waited s)"
        show ?thesis unfolding parts calls by (rule disjI2, rule exI [of _ e]) (use e in auto)
      qed (simp add: parts(2))
    qed
    show "(StrKey (ID_PREFIX @ decimal m), e) \<in> set (hs_calls ?t) \<Longrightarrow> m \<le> hs_next_id ?t" for m e
      unfolding parts calls using D(6) [of m e] own_id_key [OF assms(2), of m] by auto
  qed
  have retried: "sessions_tracked (snd (retry_host_call state c rs i d s))" if "map_of (hs_held s) state = Some (c, rs)" for state c rs
  proof -
    note held = trackedD(4) [OF assms(1) map_of_SomeD [OF that]]
    have "sessions_tracked (upd_hcall c (\<lambda>h. h\<lparr>hc_held := hc_held h - {state}, hc_current_id := i, hc_client_id := i\<rparr>)
        (s\<lparr>hs_next_id := hs_next_id s, hs_held := AList.delete state (hs_held s),
           hs_calls := AList.update (rid_key i) c (AList.delete (rid_key (hc_current_id (hs_call s c))) (hs_calls s))\<rparr>))"
      using trackedD(4) [OF assms(1)] own_id_key [OF assms(2)] set_delete_subset [of state "hs_held s"]
      by (intro trk_rekey [OF assms(1) _ assms(3)]) (use held in \<open>auto simp: calls_delete\<close>)
    then show ?thesis by (simp add: retry_host_call_def Let_def)
  qed
  show ?thesis
    using assms(1) opened retried by (auto simp: host_call_out_def split: json.split option.split)
qed

lemma trk_pump_outbound:
  assumes "sessions_tracked s" "client_frame f" "id_free f s"
  shows "sessions_tracked (host_pump_outbound hf sid f own s)"
proof -
  have "sessions_tracked (snd (host_outbound hf sid f s))"
  proof (cases f)
    case (Request i meth params)
    let ?s1 = "if meth \<in> set HANDSHAKE_METHODS \<and> \<not> hs_handshake_read s then s\<lparr>hs_handshake_id := Some (rid_key i)\<rparr> else s"
    have "sessions_tracked ?s1" "own_id i" "map_of (hs_calls ?s1) (rid_key i) = None"
      using assms by (simp_all add: Request trk client_frame_def id_free_def)
    then show ?thesis
      using trk_host_call_out [of ?s1 i sid] by (auto simp: host_outbound_def Request Let_def case_prod_beta split: option.split)
  next
    case (Notification meth params)
    have "sessions_tracked (snd (host_cancel params s))"
    proof (cases "find (\<lambda>c. rid_key (hc_client_id (hs_call s c)) = key (dget (params_of params) REQUEST_ID)) (map snd (hs_calls s))")
      case (Some c)
      then have "c \<in> snd ` set (hs_calls s)" by (auto simp: find_Some_iff)
      then have "\<not> hc_ended (hs_call s c)" using trackedD(1) [OF assms(1)] by (auto simp: image_iff)
      then show ?thesis using Some trk_evict [OF assms(1)] by (simp add: host_cancel_def Let_def)
    qed (use assms(1) in \<open>simp add: host_cancel_def Let_def\<close>)
    then show ?thesis using assms(1) by (simp add: host_outbound_def Notification)
  qed (use assms(1) in \<open>simp_all add: host_outbound_def\<close>)
  moreover have "sessions_tracked s' \<Longrightarrow> sessions_tracked (snd (outbound_headers g own s'))" for g s'
    by (auto simp: outbound_headers_def split: rpc_frame.split option.split intro!: trk)
  ultimately show ?thesis by (simp add: host_pump_outbound_def case_prod_beta trk)
qed

lemma trk_host_answer:
  assumes "sessions_tracked s"
  shows "sessions_tracked (snd (host_answer c f s))"
proof -
  define s1 where "s1 = (case f of Response i result \<Rightarrow> owe (hc_session_id (hs_call s c))
      (length (filter (\<lambda>e. \<not> is_attempt e) (events_of result))) s | _ \<Rightarrow> s)"
  have "sessions_tracked s1" using assms by (auto simp: s1_def trk split: rpc_frame.split)
  then have "sessions_tracked (dispatch (Some c) (Follow c f) s1)"
      "\<not> hc_ended (hs_call s1 c) \<Longrightarrow> sessions_tracked (dispatch (Some c) (Conclude c f) (detach c s1))"
    by (simp_all add: trk trk_detach)
  then show ?thesis unfolding host_answer_def Let_def s1_def by (simp split: if_split)
qed

lemma trk_pump_inbound [trk]:
  assumes "sessions_tracked s"
  shows "sessions_tracked (host_pump_inbound related f s)"
proof -
  have "sessions_tracked (snd (host_inbound related f s))"
    using assms by (cases f) (auto simp: host_inbound_def split: prod.split option.split intro!: trk trk_host_answer)
  then show ?thesis by (simp add: host_pump_inbound_def case_prod_beta trk split: option.split)
qed

lemma trk_close_begin [trk]:
  assumes "sessions_tracked s" "hs_waited s = []"
  shows "sessions_tracked (host_close_begin s)"
proof (rule trackedI)
  note D = trackedD [OF assms(1)]
  have gone: "hc_ended (hs_call (host_close_begin s) c)" for c
    using D(3) [of c] by (force simp: host_close_begin_def Let_def)
  show "\<not> hc_ended (hs_call (host_close_begin s) c) \<Longrightarrow>
      (rid_key (hc_current_id (hs_call (host_close_begin s) c)), c) \<in> set (hs_calls (host_close_begin s))" for c
    using gone by blast
  show "SessionClosed sid \<in> set (hs_trace (host_close_begin s)) \<or> (\<exists>c < hs_fresh (host_close_begin s).
      sid = hc_session_id (hs_call (host_close_begin s) c) \<and> c \<in> snd ` set (hs_calls (host_close_begin s)) \<union>
      set (hs_concluding (host_close_begin s)) \<union> set (hs_waited (host_close_begin s)))"
    if "SessionOpened sid \<in> set (hs_trace (host_close_begin s))" for sid
    using D(5) [of sid] that assms(2) by (auto simp: host_close_begin_def Let_def)
qed (simp_all add: host_close_begin_def Let_def)

lemma host_run_tracked: "host_run hf s \<Longrightarrow> sessions_tracked s"
proof (induction rule: host_run.induct)
  case start
  show ?case by (rule trackedI) (simp_all add: new_host_seam_def no_host_call_def)
next
  case (outbound s f sid own)
  then show ?case using trk_pump_outbound by blast
qed (simp_all add: trk)

lemma closed_by_end:
  assumes "c \<in> set cs"
  shows "SessionClosed (hc_session_id (hs_call s c)) \<in> set (hs_trace (close_sessions cs s))"
  using assms
proof (induction cs arbitrary: s)
  case (Cons d cs)
  have keep: "x \<in> set (hs_trace s) \<Longrightarrow> x \<in> set (hs_trace (close_sessions cs s))" for x cs s
    by (induction cs arbitrary: s) (simp_all add: Let_def traced_def)
  show ?case
  proof (cases "c = d")
    case True
    then show ?thesis by (simp add: Let_def keep traced_def)
  next
    case False
    then show ?thesis
      using Cons.prems Cons.IH [of "traced (SessionClosed (hc_session_id (hs_call s d)))
        (s\<lparr>hs_owed := AList.delete (hc_session_id (hs_call s d)) (hs_owed s)\<rparr>)"]
      by (simp add: Let_def)
  qed
qed simp

end
