(* ===== verification/McpTool.thy ===== *)
theory McpTool
  imports McpFrames
begin

text \<open>
  \<open>src/auditable_mcp/mcp/seam.py\<close>, the tool side: \<open>McpAuditTransport\<close> and the state of its calls, rounds, audit
  sessions and pending attempts. An object of the source is a reference into the state: \<open>ts_call\<close>, \<open>ts_audit\<close>
  and \<open>ts_response\<close> are the heaps of \<open>_ToolCall\<close>, \<open>_AuditSession\<close> and \<open>_Pending\<close>, a \<open>SessionNumbering\<close> is its
  reference, and the dictionaries hold references in insertion order.

  Every function is a run of the event loop from one \<open>await\<close> that waits to the next: \<open>_send_attempt\<close> is cut at
  its wait in \<open>send_attempt\<close> and \<open>attempt_answer\<close>, a task started on the task group is an entry of \<open>ts_tasks\<close>
  until it runs. \<open>ts_sent\<close> lists the frames handed to the peer, each with the request it is related to;
  \<open>ts_open\<close> says whether the streams still take them.
\<close>

section \<open>State\<close>

record round =
  rd_token :: pystr
  rd_awaiting :: "(pystr \<times> nat) list"

record audit_session =
  as_session_id :: pystr
  as_host_capability :: "audit_capability option"
  as_numbering :: nat
  as_live :: int

record 'r tool_call =
  tc_original_id :: rid
  tc_modern :: bool
  tc_host_capability :: "audit_capability option"
  tc_audit :: "nat option"
  tc_own_session_id :: pystr
  tc_task_augmented :: bool
  tc_current_id :: "rid option"
  tc_ids :: "idkey set"
  tc_own_numbering :: nat
  tc_negotiated :: bool
  tc_buffered :: "jobj list"
  tc_buffered_awaiting :: "(pystr \<times> nat) list"
  tc_round :: "round option"
  tc_round_scheduled :: bool
  tc_final :: "rpc_frame option"
  tc_finished :: bool
  tc_ended :: bool
  tc_released :: bool
  tc_accepted_open :: "pystr set"
  tc_request :: "'r option"

datatype tool_task = EndRound nat | ForgetCancelled idkey

record tool_config =
  cf_lib :: lib
  cf_mcp :: mcp
  cf_declares :: audit_capability
  cf_instance :: pystr
  cf_str :: "json \<Rightarrow> pystr"

record 'r tool_seam =
  ts_handshake_id :: "rid option"
  ts_handshake_seen :: bool
  ts_handshake_capability :: "audit_capability option"
  ts_calls :: "(idkey \<times> nat) list"
  ts_rounds :: "(pystr \<times> nat \<times> round) list"
  ts_sessions :: "(pystr \<times> nat) list"
  ts_idle :: "(pystr \<times> nat) list"
  ts_pending :: "(pystr \<times> nat \<times> nat) list"
  ts_waiting :: "(idkey \<times> nat) list"
  ts_cancelled :: "(idkey \<times> nat) list"
  ts_next_id :: nat
  ts_call :: "nat \<Rightarrow> 'r tool_call"
  ts_audit :: "nat \<Rightarrow> audit_session"
  ts_response :: "nat \<Rightarrow> response option"
  ts_fresh :: nat
  ts_tasks :: "tool_task list"
  ts_open :: bool
  ts_sent :: "(rpc_frame \<times> rid option) list"

text \<open>The cells no object has been created in yet hold these.\<close>

definition no_audit :: audit_session where
  "no_audit = \<lparr>as_session_id = [], as_host_capability = None, as_numbering = 0, as_live = 0\<rparr>"

definition no_call :: "'r tool_call" where
  "no_call = \<lparr>tc_original_id = RidInt 0, tc_modern = False, tc_host_capability = None, tc_audit = None,
     tc_own_session_id = [], tc_task_augmented = False, tc_current_id = None, tc_ids = {}, tc_own_numbering = 0,
     tc_negotiated = False, tc_buffered = [], tc_buffered_awaiting = [], tc_round = None,
     tc_round_scheduled = False, tc_final = None, tc_finished = False, tc_ended = False, tc_released = False,
     tc_accepted_open = {}, tc_request = None\<rparr>"

definition new_tool_seam :: "'r tool_seam" where
  "new_tool_seam = \<lparr>ts_handshake_id = None, ts_handshake_seen = False, ts_handshake_capability = None,
     ts_calls = [], ts_rounds = [], ts_sessions = [], ts_idle = [], ts_pending = [], ts_waiting = [],
     ts_cancelled = [], ts_next_id = 0, ts_call = (\<lambda>_. no_call), ts_audit = (\<lambda>_. no_audit),
     ts_response = (\<lambda>_. None), ts_fresh = 0, ts_tasks = [], ts_open = True, ts_sent = []\<rparr>"

definition upd_call :: "nat \<Rightarrow> ('r tool_call \<Rightarrow> 'r tool_call) \<Rightarrow> 'r tool_seam \<Rightarrow> 'r tool_seam" where
  "upd_call c f s = s\<lparr>ts_call := (ts_call s)(c := f (ts_call s c))\<rparr>"

definition upd_audit :: "nat \<Rightarrow> (audit_session \<Rightarrow> audit_session) \<Rightarrow> 'r tool_seam \<Rightarrow> 'r tool_seam" where
  "upd_audit a f s = s\<lparr>ts_audit := (ts_audit s)(a := f (ts_audit s a))\<rparr>"

section \<open>Answers, frames and tasks\<close>

text \<open>\<open>_Pending.settle\<close>: the first answer stands.\<close>

definition settle :: "nat \<Rightarrow> response \<Rightarrow> 'r tool_seam \<Rightarrow> 'r tool_seam" where
  "settle p r s = (if ts_response s p = None then s\<lparr>ts_response := (ts_response s)(p := Some r)\<rparr> else s)"

fun settle_all :: "nat list \<Rightarrow> 'r tool_seam \<Rightarrow> 'r tool_seam" where
  "settle_all [] s = s"
| "settle_all (p # ps) s = settle_all ps (settle p Unavailable s)"

text \<open>\<open>_send_frame\<close>: queued for the peer, or the connection is gone and it raises.\<close>

definition send_frame :: "rpc_frame \<Rightarrow> rid option \<Rightarrow> 'r tool_seam \<Rightarrow> bool \<times> 'r tool_seam" where
  "send_frame f related s =
     (if ts_open s then (True, s\<lparr>ts_sent := ts_sent s @ [(f, related)]\<rparr>) else (False, s))"

definition start_task :: "tool_task \<Rightarrow> 'r tool_seam \<Rightarrow> 'r tool_seam" where
  "start_task t s = s\<lparr>ts_tasks := ts_tasks s @ [t]\<rparr>"

definition new_seam_id :: "nat \<Rightarrow> pystr" where
  "new_seam_id n = ID_PREFIX @ decimal n"

text \<open>\<open>str(event.get(fields.ID))\<close>: the text of a value that is not a string is the parameter \<open>cf_str\<close>.\<close>

definition event_key :: "tool_config \<Rightarrow> jobj \<Rightarrow> pystr" where
  "event_key cf event = (case dget event ID of JStr s \<Rightarrow> s | v \<Rightarrow> cf_str cf v)"

definition call_session_id :: "'r tool_seam \<Rightarrow> nat \<Rightarrow> pystr" where
  "call_session_id s c =
     (case tc_audit (ts_call s c) of
        Some a \<Rightarrow> if tc_negotiated (ts_call s c) then as_session_id (ts_audit s a) else tc_own_session_id (ts_call s c)
      | None \<Rightarrow> tc_own_session_id (ts_call s c))"

definition call_numbering :: "'r tool_seam \<Rightarrow> nat \<Rightarrow> nat" where
  "call_numbering s c =
     (case tc_audit (ts_call s c) of
        Some a \<Rightarrow> if tc_negotiated (ts_call s c) then as_numbering (ts_audit s a) else tc_own_numbering (ts_call s c)
      | None \<Rightarrow> tc_own_numbering (ts_call s c))"

definition call_running :: "'r tool_call \<Rightarrow> bool" where
  "call_running t \<longleftrightarrow> \<not> tc_ended t \<and> \<not> tc_finished t \<and> (tc_round t = None \<or> tc_accepted_open t \<noteq> {})"

definition seam_running :: "'r tool_seam \<Rightarrow> bool" where
  "seam_running s = list_ex (\<lambda>(k, c). call_running (ts_call s c)) (ts_calls s)"

definition undelivered :: "'r tool_seam \<Rightarrow> bool" where
  "undelivered s \<longleftrightarrow>
     list_ex (\<lambda>(k, c). \<not> tc_ended (ts_call s c) \<and> tc_buffered (ts_call s c) \<noteq> []) (ts_calls s) \<or>
     list_ex (\<lambda>(k, c). \<not> tc_ended (ts_call s c)) (ts_waiting s)"

section \<open>Rounds\<close>

definition schedule_round :: "nat \<Rightarrow> 'r tool_seam \<Rightarrow> 'r tool_seam" where
  "schedule_round c s =
     (if tc_round_scheduled (ts_call s c) then s
      else start_task (EndRound c) (upd_call c (\<lambda>t. t\<lparr>tc_round_scheduled := True\<rparr>) s))"

definition round_result :: "pystr \<Rightarrow> pystr \<Rightarrow> jobj list \<Rightarrow> jobj" where
  "round_result token sid events =
     [(RESULT_TYPE, JStr INPUT_REQUIRED), (REQUEST_STATE, JStr token),
      (META, JDict [(EXTENSION_ID, JDict (result_meta_to_wire sid events))])]"

text \<open>\<open>_end_round\<close>, with the bytes it draws for the token.\<close>

definition end_round :: "tool_config \<Rightarrow> byte list \<Rightarrow> nat \<Rightarrow> 'r tool_seam \<Rightarrow> 'r tool_seam" where
  "end_round cf raw c s =
     (let s0 = upd_call c (\<lambda>t. t\<lparr>tc_round_scheduled := False\<rparr>) s; t = ts_call s0 c in
      case tc_current_id t of
        None \<Rightarrow> s0
      | Some i \<Rightarrow>
          if tc_ended t \<or> tc_round t \<noteq> None \<or> tc_buffered t = [] then s0
          else
            let token = round_token (cf_instance cf) raw;
                out = \<lparr>rd_token = token, rd_awaiting = tc_buffered_awaiting t\<rparr>;
                s1 = upd_call c (\<lambda>t. t\<lparr>tc_buffered := [], tc_buffered_awaiting := [], tc_round := Some out,
                       tc_current_id := None\<rparr>) s0;
                s2 = s1\<lparr>ts_rounds := AList.update token (c, out) (ts_rounds s1)\<rparr>
            in snd (send_frame (Response i (round_result token (call_session_id s2 c) (tc_buffered t))) None s2))"

text \<open>The answers a retry carries for the call: those of its audit session, or none.\<close>

definition retry_responses :: "tool_config \<Rightarrow> 'r tool_seam \<Rightarrow> nat \<Rightarrow> jobj option \<Rightarrow> (pystr \<times> response) list" where
  "retry_responses cf s c params =
     (case (parse_request_meta (cf_lib cf) (dget (meta_of (JDict (params_of params))) EXTENSION_ID),
            tc_audit (ts_call s c)) of
        (Some m, Some a) \<Rightarrow>
          if rm_session_id m = as_session_id (ts_audit s a)
          then (case rm_responses m of None \<Rightarrow> [] | Some rs \<Rightarrow> rs) else []
      | _ \<Rightarrow> [])"

fun settle_round :: "(pystr \<times> response) list \<Rightarrow> (pystr \<times> nat) list \<Rightarrow> 'r tool_seam \<Rightarrow> 'r tool_seam" where
  "settle_round rs [] s = s"
| "settle_round rs ((eid, p) # ps) s =
     settle_round rs ps (settle p (case map_of rs eid of Some r \<Rightarrow> r | None \<Rightarrow> Unavailable) s)"

definition accept_retry ::
  "tool_config \<Rightarrow> nat \<Rightarrow> round \<Rightarrow> rid \<Rightarrow> jobj option \<Rightarrow> 'r option \<Rightarrow> 'r tool_seam \<Rightarrow> 'r tool_seam" where
  "accept_retry cf c answered i params request s =
     (let s1 = settle_round (retry_responses cf s c params) (rd_awaiting answered) s;
          s2 = upd_call c (\<lambda>t. t\<lparr>tc_round := None, tc_current_id := Some i,
                 tc_ids := insert (rid_key i) (tc_ids t), tc_request := request\<rparr>) s1;
          t = ts_call s2 c
      in if \<not> tc_finished t \<and> \<not> tc_ended t \<and> list_ex (\<lambda>e. is_attempt (JDict e)) (tc_buffered t)
         then schedule_round c s2 else s2)"

section \<open>The end of a request\<close>

text \<open>\<open>_keep_idle\<close>: its loop drops the oldest sessions while there are more than the bound.\<close>

fun trim_idle :: "(pystr \<times> nat) list \<Rightarrow> (pystr \<times> nat) list \<Rightarrow> (pystr \<times> nat) list \<times> (pystr \<times> nat) list" where
  "trim_idle [] sessions = ([], sessions)"
| "trim_idle (x # xs) sessions =
     (if length (x # xs) > MAX_IDLE_SESSIONS then trim_idle xs (AList.delete (fst x) sessions)
      else (x # xs, sessions))"

definition keep_idle :: "nat \<Rightarrow> 'r tool_seam \<Rightarrow> 'r tool_seam" where
  "keep_idle a s =
     (let sid = as_session_id (ts_audit s a);
          (idle, sessions) = trim_idle (AList.delete sid (ts_idle s) @ [(sid, a)]) (ts_sessions s)
      in s\<lparr>ts_idle := idle, ts_sessions := sessions\<rparr>)"

definition release :: "nat \<Rightarrow> bool \<Rightarrow> 'r tool_seam \<Rightarrow> 'r tool_seam" where
  "release c final s =
     (case tc_audit (ts_call s c) of
        None \<Rightarrow> s
      | Some a \<Rightarrow>
          if tc_released (ts_call s c) then s
          else
            let s1 = upd_call c (\<lambda>t. t\<lparr>tc_released := True\<rparr>) s;
                s2 = upd_audit a (\<lambda>x. x\<lparr>as_live := as_live x - 1\<rparr>) s1;
                sid = as_session_id (ts_audit s2 a)
            in if as_live (ts_audit s2 a) > 0 then s2
               else if final then s2\<lparr>ts_sessions := AList.delete sid (ts_sessions s2),
                                     ts_idle := AList.delete sid (ts_idle s2)\<rparr>
               else keep_idle a s2)"

text \<open>\<open>_end_call\<close>: the pending attempts the call owns, its round and its buffer are all unanswered.\<close>

fun drop_pending :: "nat \<Rightarrow> (pystr \<times> nat \<times> nat) list \<Rightarrow> 'r tool_seam \<Rightarrow> 'r tool_seam" where
  "drop_pending c [] s = s"
| "drop_pending c ((rid, p, owner) # ps) s =
     drop_pending c ps
       (if owner = c then settle p Unavailable (s\<lparr>ts_pending := AList.delete rid (ts_pending s)\<rparr>) else s)"

definition close_round :: "nat \<Rightarrow> 'r tool_seam \<Rightarrow> 'r tool_seam" where
  "close_round c s =
     (case tc_round (ts_call s c) of
        None \<Rightarrow> s
      | Some out \<Rightarrow> settle_all (map snd (rd_awaiting out))
                      (s\<lparr>ts_rounds := AList.delete (rd_token out) (ts_rounds s)\<rparr>))"

definition clear_awaiting :: "nat \<Rightarrow> 'r tool_seam \<Rightarrow> 'r tool_seam" where
  "clear_awaiting c s =
     upd_call c (\<lambda>t. t\<lparr>tc_buffered_awaiting := []\<rparr>) (settle_all (map snd (tc_buffered_awaiting (ts_call s c))) s)"

definition call_key :: "'r tool_seam \<Rightarrow> nat \<Rightarrow> idkey" where
  "call_key s c = rid_key (tc_original_id (ts_call s c))"

definition end_call :: "nat \<Rightarrow> bool \<Rightarrow> 'r tool_seam \<Rightarrow> 'r tool_seam" where
  "end_call c final s =
     (let s1 = upd_call c (\<lambda>t. t\<lparr>tc_finished := True, tc_ended := True, tc_final := None\<rparr>) s;
          s2 = s1\<lparr>ts_calls := AList.delete (call_key s1 c) (ts_calls s1),
                  ts_waiting := AList.delete (call_key s1 c) (ts_waiting s1)\<rparr>;
          s3 = close_round c (drop_pending c (ts_pending s2) s2)
      in release c final (clear_awaiting c s3))"

text \<open>\<open>_keep_waiting\<close>: each turn of its loop removes the call it evicts, so the fuel is the number of them.\<close>

primrec evict_waiting :: "nat \<Rightarrow> 'r tool_seam \<Rightarrow> 'r tool_seam" where
  "evict_waiting 0 s = s"
| "evict_waiting (Suc n) s =
     (case ts_waiting s of
        [] \<Rightarrow> s
      | (k, c) # _ \<Rightarrow>
          if length (ts_waiting s) > MAX_IDLE_SESSIONS then evict_waiting n (end_call c True s) else s)"

definition keep_waiting :: "nat \<Rightarrow> rpc_frame \<Rightarrow> 'r tool_seam \<Rightarrow> 'r tool_seam" where
  "keep_waiting c f s =
     (let s1 = upd_call c (\<lambda>t. t\<lparr>tc_final := Some f\<rparr>) s;
          k = call_key s1 c;
          s2 = s1\<lparr>ts_waiting := AList.delete k (ts_waiting s1) @ [(k, c)]\<rparr>
      in evict_waiting (length (ts_waiting s2)) s2)"

definition conclude_waiting :: "nat \<Rightarrow> 'r tool_seam \<Rightarrow> 'r tool_seam" where
  "conclude_waiting c s =
     (let s1 = upd_call c (\<lambda>t. t\<lparr>tc_ended := True, tc_final := None\<rparr>) s
      in s1\<lparr>ts_waiting := AList.delete (call_key s1 c) (ts_waiting s1)\<rparr>)"

text \<open>\<open>result[META] = {**(result.get(META) or {}), EXTENSION_ID: ...}\<close>, where \<open>dict(x)\<close> reads an object.\<close>

definition with_outcomes :: "pystr \<Rightarrow> jobj list \<Rightarrow> jobj \<Rightarrow> jobj" where
  "with_outcomes sid outcomes result =
     (if outcomes = [] then result
      else AList.update META
        (JDict (AList.update EXTENSION_ID (JDict (result_meta_to_wire sid outcomes)) (meta_of (JDict result)))) result)"

definition outcomes_of :: "jobj list \<Rightarrow> jobj list" where
  "outcomes_of events = filter (\<lambda>e. \<not> is_attempt (JDict e)) events"

definition final_frame :: "nat \<Rightarrow> rpc_frame \<Rightarrow> 'r tool_seam \<Rightarrow> rpc_frame option \<times> 'r tool_seam" where
  "final_frame c f s =
     (case tc_current_id (ts_call s c) of
        None \<Rightarrow> (None, s)
      | Some i \<Rightarrow>
          let outcomes = outcomes_of (tc_buffered (ts_call s c));
              s1 = clear_awaiting c (upd_call c (\<lambda>t. t\<lparr>tc_buffered := []\<rparr>) s)
          in case f of
               Response _ result \<Rightarrow>
                 (Some (Response i (with_outcomes (call_session_id s1 c) outcomes result)), conclude_waiting c s1)
             | Error _ e \<Rightarrow>
                 if outcomes \<noteq> [] then
                   (None, schedule_round c (keep_waiting c f (upd_call c (\<lambda>t. t\<lparr>tc_buffered := outcomes\<rparr>) s1)))
                 else (Some (Error (Some i) e), conclude_waiting c s1)
             | _ \<Rightarrow> (None, s))"

definition deliver_final :: "nat \<Rightarrow> rpc_frame \<Rightarrow> 'r tool_seam \<Rightarrow> bool \<times> 'r tool_seam" where
  "deliver_final c f s =
     (case final_frame c f s of
        (None, s') \<Rightarrow> (True, s')
      | (Some g, s') \<Rightarrow> send_frame g None s')"

definition continues :: "rpc_frame \<Rightarrow> bool" where
  "continues f = (case f of Response i result \<Rightarrow> dget result RESULT_TYPE = JStr INPUT_REQUIRED | _ \<Rightarrow> False)"

definition finish :: "nat \<Rightarrow> rpc_frame \<Rightarrow> 'r tool_seam \<Rightarrow> rpc_frame option \<times> 'r tool_seam" where
  "finish c f s =
     (let s1 = release c (\<not> continues f) s; t = ts_call s1 c in
      if \<not> tc_modern t then (Some f, upd_call c (\<lambda>t. t\<lparr>tc_ended := True\<rparr>) s1)
      else case tc_round t of
        Some out \<Rightarrow> (None, keep_waiting c f (settle_all (map snd (rd_awaiting out)) s1))
      | None \<Rightarrow> final_frame c f s1)"

section \<open>Attempts and outcomes\<close>

datatype attempt_wait = Settled response | Awaiting nat "pystr option"

definition send_attempt :: "tool_config \<Rightarrow> nat \<Rightarrow> jobj \<Rightarrow> 'r tool_seam \<Rightarrow> attempt_wait \<times> 'r tool_seam" where
  "send_attempt cf c event s =
     (if tc_finished (ts_call s c) \<or> tc_ended (ts_call s c) then (Settled Unavailable, s)
      else
        let p = ts_fresh s;
            s1 = s\<lparr>ts_fresh := Suc p, ts_response := (ts_response s)(p := None)\<rparr>
        in if tc_modern (ts_call s c) then
             (Awaiting p None,
              schedule_round c (upd_call c (\<lambda>t. t\<lparr>tc_buffered := tc_buffered t @ [event],
                tc_buffered_awaiting := AList.update (event_key cf event) p (tc_buffered_awaiting t)\<rparr>) s1))
           else
             let n = Suc (ts_next_id s); rid = new_seam_id n;
                 s2 = s1\<lparr>ts_next_id := n, ts_pending := AList.update rid (p, c) (ts_pending s1)\<rparr>
             in case send_frame (Request (RidStr rid) ATTEMPT_METHOD (Some event))
                       (Some (tc_original_id (ts_call s c))) s2 of
                  (True, s3) \<Rightarrow> (Awaiting p (Some rid), s3)
                | (False, s3) \<Rightarrow> (Settled Unavailable, s3\<lparr>ts_pending := AList.delete rid (ts_pending s3)\<rparr>))"

text \<open>After the wait: an attempt nothing has answered by then is settled as unanswered.\<close>

definition attempt_answer ::
  "tool_config \<Rightarrow> nat \<Rightarrow> jobj \<Rightarrow> nat \<Rightarrow> pystr option \<Rightarrow> 'r tool_seam \<Rightarrow> response \<times> 'r tool_seam" where
  "attempt_answer cf c event p rid s =
     (let s1 = (if ts_response s p = None
                then (case rid of
                        None \<Rightarrow> settle p Unavailable s
                      | Some i \<Rightarrow> (settle p Unavailable s)\<lparr>ts_pending := AList.delete i (ts_pending s)\<rparr>)
                else s);
          r = (case ts_response s1 p of Some r \<Rightarrow> r | None \<Rightarrow> Unavailable)
      in (r, case r of
               Accept a \<Rightarrow> if tc_ended (ts_call s1 c) then s1
                 else upd_call c (\<lambda>t. t\<lparr>tc_accepted_open := insert (event_key cf event) (tc_accepted_open t)\<rparr>) s1
             | _ \<Rightarrow> s1))"

definition send_outcome :: "tool_config \<Rightarrow> nat \<Rightarrow> jobj \<Rightarrow> 'r tool_seam \<Rightarrow> 'r tool_seam" where
  "send_outcome cf c event s =
     (let s1 = upd_call c (\<lambda>t. t\<lparr>tc_accepted_open := tc_accepted_open t - {event_key cf event}\<rparr>) s;
          t = ts_call s1 c
      in if tc_finished t \<or> tc_ended t then s1
         else if tc_modern t then upd_call c (\<lambda>t. t\<lparr>tc_buffered := tc_buffered t @ [event]\<rparr>) s1
         else snd (send_frame (Notification OUTCOME_METHOD (Some event)) (Some (tc_original_id t)) s1))"

section \<open>The audit transport of a call\<close>

datatype binding_error = HandshakeNotSeen | McpBinding | UnnegotiatedSend | UnknownCall "rid option"

text \<open>\<open>McpAuditTransport.call\<close>; an id whose string form names a call is told so in the message.\<close>

definition rid_text :: "tool_config \<Rightarrow> rid option \<Rightarrow> pystr" where
  "rid_text cf i = (case i of Some (RidStr s) \<Rightarrow> s | Some (RidInt n) \<Rightarrow> int_text n | None \<Rightarrow> cf_str cf JNull)"

definition opt_rid_key :: "rid option \<Rightarrow> idkey" where
  "opt_rid_key i = (case i of Some r \<Rightarrow> rid_key r | None \<Rightarrow> key JNull)"

definition call_of :: "tool_config \<Rightarrow> rid option \<Rightarrow> 'r tool_seam \<Rightarrow> binding_error + nat" where
  "call_of cf i s =
     (case map_of (ts_calls s) (opt_rid_key i) of
        Some c \<Rightarrow> Inr c
      | None \<Rightarrow> Inl (UnknownCall (map_option (\<lambda>(k, c). tc_original_id (ts_call s c))
          (find (\<lambda>(k, c). rid_text cf (Some (tc_original_id (ts_call s c))) = rid_text cf i) (ts_calls s)))))"

definition negotiate_call ::
  "tool_config \<Rightarrow> nat \<Rightarrow> audit_capability \<Rightarrow> 'r tool_seam \<Rightarrow> (binding_error + negotiation_result) \<times> 'r tool_seam" where
  "negotiate_call cf c offered s =
     (if offered \<noteq> cf_declares cf then (Inl McpBinding, s)
      else if \<not> tc_modern (ts_call s c) \<and> \<not> ts_handshake_seen s then (Inl HandshakeNotSeen, s)
      else
        let n = negotiate (tc_host_capability (ts_call s c)) offered;
            n' = (if tc_audit (ts_call s c) = None \<or> tc_task_augmented (ts_call s c) then without_session n else n)
        in (Inr n', upd_call c (\<lambda>t. t\<lparr>tc_negotiated := negotiated n'\<rparr>) s))"

definition call_send_attempt ::
  "tool_config \<Rightarrow> nat \<Rightarrow> jobj \<Rightarrow> 'r tool_seam \<Rightarrow> (binding_error + attempt_wait) \<times> 'r tool_seam" where
  "call_send_attempt cf c event s =
     (if \<not> tc_negotiated (ts_call s c) then (Inl UnnegotiatedSend, s)
      else case send_attempt cf c event s of (w, s') \<Rightarrow> (Inr w, s'))"

definition call_send_outcome ::
  "tool_config \<Rightarrow> nat \<Rightarrow> jobj \<Rightarrow> 'r tool_seam \<Rightarrow> (binding_error + unit) \<times> 'r tool_seam" where
  "call_send_outcome cf c event s =
     (if \<not> tc_negotiated (ts_call s c) then (Inl UnnegotiatedSend, s) else (Inr (), send_outcome cf c event s))"

section \<open>Inbound frames\<close>

text \<open>What becomes of a frame: it goes on, it is kept here, or the connection broke and the pump ends.\<close>

datatype pump_verdict = Forward rpc_frame | Hide | Broken

definition read_handshake :: "mcp \<Rightarrow> pystr \<Rightarrow> jobj option \<Rightarrow> 'r tool_seam \<Rightarrow> 'r tool_seam" where
  "read_handshake mc meth params s =
     (let d = params_of params;
          capabilities = (if meth = DISCOVER_METHOD
                          then dget (meta_of (JDict d)) (mcp_capabilities_key mc) else dget d CAPABILITIES)
      in s\<lparr>ts_handshake_capability := capability_of capabilities, ts_handshake_seen := True\<rparr>)"

text \<open>A new request: the session its \<open>_meta\<close> issues is looked up, or created with this request's declaration.\<close>

definition enter_audit :: "pystr \<Rightarrow> audit_capability option \<Rightarrow> 'r tool_seam \<Rightarrow> nat \<times> 'r tool_seam" where
  "enter_audit sid declared s =
     (case map_of (ts_sessions s) sid of
        Some a \<Rightarrow> (a, upd_audit a (\<lambda>x. x\<lparr>as_live := as_live x + 1\<rparr>) (s\<lparr>ts_idle := AList.delete sid (ts_idle s)\<rparr>))
      | None \<Rightarrow>
          let a = ts_fresh s in
          (a, s\<lparr>ts_audit := (ts_audit s)(a := \<lparr>as_session_id = sid, as_host_capability = declared,
                 as_numbering = Suc a, as_live = 1\<rparr>),
               ts_fresh := Suc (Suc a), ts_sessions := AList.update sid a (ts_sessions s),
               ts_idle := AList.delete sid (ts_idle s)\<rparr>))"

definition open_call ::
  "tool_config \<Rightarrow> pystr \<Rightarrow> rid \<Rightarrow> jobj option \<Rightarrow> 'r option \<Rightarrow> 'r tool_seam \<Rightarrow> 'r tool_seam" where
  "open_call cf own i params request s =
     (let d = params_of params; modern = is_modern (cf_mcp cf) (JDict d); meta = meta_of (JDict d);
          issued = map_option rm_session_id (parse_request_meta (cf_lib cf) (dget meta EXTENSION_ID));
          declared = (if modern then capability_of (dget meta (mcp_capabilities_key (cf_mcp cf)))
                      else ts_handshake_capability s);
          (audit, s1) = (case issued of
              None \<Rightarrow> (None, s) | Some sid \<Rightarrow> (case enter_audit sid declared s of (a, s') \<Rightarrow> (Some a, s')));
          c = ts_fresh s1;
          call = \<lparr>tc_original_id = i, tc_modern = modern,
                  tc_host_capability = (case audit of Some a \<Rightarrow> as_host_capability (ts_audit s1 a) | None \<Rightarrow> declared),
                  tc_audit = audit, tc_own_session_id = own, tc_task_augmented = is_object (dget d TASK),
                  tc_current_id = Some i, tc_ids = {rid_key i}, tc_own_numbering = Suc c, tc_negotiated = False,
                  tc_buffered = [], tc_buffered_awaiting = [], tc_round = None, tc_round_scheduled = False,
                  tc_final = None, tc_finished = False, tc_ended = False, tc_released = False,
                  tc_accepted_open = {}, tc_request = request\<rparr>
      in s1\<lparr>ts_call := (ts_call s1)(c := call), ts_fresh := Suc (Suc c),
            ts_calls := AList.update (rid_key i) c (ts_calls s1)\<rparr>)"

definition take_retry ::
  "tool_config \<Rightarrow> pystr \<Rightarrow> rid \<Rightarrow> jobj option \<Rightarrow> 'r option \<Rightarrow> 'r tool_seam \<Rightarrow> pump_verdict \<times> 'r tool_seam" where
  "take_retry cf token i params request s =
     (case map_of (ts_rounds s) token of
        None \<Rightarrow>
          (case send_frame (Error (Some i) (RPC_INVALID_PARAMS, NO_OPEN_ROUND_MESSAGE, None)) None s of
             (ok, s') \<Rightarrow> (if ok then Hide else Broken, s'))
      | Some (c, answered) \<Rightarrow>
          let s1 = accept_retry cf c answered i params request (s\<lparr>ts_rounds := AList.delete token (ts_rounds s)\<rparr>) in
          case tc_final (ts_call s1 c) of
            None \<Rightarrow> (Hide, s1)
          | Some f \<Rightarrow> (case deliver_final c f s1 of (ok, s2) \<Rightarrow> (if ok then Hide else Broken, s2)))"

definition retry_token :: "jobj option \<Rightarrow> pystr option" where
  "retry_token params =
     (case dget (params_of params) REQUEST_STATE of
        JStr t \<Rightarrow> if starts_with ROUND_TOKEN_PREFIX t then Some t else None
      | _ \<Rightarrow> None)"

definition take_call ::
  "tool_config \<Rightarrow> pystr \<Rightarrow> rid \<Rightarrow> jobj option \<Rightarrow> 'r option \<Rightarrow> 'r tool_seam \<Rightarrow> pump_verdict \<times> 'r tool_seam" where
  "take_call cf own i params request s =
     (case retry_token params of
        Some token \<Rightarrow> take_retry cf token i params request s
      | None \<Rightarrow> (Forward (Request i TOOLS_CALL_METHOD params), open_call cf own i params request s))"

definition cancel_call :: "jobj option \<Rightarrow> 'r tool_seam \<Rightarrow> pump_verdict \<times> 'r tool_seam" where
  "cancel_call params s =
     (let d = params_of params; target = key (dget d REQUEST_ID); rpc_frame = Notification CANCELLED_METHOD params in
      case find (\<lambda>c. target \<in> tc_ids (ts_call s c)) (map snd (ts_calls s @ ts_waiting s)) of
        None \<Rightarrow> (Forward rpc_frame, s)
      | Some c \<Rightarrow>
          let concluded = tc_finished (ts_call s c); s1 = end_call c True s; original = call_key s1 c in
          if concluded then (Hide, s1)
          else
            let s2 = start_task (ForgetCancelled original)
                       (s1\<lparr>ts_cancelled := AList.update original c (ts_cancelled s1)\<rparr>)
            in (if target = original then Forward rpc_frame
                else Forward (Notification CANCELLED_METHOD
                       (Some (AList.update REQUEST_ID (rid_json (tc_original_id (ts_call s2 c))) d))), s2))"

definition take_answer :: "tool_config \<Rightarrow> pystr \<Rightarrow> rpc_frame \<Rightarrow> 'r tool_seam \<Rightarrow> 'r tool_seam" where
  "take_answer cf rid f s =
     (case map_of (ts_pending s) rid of
        None \<Rightarrow> s
      | Some (p, c) \<Rightarrow> settle p (decision (cf_lib cf) f) (s\<lparr>ts_pending := AList.delete rid (ts_pending s)\<rparr>))"

definition inbound ::
  "tool_config \<Rightarrow> pystr \<Rightarrow> rpc_frame \<Rightarrow> 'r option \<Rightarrow> 'r tool_seam \<Rightarrow> pump_verdict \<times> 'r tool_seam" where
  "inbound cf own f request s =
     (case f of
        Request i meth params \<Rightarrow>
          if meth \<in> set HANDSHAKE_METHODS then
            (Forward f, read_handshake (cf_mcp cf) meth params (s\<lparr>ts_handshake_id := Some i\<rparr>))
          else if meth = TOOLS_CALL_METHOD then take_call cf own i params request s
          else (Forward f, s)
      | Response (RidStr rid) result \<Rightarrow>
          if starts_with ID_PREFIX rid then (Hide, take_answer cf rid f s) else (Forward f, s)
      | Error (Some (RidStr rid)) e \<Rightarrow>
          if starts_with ID_PREFIX rid then (Hide, take_answer cf rid f s) else (Forward f, s)
      | Notification meth params \<Rightarrow>
          if meth = CANCELLED_METHOD then cancel_call params s else (Forward f, s)
      | _ \<Rightarrow> (Forward f, s))"

section \<open>Outbound frames, tasks and the end of the connection\<close>

definition take_final :: "rid option \<Rightarrow> rpc_frame \<Rightarrow> 'r tool_seam \<Rightarrow> rpc_frame option \<times> 'r tool_seam" where
  "take_final i f s =
     (let k = opt_rid_key i in
      if map_of (ts_cancelled s) k \<noteq> None then (None, s\<lparr>ts_cancelled := AList.delete k (ts_cancelled s)\<rparr>)
      else case map_of (ts_calls s) k of
        None \<Rightarrow> (Some f, s)
      | Some c \<Rightarrow>
          finish c f (upd_call c (\<lambda>t. t\<lparr>tc_finished := True\<rparr>) (s\<lparr>ts_calls := AList.delete k (ts_calls s)\<rparr>)))"

definition outbound :: "tool_config \<Rightarrow> rpc_frame \<Rightarrow> 'r tool_seam \<Rightarrow> rpc_frame option \<times> 'r tool_seam" where
  "outbound cf f s =
     (case f of
        Response i result \<Rightarrow>
          if ts_handshake_id s = Some i then
            (Some (Response i (declare_capabilities (cf_declares cf) result)), s)
          else take_final (Some i) f s
      | Error i e \<Rightarrow> take_final i f s
      | _ \<Rightarrow> (Some f, s))"

definition forget_cancelled :: "idkey \<Rightarrow> 'r tool_seam \<Rightarrow> 'r tool_seam" where
  "forget_cancelled k s = s\<lparr>ts_cancelled := AList.delete k (ts_cancelled s)\<rparr>"

fun end_calls :: "nat list \<Rightarrow> 'r tool_seam \<Rightarrow> 'r tool_seam" where
  "end_calls [] s = s"
| "end_calls (c # cs) s = end_calls cs (end_call c True s)"

fun close_rounds :: "(pystr \<times> nat \<times> round) list \<Rightarrow> 'r tool_seam \<Rightarrow> 'r tool_seam" where
  "close_rounds [] s = s"
| "close_rounds ((t, c, out) # rs) s =
     close_rounds rs (upd_call c (\<lambda>t. t\<lparr>tc_ended := True\<rparr>) (settle_all (map snd (rd_awaiting out)) s))"

definition tool_on_close :: "'r tool_seam \<Rightarrow> 'r tool_seam" where
  "tool_on_close s =
     (let s1 = (settle_all (map (\<lambda>(i, p, c). p) (ts_pending s)) s)\<lparr>ts_pending := []\<rparr>;
          s2 = end_calls (map snd (ts_calls s1 @ ts_waiting s1)) s1;
          s3 = close_rounds (ts_rounds s2) s2
      in s3\<lparr>ts_rounds := [], ts_sessions := [], ts_idle := [], ts_cancelled := []\<rparr>)"

end
