(* ===== verification/McpToolRun.thy ===== *)
theory McpToolRun
  imports McpTool
begin

text \<open>
  The runs of the tool side of the MCP binding: any interleaving of frames from the peer, frames from the session,
  attempts and outcomes of the handlers, the rounds and timers that are due, a broken connection and its end. The
  log lists what the peer and the handlers see. \<open>evolves\<close> is what every operation keeps of the objects.
\<close>

section \<open>Runs\<close>

datatype entry =
    Received rpc_frame
  | Attempted nat jobj nat "pystr option"
  | Answered nat response
  | Issued pystr
  | Closed

text \<open>A secret of 32 random bytes: not drawn before, and presented by nobody before it is issued.\<close>

definition token_fresh :: "entry list \<Rightarrow> pystr \<Rightarrow> bool" where
  "token_fresh log t \<longleftrightarrow> Issued t \<notin> set log \<and>
     (\<forall>i params. Received (Request i TOOLS_CALL_METHOD params) \<in> set log \<longrightarrow> retry_token params \<noteq> Some t)"

text \<open>A cell that holds a call: its creation gave it a numbering of its own.\<close>

definition is_call :: "'r tool_seam \<Rightarrow> nat \<Rightarrow> bool" where
  "is_call s c \<longleftrightarrow> tc_own_numbering (ts_call s c) \<noteq> 0"

definition attempt_entry :: "nat \<Rightarrow> jobj \<Rightarrow> binding_error + attempt_wait \<Rightarrow> entry list" where
  "attempt_entry c event r = (case r of Inr (Awaiting p rid) \<Rightarrow> [Attempted c event p rid] | _ \<Rightarrow> [])"

text \<open>The outbound pump: what the hook lets through goes out after it.\<close>

definition pump_outbound :: "tool_config \<Rightarrow> rpc_frame \<Rightarrow> 'r tool_seam \<Rightarrow> 'r tool_seam" where
  "pump_outbound cf f s =
     (case outbound cf f s of (None, s') \<Rightarrow> s' | (Some g, s') \<Rightarrow> snd (send_frame g None s'))"

inductive tool_run :: "tool_config \<Rightarrow> entry list \<Rightarrow> 'r tool_seam \<Rightarrow> bool" for cf where
  start: "tool_run cf [] new_tool_seam"
| inbound: "tool_run cf log s \<Longrightarrow> tool_run cf (log @ [Received f]) (snd (inbound cf own f request s))"
| outbound: "tool_run cf log s \<Longrightarrow> tool_run cf log (pump_outbound cf f s)"
| negotiate: "tool_run cf log s \<Longrightarrow> is_call s c \<Longrightarrow> tool_run cf log (snd (negotiate_call cf c offered s))"
| attempt: "tool_run cf log s \<Longrightarrow> is_call s c \<Longrightarrow> call_send_attempt cf c event s = (r, s') \<Longrightarrow>
     tool_run cf (log @ attempt_entry c event r) s'"
| answer: "tool_run cf log s \<Longrightarrow> Attempted c event p rid \<in> set log \<Longrightarrow>
     attempt_answer cf c event p rid s = (r, s') \<Longrightarrow> tool_run cf (log @ [Answered p r]) s'"
| outcome: "tool_run cf log s \<Longrightarrow> is_call s c \<Longrightarrow> tool_run cf log (snd (call_send_outcome cf c event s))"
| round: "tool_run cf log s \<Longrightarrow> EndRound c \<in> set (ts_tasks s) \<Longrightarrow>
     token_fresh log (round_token (cf_instance cf) raw) \<Longrightarrow>
     tool_run cf (log @ [Issued (round_token (cf_instance cf) raw)])
       (end_round cf raw c (s\<lparr>ts_tasks := remove1 (EndRound c) (ts_tasks s)\<rparr>))"
| forget: "tool_run cf log s \<Longrightarrow> ForgetCancelled k \<in> set (ts_tasks s) \<Longrightarrow>
     tool_run cf log (forget_cancelled k (s\<lparr>ts_tasks := remove1 (ForgetCancelled k) (ts_tasks s)\<rparr>))"
| break: "tool_run cf log s \<Longrightarrow> tool_run cf log (s\<lparr>ts_open := False\<rparr>)"
| close: "tool_run cf log s \<Longrightarrow> tool_run cf (log @ [Closed]) (tool_on_close s)"

section \<open>What every operation keeps\<close>

text \<open>The members of a call and of an audit session that are written once.\<close>

definition call_ident :: "'r tool_call \<Rightarrow>
    rid \<times> bool \<times> audit_capability option \<times> nat option \<times> pystr \<times> bool \<times> nat" where
  "call_ident t = (tc_original_id t, tc_modern t, tc_host_capability t, tc_audit t, tc_own_session_id t,
     tc_task_augmented t, tc_own_numbering t)"

definition audit_ident :: "audit_session \<Rightarrow> pystr \<times> audit_capability option \<times> nat" where
  "audit_ident x = (as_session_id x, as_host_capability x, as_numbering x)"

definition awaits :: "'r tool_seam \<Rightarrow> nat \<Rightarrow> pystr \<Rightarrow> nat \<Rightarrow> bool" where
  "awaits s c eid p \<longleftrightarrow> (eid, p) \<in> set (tc_buffered_awaiting (ts_call s c)) \<or>
     (\<exists>out. tc_round (ts_call s c) = Some out \<and> (eid, p) \<in> set (rd_awaiting out)) \<or>
     (\<exists>t out. (t, c, out) \<in> set (ts_rounds s) \<and> (eid, p) \<in> set (rd_awaiting out))"

definition token_out :: "'r tool_seam \<Rightarrow> pystr \<Rightarrow> bool" where
  "token_out s t \<longleftrightarrow> (\<exists>x. (t, x) \<in> set (ts_rounds s))"

definition evolves :: "pystr set \<Rightarrow> 'r tool_seam \<Rightarrow> 'r tool_seam \<Rightarrow> bool" where
  "evolves N s s' \<longleftrightarrow> ts_fresh s' = ts_fresh s \<and>
     (\<forall>c. call_ident (ts_call s' c) = call_ident (ts_call s c)) \<and>
     (\<forall>a. audit_ident (ts_audit s' a) = audit_ident (ts_audit s a)) \<and>
     (\<forall>p r. ts_response s p = Some r \<longrightarrow> ts_response s' p = Some r) \<and>
     (\<forall>p r. ts_response s' p = Some r \<longrightarrow> ts_response s p = Some r \<or> r = Unavailable) \<and>
     (\<forall>c eid p. awaits s' c eid p \<longrightarrow> awaits s c eid p) \<and>
     set (ts_pending s') \<subseteq> set (ts_pending s) \<and> set (ts_sessions s') \<subseteq> set (ts_sessions s) \<and>
     (\<forall>t. token_out s' t \<longrightarrow> token_out s t \<or> t \<in> N)"

lemma evolves_refl: "evolves N s s"
  by (simp add: evolves_def)

lemma evolvesD:
  assumes "evolves N s s'"
  shows "ts_fresh s' = ts_fresh s" "call_ident (ts_call s' c) = call_ident (ts_call s c)"
    "audit_ident (ts_audit s' a) = audit_ident (ts_audit s a)"
    "ts_response s p = Some r \<Longrightarrow> ts_response s' p = Some r"
    "ts_response s' p = Some r \<Longrightarrow> ts_response s p = Some r \<or> r = Unavailable"
    "awaits s' c eid p \<Longrightarrow> awaits s c eid p"
    "x \<in> set (ts_pending s') \<Longrightarrow> x \<in> set (ts_pending s)"
    "y \<in> set (ts_sessions s') \<Longrightarrow> y \<in> set (ts_sessions s)"
    "token_out s' t \<Longrightarrow> token_out s t \<or> t \<in> N"
  using assms unfolding evolves_def by blast+

lemma evolvesI:
  assumes "ts_fresh s' = ts_fresh s" "\<And>c. call_ident (ts_call s' c) = call_ident (ts_call s c)"
    "\<And>a. audit_ident (ts_audit s' a) = audit_ident (ts_audit s a)"
    "\<And>p r. ts_response s p = Some r \<Longrightarrow> ts_response s' p = Some r"
    "\<And>p r. ts_response s' p = Some r \<Longrightarrow> ts_response s p = Some r \<or> r = Unavailable"
    "\<And>c eid p. awaits s' c eid p \<Longrightarrow> awaits s c eid p"
    "\<And>x. x \<in> set (ts_pending s') \<Longrightarrow> x \<in> set (ts_pending s)"
    "\<And>y. y \<in> set (ts_sessions s') \<Longrightarrow> y \<in> set (ts_sessions s)"
    "\<And>t. token_out s' t \<Longrightarrow> token_out s t \<or> t \<in> N"
  shows "evolves N s s'"
  using assms unfolding evolves_def by (simp add: subset_iff)

lemma evolves_trans:
  assumes a: "evolves N s t" and b: "evolves N t u"
  shows "evolves N s u"
proof (rule evolvesI)
  note A = evolvesD [OF a] and B = evolvesD [OF b]
  show "ts_fresh u = ts_fresh s" "call_ident (ts_call u c) = call_ident (ts_call s c)"
    "audit_ident (ts_audit u x) = audit_ident (ts_audit s x)" for c x
    using A(1-3) B(1-3) by simp_all
  show "ts_response s p = Some r \<Longrightarrow> ts_response u p = Some r" for p r using A(4) B(4) by blast
  show "ts_response u p = Some r \<Longrightarrow> ts_response s p = Some r \<or> r = Unavailable" for p r using A(5) B(5) by blast
  show "awaits u c eid p \<Longrightarrow> awaits s c eid p" for c eid p using A(6) B(6) by blast
  show "x \<in> set (ts_pending u) \<Longrightarrow> x \<in> set (ts_pending s)" for x using A(7) B(7) by blast
  show "y \<in> set (ts_sessions u) \<Longrightarrow> y \<in> set (ts_sessions s)" for y using A(8) B(8) by blast
  show "token_out u x \<Longrightarrow> token_out s x \<or> x \<in> N" for x using A(9) B(9) by blast
qed

text \<open>No round is out that was not, but under a token of \<open>N\<close>.\<close>

named_theorems evo \<open>an operation evolves the objects\<close>

text \<open>Fields outside the objects are free; the dictionaries of rounds and pending attempts only lose entries.\<close>

lemma evo_fields [evo]:
  "evolves N s0 s \<Longrightarrow> evolves N s0 (s\<lparr>ts_handshake_id := a\<rparr>)"
  "evolves N s0 s \<Longrightarrow> evolves N s0 (s\<lparr>ts_handshake_seen := b\<rparr>)"
  "evolves N s0 s \<Longrightarrow> evolves N s0 (s\<lparr>ts_handshake_capability := d, ts_handshake_seen := b\<rparr>)"
  "evolves N s0 s \<Longrightarrow> evolves N s0 (s\<lparr>ts_calls := e\<rparr>)"
  "evolves N s0 s \<Longrightarrow> evolves N s0 (s\<lparr>ts_calls := e, ts_waiting := f\<rparr>)"
  "evolves N s0 s \<Longrightarrow> evolves N s0 (s\<lparr>ts_idle := g\<rparr>)"
  "evolves N s0 s \<Longrightarrow> evolves N s0 (s\<lparr>ts_waiting := f\<rparr>)"
  "evolves N s0 s \<Longrightarrow> evolves N s0 (s\<lparr>ts_cancelled := i\<rparr>)"
  "evolves N s0 s \<Longrightarrow> evolves N s0 (s\<lparr>ts_next_id := n\<rparr>)"
  "evolves N s0 s \<Longrightarrow> evolves N s0 (s\<lparr>ts_tasks := j\<rparr>)"
  "evolves N s0 s \<Longrightarrow> evolves N s0 (s\<lparr>ts_open := b\<rparr>)"
  "evolves N s0 s \<Longrightarrow> evolves N s0 (s\<lparr>ts_sent := k\<rparr>)"
  by (simp_all add: evolves_def awaits_def token_out_def)

lemma evo_pending [evo]:
  "evolves N s0 s \<Longrightarrow> set xs \<subseteq> set (ts_pending s) \<Longrightarrow> evolves N s0 (s\<lparr>ts_pending := xs\<rparr>)"
  by (simp add: evolves_def awaits_def token_out_def) blast

lemma evo_sessions [evo]:
  "evolves N s0 s \<Longrightarrow> set h \<subseteq> set (ts_sessions s) \<Longrightarrow> evolves N s0 (s\<lparr>ts_sessions := h\<rparr>)"
  by (simp add: evolves_def awaits_def token_out_def) blast

lemma evo_rounds [evo]:
  "evolves N s0 s \<Longrightarrow> set xs \<subseteq> set (ts_rounds s) \<Longrightarrow> evolves N s0 (s\<lparr>ts_rounds := xs\<rparr>)"
  by (rule evolves_trans, assumption) (auto simp: evolves_def awaits_def token_out_def)

lemma evo_upd_call [evo]:
  assumes "evolves N s0 s" "\<And>t. call_ident (f t) = call_ident t"
    "\<And>t. set (tc_buffered_awaiting (f t)) \<subseteq> set (tc_buffered_awaiting t)"
    "\<And>t. tc_round (f t) = tc_round t \<or> tc_round (f t) = None"
  shows "evolves N s0 (upd_call c f s)"
  using assms(1)
proof (rule evolves_trans)
  have "awaits (upd_call c f s) c' eid p \<Longrightarrow> awaits s c' eid p" for c' eid p
    using assms(3) [of "ts_call s c"] assms(4) [of "ts_call s c"]
    by (cases "c' = c") (auto simp: awaits_def upd_call_def)
  then show "evolves N s (upd_call c f s)"
    using assms(2) by (simp add: evolves_def upd_call_def token_out_def)
qed

lemma evo_upd_audit [evo]:
  "evolves N s0 s \<Longrightarrow> (\<And>x. audit_ident (f x) = audit_ident x) \<Longrightarrow> evolves N s0 (upd_audit a f s)"
  by (rule evolves_trans, assumption) (simp add: evolves_def upd_audit_def awaits_def token_out_def)

lemma evo_settle [evo]: "evolves N s0 s \<Longrightarrow> evolves N s0 (settle p Unavailable s)"
  by (rule evolves_trans, assumption) (simp add: evolves_def settle_def awaits_def token_out_def)

lemma evo_settle_all [evo]: "evolves N s0 s \<Longrightarrow> evolves N s0 (settle_all ps s)"
  by (induction ps arbitrary: s) (simp_all add: evo_settle)

lemma evo_send_frame [evo]: "evolves N s0 s \<Longrightarrow> evolves N s0 (snd (send_frame f r s))"
  by (simp add: send_frame_def evo_fields)

lemma evo_start_task [evo]: "evolves N s0 s \<Longrightarrow> evolves N s0 (start_task t s)"
  by (simp add: start_task_def evo_fields)

lemma evo_schedule_round [evo]: "evolves N s0 s \<Longrightarrow> evolves N s0 (schedule_round c s)"
  by (auto simp: schedule_round_def call_ident_def intro!: evo)

lemma trim_idle_subset: "set (snd (trim_idle idle sessions)) \<subseteq> set sessions"
proof (induction idle sessions rule: trim_idle.induct)
  case (2 x xs sessions)
  then show ?case using set_delete_subset [of "fst x" sessions] by auto
qed simp

lemma evo_keep_idle [evo]: "evolves N s0 s \<Longrightarrow> evolves N s0 (keep_idle a s)"
  using trim_idle_subset [of "AList.delete (as_session_id (ts_audit s a)) (ts_idle s) @ [(as_session_id (ts_audit s a), a)]"
      "ts_sessions s"]
  by (auto simp: keep_idle_def Let_def split: prod.split intro!: evo)

lemma evo_release [evo]: "evolves N s0 s \<Longrightarrow> evolves N s0 (release c final s)"
  by (auto simp: release_def Let_def call_ident_def audit_ident_def split: option.split intro!: evo set_delete_subset)

lemma evo_drop_pending [evo]: "evolves N s0 s \<Longrightarrow> evolves N s0 (drop_pending c ps s)"
proof (induction ps arbitrary: s)
  case (Cons x ps)
  obtain rid p owner where x: "x = (rid, p, owner)" by (cases x)
  show ?case
    using Cons.prems set_delete_subset [of rid "ts_pending s"] by (auto simp: x intro!: Cons.IH evo)
qed simp

lemma evo_close_round [evo]: "evolves N s0 s \<Longrightarrow> evolves N s0 (close_round c s)"
  using set_delete_subset by (fastforce simp: close_round_def split: option.split intro!: evo)

lemma evo_clear_awaiting [evo]: "evolves N s0 s \<Longrightarrow> evolves N s0 (clear_awaiting c s)"
  by (auto simp: clear_awaiting_def call_ident_def intro!: evo)

lemma evo_end_call [evo]: "evolves N s0 s \<Longrightarrow> evolves N s0 (end_call c final s)"
  by (auto simp: end_call_def Let_def call_ident_def intro!: evo)

lemma evo_evict_waiting [evo]: "evolves N s0 s \<Longrightarrow> evolves N s0 (evict_waiting n s)"
  by (induction n arbitrary: s) (auto split: list.split intro: evo)

lemma evo_keep_waiting [evo]: "evolves N s0 s \<Longrightarrow> evolves N s0 (keep_waiting c f s)"
  unfolding keep_waiting_def Let_def by (intro evo) (auto simp: call_ident_def)

lemma evo_conclude_waiting [evo]: "evolves N s0 s \<Longrightarrow> evolves N s0 (conclude_waiting c s)"
  by (auto simp: conclude_waiting_def Let_def call_ident_def intro!: evo)

lemma evo_final_frame [evo]: "evolves N s0 s \<Longrightarrow> evolves N s0 (snd (final_frame c f s))"
  by (auto simp: final_frame_def Let_def call_ident_def split: option.split rpc_frame.split intro!: evo)

lemma evo_deliver_final [evo]: "evolves N s0 s \<Longrightarrow> evolves N s0 (snd (deliver_final c f s))"
  using evo_final_frame [of N s0 s c f]
  by (auto simp: deliver_final_def split: option.split prod.split intro!: evo)

lemma evo_finish [evo]: "evolves N s0 s \<Longrightarrow> evolves N s0 (snd (finish c f s))"
  by (auto simp: finish_def Let_def call_ident_def split: option.split intro!: evo)

lemma evo_take_final [evo]: "evolves N s0 s \<Longrightarrow> evolves N s0 (snd (take_final i f s))"
  by (auto simp: take_final_def Let_def call_ident_def split: option.split intro!: evo)

lemma evo_outbound [evo]: "evolves N s0 s \<Longrightarrow> evolves N s0 (snd (outbound cf f s))"
  by (auto simp: outbound_def split: rpc_frame.split intro!: evo)

lemma evo_pump_outbound [evo]: "evolves N s0 s \<Longrightarrow> evolves N s0 (pump_outbound cf f s)"
  using evo_outbound [of N s0 s cf f]
  by (auto simp: pump_outbound_def split: option.split prod.split intro!: evo)

lemma evo_end_calls [evo]: "evolves N s0 s \<Longrightarrow> evolves N s0 (end_calls cs s)"
  by (induction cs arbitrary: s) (simp_all add: evo_end_call)

lemma evo_close_rounds [evo]: "evolves N s0 s \<Longrightarrow> evolves N s0 (close_rounds rs s)"
proof (induction rs arbitrary: s)
  case (Cons x rs)
  then show ?case by (cases x) (auto simp: call_ident_def intro!: Cons.IH evo)
qed simp

lemma evo_on_close: "evolves N s0 s \<Longrightarrow> evolves N s0 (tool_on_close s)"
proof -
  assume "evolves N s0 s"
  let ?s1 = "(settle_all (map (\<lambda>(i, p, c). p) (ts_pending s)) s)\<lparr>ts_pending := []\<rparr>"
  let ?s2 = "end_calls (map snd (ts_calls ?s1 @ ts_waiting ?s1)) ?s1"
  let ?s3 = "close_rounds (ts_rounds ?s2) ?s2"
  have "evolves N s0 ?s3" using \<open>evolves N s0 s\<close> by (auto intro!: evo)
  then have "evolves N s0 (?s3\<lparr>ts_rounds := []\<rparr>)" by (auto intro!: evo_rounds)
  then have "evolves N s0 (?s3\<lparr>ts_rounds := [], ts_sessions := [], ts_idle := [], ts_cancelled := []\<rparr>)"
    by (simp add: evolves_def awaits_def token_out_def)
  then show ?thesis by (simp add: tool_on_close_def Let_def)
qed

lemma evo_cancel_call [evo]: "evolves N s0 s \<Longrightarrow> evolves N s0 (snd (cancel_call params s))"
  by (auto simp: cancel_call_def Let_def split: option.split intro!: evo)

lemma evo_read_handshake [evo]: "evolves N s0 s \<Longrightarrow> evolves N s0 (read_handshake mc m params s)"
  by (simp add: read_handshake_def Let_def evo_fields)

lemma evo_send_outcome [evo]: "evolves N s0 s \<Longrightarrow> evolves N s0 (send_outcome cf c event s)"
  by (auto simp: send_outcome_def Let_def call_ident_def intro!: evo)

lemma evo_negotiate [evo]: "evolves N s0 s \<Longrightarrow> evolves N s0 (snd (negotiate_call cf c offered s))"
  by (auto simp: negotiate_call_def Let_def call_ident_def intro!: evo)

lemma evo_end_round [evo]:
  assumes "evolves N s0 s" and token: "round_token (cf_instance cf) raw \<in> N"
  shows "evolves N s0 (end_round cf raw c s)"
proof -
  let ?s0 = "upd_call c (\<lambda>t. t\<lparr>tc_round_scheduled := False\<rparr>) s"
  let ?out = "\<lparr>rd_token = round_token (cf_instance cf) raw, rd_awaiting = tc_buffered_awaiting (ts_call ?s0 c)\<rparr>"
  let ?s1 = "upd_call c (\<lambda>t. t\<lparr>tc_buffered := [], tc_buffered_awaiting := [], tc_round := Some ?out,
      tc_current_id := None\<rparr>) ?s0"
  let ?s2 = "?s1\<lparr>ts_rounds := AList.update (round_token (cf_instance cf) raw) (c, ?out) (ts_rounds ?s1)\<rparr>"
  have a: "evolves N s0 ?s0" using assms by (auto simp: call_ident_def intro!: evo)
  have up: "set (AList.update t x xs) \<subseteq> insert (t, x) (set xs)" for t :: pystr and x :: "nat \<times> round" and xs
    by (induction xs) auto
  then have "awaits ?s2 c' eid p \<Longrightarrow> awaits ?s0 c' eid p" for c' eid p
    by (cases "c' = c") (fastforce simp: awaits_def upd_call_def)+
  moreover have "token_out ?s2 t \<Longrightarrow> token_out ?s0 t \<or> t \<in> N" for t
    using token up [of "round_token (cf_instance cf) raw" "(c, ?out)" "ts_rounds s"]
    by (auto simp: upd_call_def token_out_def)
  ultimately have "evolves N ?s0 ?s2"
    by (simp add: evolves_def upd_call_def call_ident_def)
  from evolves_trans [OF a this] show ?thesis
    using a by (auto simp: end_round_def Let_def split: option.split intro!: evo_send_frame)
qed

lemma evo_accepted:
  "evolves N s0 s \<Longrightarrow> evolves N s0 (case r of
     Accept a \<Rightarrow> if b then s else upd_call c (\<lambda>t. t\<lparr>tc_accepted_open := X t\<rparr>) s | _ \<Rightarrow> s)"
  by (auto simp: call_ident_def split: response.split intro!: evo_upd_call)

lemma evo_attempt_answer [evo]:
  assumes "evolves N s0 s"
  shows "evolves N s0 (snd (attempt_answer cf c event p rid s))"
proof -
  let ?s1 = "if ts_response s p = None
      then (case rid of None \<Rightarrow> settle p Unavailable s
        | Some i \<Rightarrow> (settle p Unavailable s)\<lparr>ts_pending := AList.delete i (ts_pending s)\<rparr>) else s"
  have sub: "set (AList.delete i (ts_pending s)) \<subseteq> set (ts_pending (settle p Unavailable s))" for i
    by (simp add: settle_def set_delete_subset)
  have "evolves N s0 ?s1"
    using assms by (auto split: option.split intro!: evo_settle evo_pending sub)
  then show ?thesis
    unfolding attempt_answer_def Let_def snd_conv by (rule evo_accepted)
qed

end
