(* ===== verification/McpToolAnswers.thy ===== *)
theory McpToolAnswers
  imports McpToolRun
begin

text \<open>
  Where the answers of attempts come from: an invariant of every run says that an attempt is unanswered,
  \<open>unavailable\<close>, or answered by a frame the peer sent for it, and that its first answer stands.
\<close>

section \<open>Answers that a rpc_frame of the peer carries\<close>

text \<open>The peer's frame \<open>f\<close> answers the attempt of \<open>event\<close> in the call \<open>c\<close> with \<open>r\<close>: the result of its own
  \<open>audit/attempt\<close>, or a retry that names the audit session of the call and the id of the event.\<close>

definition carries ::
  "tool_config \<Rightarrow> 'r tool_seam \<Rightarrow> nat \<Rightarrow> jobj \<Rightarrow> pystr option \<Rightarrow> rpc_frame \<Rightarrow> response \<Rightarrow> bool" where
  "carries cf s c event rid f r \<longleftrightarrow>
     (case rid of
        Some i \<Rightarrow> (\<exists>result. f = Response (RidStr i) result \<and> parse_response (cf_lib cf) (JDict result) = Some r)
      | None \<Rightarrow> (\<exists>i params m a rs. f = Request i TOOLS_CALL_METHOD params \<and>
          parse_request_meta (cf_lib cf) (dget (meta_of (JDict (params_of params))) EXTENSION_ID) = Some m \<and>
          tc_audit (ts_call s c) = Some a \<and> rm_session_id m = as_session_id (ts_audit s a) \<and>
          rm_responses m = Some rs \<and> map_of rs (event_key cf event) = Some r))"

definition vouched :: "tool_config \<Rightarrow> entry list \<Rightarrow> 'r tool_seam \<Rightarrow> nat \<Rightarrow> response \<Rightarrow> bool" where
  "vouched cf log s p r \<longleftrightarrow> (\<exists>c event rid f. Attempted c event p rid \<in> set log \<and> Received f \<in> set log \<and>
     carries cf s c event rid f r)"

definition answers_inv :: "tool_config \<Rightarrow> entry list \<Rightarrow> 'r tool_seam \<Rightarrow> bool" where
  "answers_inv cf log s \<longleftrightarrow>
     (\<forall>c. is_call s c \<longrightarrow> c < ts_fresh s) \<and>
     (\<forall>c a. tc_audit (ts_call s c) = Some a \<longrightarrow> a < ts_fresh s) \<and>
     (\<forall>c event p rid. Attempted c event p rid \<in> set log \<longrightarrow> is_call s c \<and> p < ts_fresh s) \<and>
     (\<forall>c eid p. awaits s c eid p \<longrightarrow> (\<exists>event. Attempted c event p None \<in> set log \<and> event_key cf event = eid)) \<and>
     (\<forall>i p c. (i, p, c) \<in> set (ts_pending s) \<longrightarrow> (\<exists>event. Attempted c event p (Some i) \<in> set log)) \<and>
     (\<forall>p r. ts_response s p = Some r \<longrightarrow> r = Unavailable \<or> vouched cf log s p r) \<and>
     (\<forall>p r. Answered p r \<in> set log \<longrightarrow> p < ts_fresh s \<and> ts_response s p = Some r) \<and>
     (\<forall>sid a. (sid, a) \<in> set (ts_sessions s) \<longrightarrow> a < ts_fresh s)"

lemma answers_invI:
  assumes "\<And>c. is_call s c \<Longrightarrow> c < ts_fresh s"
    "\<And>c a. tc_audit (ts_call s c) = Some a \<Longrightarrow> a < ts_fresh s"
    "\<And>c event p rid. Attempted c event p rid \<in> set log \<Longrightarrow> is_call s c \<and> p < ts_fresh s"
    "\<And>c eid p. awaits s c eid p \<Longrightarrow> \<exists>event. Attempted c event p None \<in> set log \<and> event_key cf event = eid"
    "\<And>i p c. (i, p, c) \<in> set (ts_pending s) \<Longrightarrow> \<exists>event. Attempted c event p (Some i) \<in> set log"
    "\<And>p r. ts_response s p = Some r \<Longrightarrow> r = Unavailable \<or> vouched cf log s p r"
    "\<And>p r. Answered p r \<in> set log \<Longrightarrow> p < ts_fresh s \<and> ts_response s p = Some r"
    "\<And>sid a. (sid, a) \<in> set (ts_sessions s) \<Longrightarrow> a < ts_fresh s"
  shows "answers_inv cf log s"
  using assms unfolding answers_inv_def by blast

lemma answers_invD:
  assumes "answers_inv cf log s"
  shows "is_call s c \<Longrightarrow> c < ts_fresh s"
    "tc_audit (ts_call s c) = Some a \<Longrightarrow> a < ts_fresh s"
    "Attempted c event p rid \<in> set log \<Longrightarrow> is_call s c \<and> p < ts_fresh s"
    "awaits s c eid p \<Longrightarrow> \<exists>event. Attempted c event p None \<in> set log \<and> event_key cf event = eid"
    "(i, p, c) \<in> set (ts_pending s) \<Longrightarrow> \<exists>event. Attempted c event p (Some i) \<in> set log"
    "ts_response s p = Some r \<Longrightarrow> r = Unavailable \<or> vouched cf log s p r"
    "Answered p r \<in> set log \<Longrightarrow> p < ts_fresh s \<and> ts_response s p = Some r"
    "(sid, a) \<in> set (ts_sessions s) \<Longrightarrow> a < ts_fresh s"
  using assms unfolding answers_inv_def by blast+

lemma carries_ident:
  assumes "carries cf s c event rid f r" "call_ident (ts_call s' c) = call_ident (ts_call s c)"
    "\<And>a. tc_audit (ts_call s c) = Some a \<Longrightarrow> audit_ident (ts_audit s' a) = audit_ident (ts_audit s a)"
  shows "carries cf s' c event rid f r"
  using assms by (fastforce simp: carries_def call_ident_def audit_ident_def split: option.splits)

lemma vouched_ident:
  assumes "vouched cf log s p r" "set log \<subseteq> set log'"
    "\<And>c event rid. Attempted c event p rid \<in> set log \<Longrightarrow> call_ident (ts_call s' c) = call_ident (ts_call s c)"
    "\<And>c a. tc_audit (ts_call s c) = Some a \<Longrightarrow> audit_ident (ts_audit s' a) = audit_ident (ts_audit s a)"
  shows "vouched cf log' s' p r"
proof -
  obtain c event rid f where f: "Attempted c event p rid \<in> set log" "Received f \<in> set log"
    "carries cf s c event rid f r" using assms(1) by (auto simp: vouched_def)
  from f(3) assms(3) [OF f(1)] assms(4) have "carries cf s' c event rid f r" by (rule carries_ident)
  with f(1,2) assms(2) show ?thesis unfolding vouched_def by blast
qed

text \<open>An operation that evolves the objects keeps the invariant, and so does a longer log of frames received.\<close>

lemma answers_inv_evolves:
  assumes inv: "answers_inv cf log s" and e: "evolves N s s'"
  shows "answers_inv cf log s'"
proof (rule answers_invI)
  note D = answers_invD [OF inv] and E = evolvesD [OF e]
  have same: "is_call s' c = is_call s c" "tc_audit (ts_call s' c) = tc_audit (ts_call s c)" for c
    using E(2) [of c] by (simp_all add: is_call_def call_ident_def)
  have v: "vouched cf log s p r \<Longrightarrow> vouched cf log s' p r" for p r
    by (erule vouched_ident) (simp_all add: E)
  show "is_call s' c \<Longrightarrow> c < ts_fresh s'" for c using D(1) by (simp add: same E)
  show "tc_audit (ts_call s' c) = Some a \<Longrightarrow> a < ts_fresh s'" for c a using D(2) by (simp add: same E)
  show "Attempted c event p rid \<in> set log \<Longrightarrow> is_call s' c \<and> p < ts_fresh s'" for c event p rid
    using D(3) by (simp add: same E)
  show "awaits s' c eid p \<Longrightarrow> \<exists>event. Attempted c event p None \<in> set log \<and> event_key cf event = eid" for c eid p
    using D(4) E(6) by blast
  show "(i, p, c) \<in> set (ts_pending s') \<Longrightarrow> \<exists>event. Attempted c event p (Some i) \<in> set log" for i p c
    using D(5) E(7) by blast
  show "ts_response s' p = Some r \<Longrightarrow> r = Unavailable \<or> vouched cf log s' p r" for p r
    using D(6) E(5) v by blast
  show "Answered p r \<in> set log \<Longrightarrow> p < ts_fresh s' \<and> ts_response s' p = Some r" for p r
    using D(7) E(4) by (simp add: E(1))
  show "(sid, a) \<in> set (ts_sessions s') \<Longrightarrow> a < ts_fresh s'" for sid a
    using D(8) E(8) unfolding E(1) by blast
qed

text \<open>A longer log keeps it, as far as its new entries say nothing of attempts.\<close>

lemma answers_inv_log:
  assumes inv: "answers_inv cf log s" and new: "\<forall>c event p rid r. Attempted c event p rid \<notin> set es \<and> Answered p r \<notin> set es"
  shows "answers_inv cf (log @ es) s"
proof (rule answers_invI)
  note D = answers_invD [OF inv]
  have v: "vouched cf log s p r \<Longrightarrow> vouched cf (log @ es) s p r" for p r
    by (erule vouched_ident) simp_all
  show "ts_response s p = Some r \<Longrightarrow> r = Unavailable \<or> vouched cf (log @ es) s p r" for p r
    using D(6) v by blast
qed (use answers_invD [OF inv] new in fastforce)+

section \<open>The operations that answer, ask and open\<close>

lemma vouched_cong:
  assumes "ts_audit s' = ts_audit s" "\<And>c. tc_audit (ts_call s' c) = tc_audit (ts_call s c)"
  shows "vouched cf log s' p r = vouched cf log s p r"
proof -
  have "carries cf s' c event rid f r = carries cf s c event rid f r" for c event rid f
    using assms by (cases rid) (simp_all add: carries_def)
  then show ?thesis by (simp add: vouched_def)
qed

lemma settle_fields [simp]:
  "ts_call (settle p r s) = ts_call s" "ts_audit (settle p r s) = ts_audit s" "ts_fresh (settle p r s) = ts_fresh s"
  "ts_pending (settle p r s) = ts_pending s" "ts_rounds (settle p r s) = ts_rounds s"
  "ts_calls (settle p r s) = ts_calls s" "ts_waiting (settle p r s) = ts_waiting s"
  "ts_sessions (settle p r s) = ts_sessions s" "ts_idle (settle p r s) = ts_idle s"
  "ts_tasks (settle p r s) = ts_tasks s" "ts_sent (settle p r s) = ts_sent s" "ts_open (settle p r s) = ts_open s"
  "ts_cancelled (settle p r s) = ts_cancelled s"
  by (simp_all add: settle_def)

lemma vouched_settle [simp]: "vouched cf log (settle q x s) p r = vouched cf log s p r"
  by (rule vouched_cong) simp_all

lemma awaits_settle [simp]: "awaits (settle q x s) c eid p = awaits s c eid p"
  by (simp add: awaits_def)

lemma answers_inv_settle:
  assumes inv: "answers_inv cf log s" and r: "r = Unavailable \<or> vouched cf log s p r"
  shows "answers_inv cf log (settle p r s)"
proof (rule answers_invI)
  note D = answers_invD [OF inv]
  show "ts_response (settle p r s) q = Some x \<Longrightarrow> x = Unavailable \<or> vouched cf log (settle p r s) q x" for q x
    unfolding vouched_settle using D(6) r by (auto simp: settle_def split: if_splits)
  show "Answered q x \<in> set log \<Longrightarrow> q < ts_fresh (settle p r s) \<and> ts_response (settle p r s) q = Some x" for q x
    using D(7) [of q x] by (auto simp: settle_def)
qed (use answers_invD [OF inv] in \<open>auto simp: is_call_def\<close>)

lemma answers_inv_settle_round:
  assumes "answers_inv cf log s"
    "\<And>eid p r. (eid, p) \<in> set ps \<Longrightarrow> map_of rs eid = Some r \<Longrightarrow> vouched cf log s p r"
  shows "answers_inv cf log (settle_round rs ps s)"
  using assms
proof (induction rs ps s rule: settle_round.induct)
  case (2 rs eid p ps s)
  let ?r = "case map_of rs eid of Some r \<Rightarrow> r | None \<Rightarrow> Unavailable"
  have "answers_inv cf log (settle p ?r s)"
    using 2(2,3) by (intro answers_inv_settle) (auto split: option.split)
  moreover have "vouched cf log (settle p ?r s) q x" if "(e, q) \<in> set ps" "map_of rs e = Some x" for e q x
    using 2(3) [of e q x] that by simp
  ultimately show ?case using 2(1) by simp
qed simp

lemma settle_round_fields [simp]:
  "ts_call (settle_round rs ps s) = ts_call s" "ts_audit (settle_round rs ps s) = ts_audit s"
  "ts_fresh (settle_round rs ps s) = ts_fresh s" "ts_pending (settle_round rs ps s) = ts_pending s"
  "ts_rounds (settle_round rs ps s) = ts_rounds s" "ts_calls (settle_round rs ps s) = ts_calls s"
  "ts_waiting (settle_round rs ps s) = ts_waiting s" "ts_sessions (settle_round rs ps s) = ts_sessions s"
  "ts_idle (settle_round rs ps s) = ts_idle s" "ts_tasks (settle_round rs ps s) = ts_tasks s"
  "ts_sent (settle_round rs ps s) = ts_sent s" "ts_open (settle_round rs ps s) = ts_open s"
  "ts_cancelled (settle_round rs ps s) = ts_cancelled s"
  by (induction rs ps s rule: settle_round.induct) simp_all

lemma settle_all_fields [simp]:
  "ts_call (settle_all ps s) = ts_call s" "ts_audit (settle_all ps s) = ts_audit s"
  "ts_fresh (settle_all ps s) = ts_fresh s" "ts_pending (settle_all ps s) = ts_pending s"
  "ts_rounds (settle_all ps s) = ts_rounds s" "ts_calls (settle_all ps s) = ts_calls s"
  "ts_waiting (settle_all ps s) = ts_waiting s" "ts_sessions (settle_all ps s) = ts_sessions s"
  "ts_idle (settle_all ps s) = ts_idle s" "ts_tasks (settle_all ps s) = ts_tasks s"
  "ts_sent (settle_all ps s) = ts_sent s" "ts_open (settle_all ps s) = ts_open s"
  "ts_cancelled (settle_all ps s) = ts_cancelled s"
  by (induction ps s rule: settle_all.induct) simp_all

text \<open>A retry answers the round it names, with what it carries for the session of the round's call.\<close>

lemma retry_vouched:
  assumes inv: "answers_inv cf log s" and round: "(t, c, out) \<in> set (ts_rounds s)"
    and f: "Received (Request i TOOLS_CALL_METHOD params) \<in> set log"
    and p: "(eid, p) \<in> set (rd_awaiting out)" "map_of (retry_responses cf s c params) eid = Some r"
  shows "vouched cf log s p r"
proof -
  have "awaits s c eid p" using round p(1) by (auto simp: awaits_def)
  then obtain event where e: "Attempted c event p None \<in> set log" "event_key cf event = eid"
    using answers_invD(4) [OF inv] by blast
  have "carries cf s c event None (Request i TOOLS_CALL_METHOD params) r"
    using p(2) e(2) by (auto simp: carries_def retry_responses_def split: option.splits if_splits)
  with e(1) f show ?thesis unfolding vouched_def by blast
qed

lemma answers_inv_accept_retry:
  assumes inv: "answers_inv cf log s" and round: "(t, c, out) \<in> set (ts_rounds s)"
    and f: "Received (Request i TOOLS_CALL_METHOD params) \<in> set log"
  shows "answers_inv cf log (accept_retry cf c out i params request (s\<lparr>ts_rounds := AList.delete t (ts_rounds s)\<rparr>))"
proof -
  let ?s0 = "s\<lparr>ts_rounds := AList.delete t (ts_rounds s)\<rparr>"
  have e0: "evolves N s ?s0" by (intro evo_rounds evolves_refl set_delete_subset)
  have rr: "retry_responses cf ?s0 c params = retry_responses cf s c params"
    by (simp add: retry_responses_def split: option.split)
  have "vouched cf log ?s0 p r" if "(eid, p) \<in> set (rd_awaiting out)" "map_of (retry_responses cf ?s0 c params) eid = Some r"
    for eid p r
    using retry_vouched [OF inv round f that(1)] that(2) vouched_cong [of ?s0 s] by (simp add: rr)
  then have "answers_inv cf log (settle_round (retry_responses cf ?s0 c params) (rd_awaiting out) ?s0)"
    by (intro answers_inv_settle_round answers_inv_evolves [OF inv e0])
  then show ?thesis
    unfolding accept_retry_def Let_def
    by (rule answers_inv_evolves) (auto simp: call_ident_def intro!: evo evolves_refl)
qed

lemma answers_inv_take_retry:
  assumes inv: "answers_inv cf log s" and f: "Received (Request i TOOLS_CALL_METHOD params) \<in> set log"
  shows "answers_inv cf log (snd (take_retry cf token i params request s))"
proof (cases "map_of (ts_rounds s) token")
  case None
  have "evolves N s (snd (take_retry cf token i params request s))"
    using evo_send_frame [OF evolves_refl [of N s]] None
    by (auto simp: take_retry_def split: prod.split) (metis snd_conv)
  then show ?thesis by (rule answers_inv_evolves [OF inv])
next
  case (Some x)
  obtain c out where x: "x = (c, out)" by (cases x)
  have "(token, c, out) \<in> set (ts_rounds s)" using Some x by (simp add: map_of_SomeD)
  note s1 = answers_inv_accept_retry [OF inv this f, of request]
  let ?s1 = "accept_retry cf c out i params request (s\<lparr>ts_rounds := AList.delete token (ts_rounds s)\<rparr>)"
  have "evolves N ?s1 (snd (take_retry cf token i params request s))"
    using evo_deliver_final [OF evolves_refl [of N ?s1]] Some x
    by (auto simp: take_retry_def Let_def evolves_refl split: prod.split option.split) (metis snd_conv)
  then show ?thesis by (rule answers_inv_evolves [OF s1])
qed

lemma answers_inv_take_answer:
  assumes inv: "answers_inv cf log s" and f: "Received f \<in> set log"
    and rid: "(\<exists>result. f = Response (RidStr rid) result) \<or> (\<exists>e. f = Error (Some (RidStr rid)) e)"
  shows "answers_inv cf log (take_answer cf rid f s)"
proof (cases "map_of (ts_pending s) rid")
  case None
  then show ?thesis using inv by (simp add: take_answer_def)
next
  case (Some x)
  obtain p c where x: "x = (p, c)" by (cases x)
  let ?s0 = "s\<lparr>ts_pending := AList.delete rid (ts_pending s)\<rparr>"
  have e0: "evolves N s ?s0" by (intro evo_pending evolves_refl set_delete_subset)
  have "(rid, p, c) \<in> set (ts_pending s)" using Some x by (simp add: map_of_SomeD)
  then obtain event where e: "Attempted c event p (Some rid) \<in> set log" using answers_invD(5) [OF inv] by blast
  have "decision (cf_lib cf) f = Unavailable \<or> carries cf s c event (Some rid) f (decision (cf_lib cf) f)"
    using rid by (auto simp: decision_def read_response_def carries_def split: option.split)
  then have "decision (cf_lib cf) f = Unavailable \<or> vouched cf log ?s0 p (decision (cf_lib cf) f)"
    using e f vouched_cong [of ?s0 s] unfolding vouched_def by auto
  then show ?thesis
    using answers_inv_settle [OF answers_inv_evolves [OF inv e0]] Some x by (simp add: take_answer_def)
qed

text \<open>A new cell is no object of the state before it.\<close>

lemma awaits_cong:
  assumes "ts_rounds s' = ts_rounds s" "tc_buffered_awaiting (ts_call s' c) = tc_buffered_awaiting (ts_call s c)"
    "tc_round (ts_call s' c) = tc_round (ts_call s c)"
  shows "awaits s' c eid p = awaits s c eid p"
  using assms by (simp add: awaits_def)

text \<open>An attempt: its wait is a new object, in the buffer of its call or under the id of its request.\<close>

lemma answers_inv_new_wait:
  assumes inv: "answers_inv cf log s" and c: "is_call s c"
    and s': "ts_fresh s' = Suc (ts_fresh s)" "ts_response s' = (ts_response s)(ts_fresh s := None)"
      "\<And>d. call_ident (ts_call s' d) = call_ident (ts_call s d)" "ts_audit s' = ts_audit s"
      "ts_sessions s' = ts_sessions s"
    and aw: "\<And>d eid p. awaits s' d eid p \<Longrightarrow> awaits s d eid p \<or>
      rid = None \<and> d = c \<and> p = ts_fresh s \<and> eid = event_key cf event"
    and pe: "\<And>i p d. (i, p, d) \<in> set (ts_pending s') \<Longrightarrow> (i, p, d) \<in> set (ts_pending s) \<or>
      rid = Some i \<and> d = c \<and> p = ts_fresh s"
  shows "answers_inv cf (log @ [Attempted c event (ts_fresh s) rid]) s'"
proof (rule answers_invI)
  let ?log = "log @ [Attempted c event (ts_fresh s) rid]"
  note D = answers_invD [OF inv]
  have same: "is_call s' d = is_call s d" "tc_audit (ts_call s' d) = tc_audit (ts_call s d)" for d
    using s'(3) [of d] by (simp_all add: is_call_def call_ident_def)
  have v: "vouched cf log s p r \<Longrightarrow> vouched cf ?log s' p r" for p r
    by (erule vouched_ident) (auto simp: s')
  show "is_call s' d \<Longrightarrow> d < ts_fresh s'" for d using D(1) [of d] by (simp add: same s')
  show "tc_audit (ts_call s' d) = Some a \<Longrightarrow> a < ts_fresh s'" for d a using D(2) [of d a] by (simp add: same s')
  show "Attempted d e p i \<in> set ?log \<Longrightarrow> is_call s' d \<and> p < ts_fresh s'" for d e p i
    using D(3) [of d e p i] c by (auto simp: same s')
  show "awaits s' d eid p \<Longrightarrow> \<exists>e. Attempted d e p None \<in> set ?log \<and> event_key cf e = eid" for d eid p
    using aw [of d eid p] D(4) [of d eid p] by auto
  show "(i, p, d) \<in> set (ts_pending s') \<Longrightarrow> \<exists>e. Attempted d e p (Some i) \<in> set ?log" for i p d
    using pe [of i p d] D(5) [of i p d] by auto
  show "ts_response s' p = Some r \<Longrightarrow> r = Unavailable \<or> vouched cf ?log s' p r" for p r
    using D(6) [of p r] v by (auto simp: s'(2) split: if_splits)
  show "Answered p r \<in> set ?log \<Longrightarrow> p < ts_fresh s' \<and> ts_response s' p = Some r" for p r
    using D(7) [of p r] by (auto simp: s'(1,2))
  show "(sid, a) \<in> set (ts_sessions s') \<Longrightarrow> a < ts_fresh s'" for sid a
    using D(8) [of sid a] by (simp add: s')
qed

lemma schedule_round_fields [simp]:
  "ts_fresh (schedule_round c s) = ts_fresh s" "ts_response (schedule_round c s) = ts_response s"
  "ts_audit (schedule_round c s) = ts_audit s" "ts_pending (schedule_round c s) = ts_pending s"
  "ts_rounds (schedule_round c s) = ts_rounds s" "ts_calls (schedule_round c s) = ts_calls s"
  "ts_waiting (schedule_round c s) = ts_waiting s" "ts_sessions (schedule_round c s) = ts_sessions s"
  "ts_idle (schedule_round c s) = ts_idle s" "ts_sent (schedule_round c s) = ts_sent s"
  "ts_open (schedule_round c s) = ts_open s"
  "ts_call (schedule_round c s) = (ts_call s)(c := (ts_call s c)\<lparr>tc_round_scheduled := True\<rparr>)"
  by (auto simp: schedule_round_def start_task_def upd_call_def)

text \<open>An operation that only creates objects nothing waits in.\<close>

lemma answers_inv_grow:
  assumes inv: "answers_inv cf log s" and fresh: "ts_fresh s \<le> ts_fresh s'"
    and resp: "\<And>p r. ts_response s' p = Some r \<Longrightarrow> ts_response s p = Some r"
      "\<And>p. p < ts_fresh s \<Longrightarrow> ts_response s' p = ts_response s p"
    and call: "\<And>c. is_call s c \<Longrightarrow> call_ident (ts_call s' c) = call_ident (ts_call s c)"
      "\<And>c. is_call s' c \<Longrightarrow> c < ts_fresh s'"
      "\<And>c a. tc_audit (ts_call s' c) = Some a \<Longrightarrow> a < ts_fresh s'"
    and audit: "\<And>a. a < ts_fresh s \<Longrightarrow> audit_ident (ts_audit s' a) = audit_ident (ts_audit s a)"
    and less: "\<And>c eid p. awaits s' c eid p \<Longrightarrow> awaits s c eid p" "set (ts_pending s') \<subseteq> set (ts_pending s)"
    and ses: "\<And>sid a. (sid, a) \<in> set (ts_sessions s') \<Longrightarrow> a < ts_fresh s'"
  shows "answers_inv cf log s'"
proof (rule answers_invI)
  note D = answers_invD [OF inv]
  have v: "vouched cf log s p r \<Longrightarrow> vouched cf log s' p r" for p r
    by (erule vouched_ident) (use D(2,3) call(1) audit in auto)
  show "Attempted c event p rid \<in> set log \<Longrightarrow> is_call s' c \<and> p < ts_fresh s'" for c event p rid
    using D(3) [of c event p rid] call(1) [of c] fresh by (auto simp: is_call_def call_ident_def)
  show "ts_response s' p = Some r \<Longrightarrow> r = Unavailable \<or> vouched cf log s' p r" for p r
    using D(6) resp(1) v by blast
  show "Answered p r \<in> set log \<Longrightarrow> p < ts_fresh s' \<and> ts_response s' p = Some r" for p r
    using D(7) [of p r] resp(2) [of p] fresh by auto
  show "awaits s' c eid p \<Longrightarrow> \<exists>event. Attempted c event p None \<in> set log \<and> event_key cf event = eid" for c eid p
    using D(4) less(1) by blast
  show "(i, p, c) \<in> set (ts_pending s') \<Longrightarrow> \<exists>event. Attempted c event p (Some i) \<in> set log" for i p c
    using D(5) less(2) by blast
qed (use call ses in blast)+

lemma delete_update_subset: "set (AList.delete k (AList.update k v xs)) \<subseteq> set xs"
  using set_update_subset [of k v xs] by (auto simp: AList.delete_eq)

lemma answers_inv_call_send_attempt:
  assumes inv: "answers_inv cf log s" and c: "is_call s c" and r: "call_send_attempt cf c event s = (r, s')"
  shows "answers_inv cf (log @ attempt_entry c event r) s'"
proof -
  let ?t = "ts_call s c" and ?p = "ts_fresh s" and ?rid = "new_seam_id (Suc (ts_next_id s))"
  have quiet: "answers_inv cf (log @ attempt_entry c event x) s" if "attempt_entry c event x = []" for x
    using inv that by simp
  show ?thesis
  proof (cases "tc_negotiated ?t \<and> \<not> tc_finished ?t \<and> \<not> tc_ended ?t")
    case False
    then have "s' = s" "attempt_entry c event r = []"
      using r by (auto simp: call_send_attempt_def send_attempt_def attempt_entry_def split: if_splits)
    then show ?thesis using quiet by simp
  next
    case go: True
    show ?thesis
    proof (cases "tc_modern ?t")
      case True
      then have s': "r = Inr (Awaiting ?p None)"
        "s' = schedule_round c (upd_call c (\<lambda>t. t\<lparr>tc_buffered := tc_buffered t @ [event],
           tc_buffered_awaiting := AList.update (event_key cf event) ?p (tc_buffered_awaiting t)\<rparr>)
           (s\<lparr>ts_fresh := Suc ?p, ts_response := (ts_response s)(?p := None)\<rparr>))"
        using go r by (auto simp: call_send_attempt_def send_attempt_def Let_def)
      show ?thesis
        unfolding s'(1) attempt_entry_def sum.case attempt_wait.case
      proof (rule answers_inv_new_wait [OF inv c])
        show "awaits s' d eid p \<Longrightarrow> awaits s d eid p \<or> None = None \<and> d = c \<and> p = ts_fresh s \<and> eid = event_key cf event"
          for d eid p
          using set_update_subset [of "event_key cf event" ?p "tc_buffered_awaiting ?t"]
          by (auto simp: s'(2) upd_call_def awaits_def split: if_splits)
      qed (auto simp: s'(2) upd_call_def call_ident_def)
    next
      case False
      let ?s2 = "s\<lparr>ts_fresh := Suc ?p, ts_response := (ts_response s)(?p := None), ts_next_id := Suc (ts_next_id s),
        ts_pending := AList.update ?rid (?p, c) (ts_pending s)\<rparr>"
      have up: "set (AList.update ?rid (?p, c) (ts_pending s)) \<subseteq> insert (?rid, ?p, c) (set (ts_pending s))"
        by (rule set_update_subset)
      have sent: "answers_inv cf (log @ [Attempted c event ?p (Some ?rid)]) (?s2\<lparr>ts_sent := x\<rparr>)" for x
        by (rule answers_inv_new_wait [OF inv c]) (use up in \<open>auto simp: awaits_def\<close>)
      have lost: "answers_inv cf log (?s2\<lparr>ts_pending := AList.delete ?rid (ts_pending ?s2)\<rparr>)"
        by (rule answers_inv_grow [OF inv])
          (use answers_invD [OF inv] delete_update_subset [of ?rid "(?p, c)" "ts_pending s"]
            in \<open>auto simp: awaits_def is_call_def less_Suc_eq split: if_splits\<close>)
      show ?thesis
        using r go False sent lost
        by (auto simp: call_send_attempt_def send_attempt_def Let_def send_frame_def attempt_entry_def split: if_splits)
    qed
  qed
qed

text \<open>A new call, and the audit session it may open, are new objects too.\<close>

lemma enter_audit_fields:
  assumes "enter_audit sid declared s = (a, s1)"
  shows "ts_call s1 = ts_call s" "ts_response s1 = ts_response s" "ts_pending s1 = ts_pending s"
    "ts_rounds s1 = ts_rounds s" "ts_calls s1 = ts_calls s" "ts_fresh s \<le> ts_fresh s1"
    "b < ts_fresh s \<Longrightarrow> audit_ident (ts_audit s1 b) = audit_ident (ts_audit s b)"
    "(\<And>x b. (x, b) \<in> set (ts_sessions s) \<Longrightarrow> b < ts_fresh s) \<Longrightarrow> a < ts_fresh s1"
    "(\<And>x b. (x, b) \<in> set (ts_sessions s) \<Longrightarrow> b < ts_fresh s) \<Longrightarrow> (x, b) \<in> set (ts_sessions s1) \<Longrightarrow> b < ts_fresh s1"
  using assms set_update_subset [of sid "ts_fresh s" "ts_sessions s"]
  by (auto simp: enter_audit_def Let_def upd_audit_def audit_ident_def less_Suc_eq split: option.splits
      dest: map_of_SomeD)

lemma answers_inv_enter_audit:
  assumes inv: "answers_inv cf log s" and e: "enter_audit sid declared s = (a, s1)"
  shows "answers_inv cf log s1"
proof -
  note D = answers_invD [OF inv] and F = enter_audit_fields [OF e]
  show ?thesis
    by (rule answers_inv_grow [OF inv F(6)])
      (use D F in \<open>auto simp: is_call_def awaits_def intro: order.strict_trans2 [OF D(1)] order.strict_trans2 [OF D(2)]\<close>)
qed

lemma answers_inv_new_call:
  assumes inv: "answers_inv cf log s"
    and t: "tc_audit t = None \<or> (\<exists>a < ts_fresh s. tc_audit t = Some a)" "tc_buffered_awaiting t = []" "tc_round t = None"
  shows "answers_inv cf log (s\<lparr>ts_call := (ts_call s)(ts_fresh s := t), ts_fresh := Suc (Suc (ts_fresh s)), ts_calls := cs\<rparr>)"
proof -
  note D = answers_invD [OF inv]
  show ?thesis
    by (rule answers_inv_grow [OF inv])
      (use D(1,2,8) t in \<open>force simp: is_call_def awaits_def less_Suc_eq split: if_splits\<close>)+
qed

lemma answers_inv_open_call:
  assumes inv: "answers_inv cf log s"
  shows "answers_inv cf log (open_call cf own i params request s)"
proof (cases "parse_request_meta (cf_lib cf) (dget (meta_of (JDict (params_of params))) EXTENSION_ID)")
  case None
  then show ?thesis
    unfolding open_call_def Let_def by (simp add: answers_inv_new_call [OF inv])
next
  case (Some m)
  let ?d = "params_of params"
  let ?declared = "if is_modern (cf_mcp cf) (JDict ?d)
    then capability_of (dget (meta_of (JDict ?d)) (mcp_capabilities_key (cf_mcp cf))) else ts_handshake_capability s"
  obtain a s1 where e: "enter_audit (rm_session_id m) ?declared s = (a, s1)" by force
  have "a < ts_fresh s1" using enter_audit_fields(8) [OF e] answers_invD(8) [OF inv] by blast
  then show ?thesis
    using Some e answers_inv_new_call [OF answers_inv_enter_audit [OF inv e]]
    unfolding open_call_def Let_def by simp
qed

section \<open>Every run keeps the invariant\<close>

lemma answers_inv_inbound:
  assumes inv: "answers_inv cf log s" and f: "Received f \<in> set log"
  shows "answers_inv cf log (snd (inbound cf own f request s))"
proof (cases f)
  case (Request i meth params)
  then show ?thesis
    using f inv answers_inv_take_retry [OF inv] answers_inv_open_call [OF inv]
      answers_inv_evolves [OF inv evo_read_handshake [OF evo_fields(1) [OF evolves_refl]]]
    by (auto simp: inbound_def take_call_def split: option.split)
next
  case (Notification meth params)
  then show ?thesis
    using inv answers_inv_evolves [OF inv evo_cancel_call [OF evolves_refl]] by (simp add: inbound_def)
next
  case (Response i result)
  then show ?thesis
    using inv f answers_inv_take_answer [OF inv f] by (cases i) (simp_all add: inbound_def)
next
  case (Error i e)
  then show ?thesis
    using inv answers_inv_take_answer [OF inv f [unfolded Error]]
    by (cases e) (auto simp: inbound_def split: option.split rid.split)
qed

lemma answers_inv_answer:
  assumes inv: "answers_inv cf log s" and a: "Attempted c event p rid \<in> set log"
    and r: "attempt_answer cf c event p rid s = (r, s')"
  shows "answers_inv cf (log @ [Answered p r]) s'"
proof -
  have s': "answers_inv cf log s'"
    using answers_inv_evolves [OF inv evo_attempt_answer [OF evolves_refl], of cf c event p rid] r by simp
  have "ts_response s' p = Some r"
    using r by (auto simp: attempt_answer_def Let_def settle_def upd_call_def split: response.splits option.splits if_splits)
  show ?thesis
  proof (rule answers_invI)
    note D = answers_invD [OF s']
    have v: "vouched cf log s' q x \<Longrightarrow> vouched cf (log @ [Answered p r]) s' q x" for q x
      by (erule vouched_ident) auto
    show "ts_response s' q = Some x \<Longrightarrow> x = Unavailable \<or> vouched cf (log @ [Answered p r]) s' q x" for q x
      using D(6) v by blast
    show "Answered q x \<in> set (log @ [Answered p r]) \<Longrightarrow> q < ts_fresh s' \<and> ts_response s' q = Some x" for q x
      using D(7) [of q x] D(3) [OF a] \<open>ts_response s' p = Some r\<close> by auto
  qed (use answers_invD [OF s'] in \<open>fastforce\<close>)+
qed

theorem tool_run_answers: "tool_run cf log s \<Longrightarrow> answers_inv cf log s"
proof (induction rule: tool_run.induct)
  case start
  show ?case
    by (rule answers_invI) (simp_all add: new_tool_seam_def no_call_def is_call_def awaits_def)
next
  case (inbound log s f own request)
  then show ?case
    using answers_inv_log [of cf log s "[Received f]"] answers_inv_inbound [of cf "log @ [Received f]" s f] by simp
next
  case (outbound log s f)
  then show ?case using answers_inv_evolves evo_pump_outbound [OF evolves_refl] by blast
next
  case (negotiate log s c offered)
  then show ?case using answers_inv_evolves evo_negotiate [OF evolves_refl] by blast
next
  case (attempt log s c event r s')
  then show ?case using answers_inv_call_send_attempt by blast
next
  case (answer log s c event p rid r s')
  then show ?case using answers_inv_answer by blast
next
  case (outcome log s c event)
  then show ?case
    using answers_inv_evolves [OF outcome.IH evo_send_outcome [OF evolves_refl]] by (auto simp: call_send_outcome_def)
next
  case (round log s c raw)
  have "evolves {round_token (cf_instance cf) raw} s (end_round cf raw c (s\<lparr>ts_tasks := remove1 (EndRound c) (ts_tasks s)\<rparr>))"
    by (intro evo evolves_refl) simp
  then show ?case
    using answers_inv_log [OF answers_inv_evolves [OF round.IH]] by simp
next
  case (forget log s k)
  have "evolves N s (forget_cancelled k (s\<lparr>ts_tasks := remove1 (ForgetCancelled k) (ts_tasks s)\<rparr>))"
    unfolding forget_cancelled_def by (intro evo evolves_refl)
  then show ?case using answers_inv_evolves forget.IH by blast
next
  case (break log s)
  then show ?case using answers_inv_evolves evo_fields(11) [OF evolves_refl] by blast
next
  case (close log s)
  then show ?case using answers_inv_log [OF answers_inv_evolves [OF close.IH evo_on_close [OF evolves_refl]], of "[Closed]"] by simp
qed

end
