(* ===== verification/McpToolTokens.thy ===== *)
theory McpToolTokens
  imports McpToolAnswers
begin

text \<open>
  The round tokens of the tool side: a token out was issued and no retry has presented it yet, so a retry is taken
  at most once and a replay is refused without touching any call.
\<close>

lemma token_out_schedule [simp]: "token_out (schedule_round c s) t = token_out s t"
  by (simp add: token_out_def)

lemma token_out_evolves: "evolves {} s s' \<Longrightarrow> token_out s' t \<Longrightarrow> token_out s t"
  using evolvesD(9) [of "{}" s s' t] by blast

lemma token_out_accept_retry: "token_out (accept_retry cf c out i params request s) t = token_out s t"
  by (simp add: accept_retry_def Let_def upd_call_def token_out_def)

lemma token_out_take_retry:
  assumes "token_out (snd (take_retry cf token i params request s)) t"
  shows "token_out s t \<and> t \<noteq> token"
proof (cases "map_of (ts_rounds s) token")
  case None
  then have "token_out s t"
    using assms by (auto simp: take_retry_def send_frame_def token_out_def split: if_splits)
  moreover have "\<not> token_out s token" using None by (force simp: token_out_def map_of_eq_None_iff)
  ultimately show ?thesis by blast
next
  case (Some x)
  obtain c out where x: "x = (c, out)" by (cases x)
  let ?s0 = "s\<lparr>ts_rounds := AList.delete token (ts_rounds s)\<rparr>"
  let ?s1 = "accept_retry cf c out i params request ?s0"
  have "evolves {} ?s1 (snd (take_retry cf token i params request s))"
    using evo_deliver_final [OF evolves_refl [of "{}" ?s1]] Some x
    by (auto simp: take_retry_def Let_def evolves_refl split: prod.split option.split) (metis snd_conv)
  then have "token_out ?s0 t" using assms token_out_evolves token_out_accept_retry by blast
  then show ?thesis by (auto simp: token_out_def AList.delete_eq)
qed

lemma rounds_enter_audit: "ts_rounds (snd (enter_audit sid declared s)) = ts_rounds s"
  by (auto simp: enter_audit_def Let_def upd_audit_def split: option.split)

lemma rounds_open_call: "ts_rounds (open_call cf own i params request s) = ts_rounds s"
  using rounds_enter_audit [of _ _ s]
  by (auto simp: open_call_def Let_def split: option.split prod.split) (metis snd_conv)+

lemma rounds_take_answer: "ts_rounds (take_answer cf rid f s) = ts_rounds s"
  by (auto simp: take_answer_def split: option.split)

lemma token_out_inbound:
  assumes "token_out (snd (inbound cf own f request s)) t"
  shows "token_out s t \<and> (\<forall>i params. f = Request i TOOLS_CALL_METHOD params \<longrightarrow> retry_token params \<noteq> Some t)"
proof (cases f)
  case (Request i meth params)
  have "\<not> TOOLS_CALL_METHOD \<in> set HANDSHAKE_METHODS" by (simp add: HANDSHAKE_METHODS_def)
  with assms Request show ?thesis
    using token_out_take_retry [of cf _ i params request s t] rounds_open_call [of cf own i params request s]
    by (auto simp: inbound_def take_call_def token_out_def read_handshake_def Let_def split: if_splits option.splits)
next
  case (Notification meth params)
  then show ?thesis
    using assms token_out_evolves [OF evo_cancel_call [OF evolves_refl]] by (auto simp: inbound_def split: if_splits)
next
  case (Response i result)
  then show ?thesis
    using assms by (cases i) (auto simp: inbound_def token_out_def rounds_take_answer split: if_splits)
next
  case (Error i e)
  then show ?thesis
    using assms by (cases e) (auto simp: inbound_def token_out_def rounds_take_answer split: option.splits rid.splits if_splits)
qed

lemma rounds_call_send_attempt: "call_send_attempt cf c event s = (r, s') \<Longrightarrow> ts_rounds s' = ts_rounds s"
  by (auto simp: call_send_attempt_def send_attempt_def send_frame_def Let_def upd_call_def split: if_splits prod.splits)

definition presented :: "entry list \<Rightarrow> pystr \<Rightarrow> bool" where
  "presented log t \<longleftrightarrow> (\<exists>i params. Received (Request i TOOLS_CALL_METHOD params) \<in> set log \<and> retry_token params = Some t)"

lemma token_fresh_iff: "token_fresh log t \<longleftrightarrow> Issued t \<notin> set log \<and> \<not> presented log t"
  by (auto simp: token_fresh_def presented_def)

lemma token_step:
  assumes "\<And>t. token_out s t \<Longrightarrow> Issued t \<in> set log \<and> \<not> presented log t" "evolves {} s s'" "token_out s' t"
  shows "Issued t \<in> set log \<and> \<not> presented log t"
  using assms token_out_evolves by blast

lemma tool_run_tokens: "tool_run cf log s \<Longrightarrow> token_out s t \<Longrightarrow> Issued t \<in> set log \<and> \<not> presented log t"
proof (induction arbitrary: t rule: tool_run.induct)
  case start
  then show ?case by (simp add: new_tool_seam_def token_out_def)
next
  case (inbound log s f own request)
  from token_out_inbound [OF inbound.prems] inbound.IH [of t] show ?case by (auto simp: presented_def)
next
  case (outbound log s f)
  show ?case by (rule token_step [OF outbound.IH evo_pump_outbound [OF evolves_refl] outbound.prems])
next
  case (negotiate log s c offered)
  show ?case by (rule token_step [OF negotiate.IH evo_negotiate [OF evolves_refl] negotiate.prems])
next
  case (attempt log s c event r s')
  then show ?case
    using rounds_call_send_attempt [OF attempt.hyps(3)]
    by (auto simp: token_out_def presented_def attempt_entry_def split: sum.splits attempt_wait.splits)
next
  case (answer log s c event p rid r s')
  have "evolves {} s s'" using evo_attempt_answer [OF evolves_refl [of "{}" s], of cf c event p rid] answer.hyps(3) by simp
  from token_step [OF answer.IH this answer.prems] show ?case by (simp add: presented_def)
next
  case (outcome log s c event)
  have "evolves {} s (snd (call_send_outcome cf c event s))"
    by (simp add: call_send_outcome_def evolves_refl evo_send_outcome)
  from token_step [OF outcome.IH this outcome.prems] show ?case .
next
  case (round log s c raw)
  let ?token = "round_token (cf_instance cf) raw"
  have "evolves {?token} s (end_round cf raw c (s\<lparr>ts_tasks := remove1 (EndRound c) (ts_tasks s)\<rparr>))"
    by (intro evo evolves_refl) simp
  from evolvesD(9) [OF this round.prems] round.IH [of t] round.hyps(3) show ?case
    by (auto simp: token_fresh_iff presented_def)
next
  case (forget log s k)
  have "evolves {} s (forget_cancelled k (s\<lparr>ts_tasks := remove1 (ForgetCancelled k) (ts_tasks s)\<rparr>))"
    unfolding forget_cancelled_def by (intro evo evolves_refl)
  from token_step [OF forget.IH this forget.prems] show ?case .
next
  case (break log s)
  then show ?case by (simp add: token_out_def)
next
  case (close log s)
  from token_step [OF close.IH evo_on_close [OF evolves_refl] close.prems] show ?case by (simp add: presented_def)
qed

end
