(* ===== verification/McpToolBounds.thy ===== *)
theory McpToolBounds
  imports McpToolAnswers
begin

text \<open>
  The dictionaries of the tool side: each entry names a call under its own id, and neither the idle sessions nor
  the concluded calls that wait on a retry outgrow \<open>MAX_IDLE_SESSIONS\<close> - the loops that evict reach the bound.
\<close>

definition shaped :: "'r tool_seam \<Rightarrow> bool" where
  "shaped s \<longleftrightarrow>
     (\<forall>k c. (k, c) \<in> set (ts_calls s) \<union> set (ts_waiting s) \<longrightarrow> is_call s c \<and> k = call_key s c) \<and>
     (\<forall>t c out. (t, c, out) \<in> set (ts_rounds s) \<longrightarrow> is_call s c) \<and>
     (\<forall>c. tc_current_id (ts_call s c) \<noteq> None \<longrightarrow> is_call s c) \<and>
     length (ts_idle s) \<le> MAX_IDLE_SESSIONS"

definition bounded :: "'r tool_seam \<Rightarrow> bool" where
  "bounded s \<longleftrightarrow> shaped s \<and> length (ts_waiting s) \<le> MAX_IDLE_SESSIONS"

lemma shapedD:
  assumes "shaped s"
  shows "(k, c) \<in> set (ts_calls s) \<Longrightarrow> is_call s c \<and> k = call_key s c"
    "(k, c) \<in> set (ts_waiting s) \<Longrightarrow> is_call s c \<and> k = call_key s c"
    "(t, c, out) \<in> set (ts_rounds s) \<Longrightarrow> is_call s c"
    "tc_current_id (ts_call s c) = Some i \<Longrightarrow> is_call s c"
  using assms unfolding shaped_def by blast+

lemma shapedI:
  assumes "\<And>k c. (k, c) \<in> set (ts_calls s) \<Longrightarrow> is_call s c \<and> k = call_key s c"
    "\<And>k c. (k, c) \<in> set (ts_waiting s) \<Longrightarrow> is_call s c \<and> k = call_key s c"
    "\<And>t c out. (t, c, out) \<in> set (ts_rounds s) \<Longrightarrow> is_call s c"
    "\<And>c i. tc_current_id (ts_call s c) = Some i \<Longrightarrow> is_call s c"
    "length (ts_idle s) \<le> MAX_IDLE_SESSIONS"
  shows "shaped s"
  using assms unfolding shaped_def by blast

named_theorems shp \<open>an operation keeps the shape of the dictionaries, and adds no waiting call\<close>

text \<open>\<open>shrinks s s'\<close>: the shape stays, the waiting calls are no more, and every call is the call it was.\<close>

definition shrinks :: "'r tool_seam \<Rightarrow> 'r tool_seam \<Rightarrow> bool" where
  "shrinks s s' \<longleftrightarrow> (shaped s \<longrightarrow> shaped s') \<and> length (ts_waiting s') \<le> length (ts_waiting s) \<and>
     (\<forall>c. is_call s' c = is_call s c) \<and> (\<forall>c. call_key s' c = call_key s c)"

lemma shrinks_refl: "shrinks s s"
  by (simp add: shrinks_def)

lemma shrinks_trans: "shrinks s t \<Longrightarrow> shrinks t u \<Longrightarrow> shrinks s u"
  by (auto simp: shrinks_def)

lemma shrinks_bounded: "shrinks s s' \<Longrightarrow> bounded s \<Longrightarrow> bounded s'"
  by (auto simp: shrinks_def bounded_def)

lemma shrinks_step:
  assumes "shrinks s0 s" and id: "\<And>c. call_ident (ts_call s' c) = call_ident (ts_call s c)"
    and cur: "\<And>c i. tc_current_id (ts_call s' c) = Some i \<Longrightarrow> tc_current_id (ts_call s c) \<noteq> None"
    and sub: "set (ts_calls s') \<subseteq> set (ts_calls s)" "set (ts_waiting s') \<subseteq> set (ts_waiting s)"
      "set (ts_rounds s') \<subseteq> set (ts_rounds s)"
    and len: "length (ts_idle s') \<le> MAX_IDLE_SESSIONS \<or> length (ts_idle s') \<le> length (ts_idle s)"
      "length (ts_waiting s') \<le> length (ts_waiting s)"
  shows "shrinks s0 s'"
  using assms(1)
proof (rule shrinks_trans)
  have same: "is_call s' c = is_call s c" "call_key s' c = call_key s c" for c
    using id [of c] by (simp_all add: is_call_def call_key_def call_ident_def)
  have "shaped s'" if s: "shaped s"
  proof -
    have "is_call s' c \<and> k = call_key s' c" if "(k, c) \<in> set (ts_calls s') \<union> set (ts_waiting s')" for k c
      using s that sub unfolding shaped_def same by blast
    moreover have "is_call s' c" if "(t, c, out) \<in> set (ts_rounds s')" for t c out
      using s that sub(3) unfolding shaped_def same by blast
    moreover have "is_call s' c" if "tc_current_id (ts_call s' c) = Some i" for c i
      using s cur [OF that] unfolding shaped_def same by blast
    moreover have "length (ts_idle s') \<le> MAX_IDLE_SESSIONS" using s len(1) unfolding shaped_def by linarith
    ultimately show ?thesis by (intro shapedI) blast+
  qed
  then show "shrinks s s'" using len(2) same by (simp add: shrinks_def)
qed

lemma shp_fields [shp]:
  "shrinks s0 s \<Longrightarrow> shrinks s0 (s\<lparr>ts_handshake_id := a\<rparr>)"
  "shrinks s0 s \<Longrightarrow> shrinks s0 (s\<lparr>ts_handshake_capability := d, ts_handshake_seen := b\<rparr>)"
  "shrinks s0 s \<Longrightarrow> shrinks s0 (s\<lparr>ts_sessions := h\<rparr>)"
  "shrinks s0 s \<Longrightarrow> shrinks s0 (s\<lparr>ts_pending := x\<rparr>)"
  "shrinks s0 s \<Longrightarrow> shrinks s0 (s\<lparr>ts_cancelled := i\<rparr>)"
  "shrinks s0 s \<Longrightarrow> shrinks s0 (s\<lparr>ts_next_id := n\<rparr>)"
  "shrinks s0 s \<Longrightarrow> shrinks s0 (s\<lparr>ts_tasks := j\<rparr>)"
  "shrinks s0 s \<Longrightarrow> shrinks s0 (s\<lparr>ts_open := b\<rparr>)"
  "shrinks s0 s \<Longrightarrow> shrinks s0 (s\<lparr>ts_sent := k\<rparr>)"
  "shrinks s0 s \<Longrightarrow> shrinks s0 (s\<lparr>ts_response := z\<rparr>)"
  "shrinks s0 s \<Longrightarrow> shrinks s0 (s\<lparr>ts_fresh := y\<rparr>)"
  "shrinks s0 s \<Longrightarrow> shrinks s0 (s\<lparr>ts_audit := w\<rparr>)"
  by (erule shrinks_step, simp_all)+

lemma shp_dicts [shp]:
  "shrinks s0 s \<Longrightarrow> set x \<subseteq> set (ts_calls s) \<Longrightarrow> shrinks s0 (s\<lparr>ts_calls := x\<rparr>)"
  "shrinks s0 s \<Longrightarrow> set y \<subseteq> set (ts_waiting s) \<Longrightarrow> length y \<le> length (ts_waiting s) \<Longrightarrow>
     shrinks s0 (s\<lparr>ts_waiting := y\<rparr>)"
  "shrinks s0 s \<Longrightarrow> set z \<subseteq> set (ts_rounds s) \<Longrightarrow> shrinks s0 (s\<lparr>ts_rounds := z\<rparr>)"
  "shrinks s0 s \<Longrightarrow> length i \<le> MAX_IDLE_SESSIONS \<or> length i \<le> length (ts_idle s) \<Longrightarrow> shrinks s0 (s\<lparr>ts_idle := i\<rparr>)"
  by (erule shrinks_step, simp_all)+

lemma shp_upd_call [shp]:
  "shrinks s0 s \<Longrightarrow> (\<And>t. call_ident (f t) = call_ident t) \<Longrightarrow>
     (\<And>t i. tc_current_id (f t) = Some i \<Longrightarrow> tc_current_id t \<noteq> None) \<Longrightarrow> shrinks s0 (upd_call c f s)"
  by (erule shrinks_step) (auto simp: upd_call_def split: if_splits)

lemma shp_upd_audit [shp]: "shrinks s0 s \<Longrightarrow> shrinks s0 (upd_audit a f s)"
  by (simp add: upd_audit_def shp_fields)

lemma shp_settle [shp]: "shrinks s0 s \<Longrightarrow> shrinks s0 (settle p r s)"
  by (simp add: settle_def shp_fields)

lemma shp_settle_all [shp]: "shrinks s0 s \<Longrightarrow> shrinks s0 (settle_all ps s)"
  by (induction ps arbitrary: s) (simp_all add: shp_settle)

lemma shp_settle_round [shp]: "shrinks s0 s \<Longrightarrow> shrinks s0 (settle_round rs ps s)"
  by (induction rs ps s rule: settle_round.induct) (simp_all add: shp_settle)

lemma shp_send_frame [shp]: "shrinks s0 s \<Longrightarrow> shrinks s0 (snd (send_frame f r s))"
  by (simp add: send_frame_def shp_fields)

lemma shp_start_task [shp]: "shrinks s0 s \<Longrightarrow> shrinks s0 (start_task t s)"
  by (simp add: start_task_def shp_fields)

lemma shp_schedule_round [shp]: "shrinks s0 s \<Longrightarrow> shrinks s0 (schedule_round c s)"
  by (auto simp: schedule_round_def call_ident_def intro!: shp)

lemma trim_idle_bound: "length (fst (trim_idle idle sessions)) \<le> MAX_IDLE_SESSIONS"
  by (induction idle sessions rule: trim_idle.induct) auto

lemma shp_keep_idle [shp]: "shrinks s0 s \<Longrightarrow> shrinks s0 (keep_idle a s)"
  using trim_idle_bound [of "AList.delete (as_session_id (ts_audit s a)) (ts_idle s) @ [(as_session_id (ts_audit s a), a)]"
      "ts_sessions s"]
  by (auto simp: keep_idle_def Let_def split: prod.split intro!: shp)

lemma shp_release [shp]: "shrinks s0 s \<Longrightarrow> shrinks s0 (release c final s)"
  by (auto simp: release_def Let_def call_ident_def length_delete_le split: option.split intro!: shp)

lemma shp_drop_pending [shp]: "shrinks s0 s \<Longrightarrow> shrinks s0 (drop_pending c ps s)"
proof (induction ps arbitrary: s)
  case (Cons x ps)
  then show ?case by (cases x) (auto intro!: Cons.IH shp)
qed simp

lemma shp_close_round [shp]: "shrinks s0 s \<Longrightarrow> shrinks s0 (close_round c s)"
  by (auto simp: close_round_def split: option.split intro!: shp set_delete_subset)

lemma shp_clear_awaiting [shp]: "shrinks s0 s \<Longrightarrow> shrinks s0 (clear_awaiting c s)"
  by (auto simp: clear_awaiting_def call_ident_def intro!: shp)

lemma shp_drop_call: "shrinks s0 s \<Longrightarrow>
    shrinks s0 (s\<lparr>ts_calls := AList.delete k (ts_calls s), ts_waiting := AList.delete k (ts_waiting s)\<rparr>)"
  using shp_dicts(2) [OF shp_dicts(1) [OF _ set_delete_subset [of k "ts_calls s"]], of s0 "AList.delete k (ts_waiting s)"]
  by (simp add: set_delete_subset length_delete_le)

lemma shp_end_call [shp]: "shrinks s0 s \<Longrightarrow> shrinks s0 (end_call c final s)"
  unfolding end_call_def Let_def
  by (intro shp shp_drop_call) (auto simp: call_ident_def)

text \<open>Ending a waiting call removes its entry, so the loop of \<open>_keep_waiting\<close> comes down to the bound.\<close>

lemma waiting_of [simp]:
  "ts_waiting (upd_call c f s) = ts_waiting s" "ts_waiting (upd_audit a g s) = ts_waiting s"
  "ts_waiting (clear_awaiting c s) = ts_waiting s" "ts_waiting (release c final s) = ts_waiting s"
  "ts_waiting (drop_pending c ps s) = ts_waiting s" "ts_waiting (close_round c s) = ts_waiting s"
proof -
  show p: "ts_waiting (upd_call c f s) = ts_waiting s" "ts_waiting (upd_audit a g s) = ts_waiting s" for c f a g and s :: "'a tool_seam"
    by (simp_all add: upd_call_def upd_audit_def)
  show "ts_waiting (clear_awaiting c s) = ts_waiting s" "ts_waiting (close_round c s) = ts_waiting s"
    by (auto simp: clear_awaiting_def close_round_def p split: option.split)
  show "ts_waiting (release c final s) = ts_waiting s"
    by (auto simp: release_def keep_idle_def Let_def p split: option.split prod.split)
  show "ts_waiting (drop_pending c ps s) = ts_waiting s"
  proof (induction ps arbitrary: s)
    case (Cons x ps)
    then show ?case by (cases x) simp
  qed simp
qed

lemma waiting_end_call: "ts_waiting (end_call c final s) = AList.delete (call_key s c) (ts_waiting s)"
  by (simp add: end_call_def Let_def call_key_def upd_call_def)

lemma evict_waiting_bound:
  assumes "shaped s" "length (ts_waiting s) \<le> n + MAX_IDLE_SESSIONS"
  shows "length (ts_waiting (evict_waiting n s)) \<le> MAX_IDLE_SESSIONS \<and> shrinks s (evict_waiting n s)"
  using assms
proof (induction n arbitrary: s)
  case (Suc n)
  show ?case
  proof (cases "length (ts_waiting s) > MAX_IDLE_SESSIONS")
    case True
    then obtain k c w where w: "ts_waiting s = (k, c) # w" by (cases "ts_waiting s") auto
    let ?s = "end_call c True s"
    have s: "shrinks s ?s" by (rule shp_end_call [OF shrinks_refl])
    have "k = call_key s c" using Suc.prems(1) w by (auto simp: shaped_def)
    then have "length (ts_waiting ?s) \<le> length w" using w length_delete_le [of k w] by (simp add: waiting_end_call)
    then have "length (ts_waiting ?s) \<le> n + MAX_IDLE_SESSIONS" using Suc.prems(2) w by simp
    then have "length (ts_waiting (evict_waiting n ?s)) \<le> MAX_IDLE_SESSIONS \<and> shrinks ?s (evict_waiting n ?s)"
      using Suc.IH s Suc.prems(1) by (simp add: shrinks_def)
    with True w s show ?thesis by (auto intro: shrinks_trans)
  next
    case False
    then show ?thesis by (cases "ts_waiting s") (auto simp: shrinks_refl)
  qed
qed (simp add: shrinks_refl)

lemma handles_waiting [simp]:
  "is_call (s\<lparr>ts_waiting := w\<rparr>) c = is_call s c" "call_key (s\<lparr>ts_waiting := w\<rparr>) c = call_key s c"
  by (simp_all add: is_call_def call_key_def)

lemma bounded_keep_waiting:
  assumes s: "shaped s" and c: "is_call s c"
  shows "bounded (keep_waiting c f s)"
proof -
  let ?s1 = "upd_call c (\<lambda>t. t\<lparr>tc_final := Some f\<rparr>) s"
  have s1: "shrinks s ?s1" by (auto simp: call_ident_def intro!: shp shrinks_refl)
  then have 1: "shaped ?s1" "is_call ?s1 d = is_call s d" "call_key ?s1 d = call_key s d" for d
    using s by (simp_all add: shrinks_def)
  let ?w = "AList.delete (call_key ?s1 c) (ts_waiting ?s1) @ [(call_key ?s1 c, c)]"
  let ?s2 = "?s1\<lparr>ts_waiting := ?w\<rparr>"
  have "shaped ?s2"
    using 1(1) c set_delete_subset [of "call_key ?s1 c" "ts_waiting ?s1"] unfolding shaped_def
    by (auto simp: 1)
  from evict_waiting_bound [OF this, of "length ?w"]
  have e: "length (ts_waiting (keep_waiting c f s)) \<le> MAX_IDLE_SESSIONS" "shrinks ?s2 (keep_waiting c f s)"
    by (simp_all add: keep_waiting_def Let_def del: evict_waiting.simps)
  then show ?thesis using \<open>shaped ?s2\<close> by (simp add: bounded_def shrinks_def)
qed

text \<open>The operations that can add a waiting call keep both bounds.\<close>

definition settles_to :: "'r tool_seam \<Rightarrow> 'r tool_seam \<Rightarrow> bool" where
  "settles_to s s' \<longleftrightarrow> (bounded s \<longrightarrow> bounded s') \<and>
     (\<forall>c. is_call s' c = is_call s c) \<and> (\<forall>c. call_key s' c = call_key s c)"

lemma evolves_same: "evolves N s s' \<Longrightarrow> is_call s' c = is_call s c \<and> call_key s' c = call_key s c"
  using evolvesD(2) [of N s s' c] by (simp add: is_call_def call_key_def call_ident_def)

lemma settles_to_shrinks: "shrinks s s' \<Longrightarrow> settles_to s s'"
  by (auto simp: shrinks_def settles_to_def bounded_def)

lemma settles_to_trans: "settles_to s t \<Longrightarrow> settles_to t u \<Longrightarrow> settles_to s u"
  by (auto simp: settles_to_def)

lemma settles_to_keep_waiting: "is_call s c \<Longrightarrow> settles_to s (keep_waiting c f s)"
  using bounded_keep_waiting [of s c f] evolves_same [OF evo_keep_waiting [OF evolves_refl]]
  by (auto simp: settles_to_def bounded_def)

lemma settles_to_clear: "settles_to s (clear_awaiting c (upd_call c (\<lambda>t. t\<lparr>tc_buffered := []\<rparr>) s))"
  by (rule settles_to_shrinks) (auto simp: call_ident_def intro!: shp shrinks_refl)

lemma settles_to_conclude: "settles_to s (conclude_waiting c s)"
  unfolding conclude_waiting_def Let_def
  by (rule settles_to_shrinks, rule shp_dicts(2), rule shp_upd_call [OF shrinks_refl])
    (simp_all add: call_ident_def set_delete_subset length_delete_le)

lemma settles_to_refl: "settles_to s s"
  by (simp add: settles_to_def)

lemma settles_to_final_frame:
  assumes c: "is_call s c"
  shows "settles_to s (snd (final_frame c f s))"
proof -
  let ?s1 = "clear_awaiting c (upd_call c (\<lambda>t. t\<lparr>tc_buffered := []\<rparr>) s)"
  let ?o = "outcomes_of (tc_buffered (ts_call s c))"
  let ?s2 = "upd_call c (\<lambda>t. t\<lparr>tc_buffered := ?o\<rparr>) ?s1"
  note s1 = settles_to_clear [of s c]
  have s2: "settles_to s ?s2"
    by (rule settles_to_trans [OF s1], rule settles_to_shrinks) (auto simp: call_ident_def intro!: shp shrinks_refl)
  have "settles_to ?s2 (keep_waiting c g ?s2)" for g
    using c s2 by (intro settles_to_keep_waiting) (simp add: settles_to_def)
  moreover have "settles_to (keep_waiting c g ?s2) (schedule_round c (keep_waiting c g ?s2))" for g
    by (intro settles_to_shrinks shp shrinks_refl)
  ultimately have "settles_to s (schedule_round c (keep_waiting c g ?s2))" for g
    using s2 settles_to_trans by blast
  moreover have "settles_to s (conclude_waiting c ?s1)" using s1 settles_to_conclude settles_to_trans by blast
  ultimately show ?thesis
    using s1 by (simp add: final_frame_def Let_def settles_to_refl split: option.split rpc_frame.split)
qed

lemma settles_to_deliver_final: "is_call s c \<Longrightarrow> settles_to s (snd (deliver_final c f s))"
  using settles_to_final_frame [of s c f] settles_to_trans [OF _ settles_to_shrinks [OF shp_send_frame [OF shrinks_refl]]]
  by (cases "final_frame c f s") (auto simp: deliver_final_def split: option.split)

lemma settles_to_finish:
  assumes c: "is_call s c"
  shows "settles_to s (snd (finish c f s))"
proof -
  let ?s1 = "release c (\<not> continues f) s"
  have s1: "settles_to s ?s1" by (intro settles_to_shrinks shp shrinks_refl)
  then have c1: "is_call ?s1 c" using c by (simp add: settles_to_def)
  have "settles_to ?s1 (upd_call c (\<lambda>t. t\<lparr>tc_ended := True\<rparr>) ?s1)"
    by (rule settles_to_shrinks) (auto simp: call_ident_def intro!: shp shrinks_refl)
  moreover have "settles_to ?s1 (keep_waiting c f (settle_all ps ?s1))" for ps
  proof -
    have "settles_to ?s1 (settle_all ps ?s1)" by (intro settles_to_shrinks shp shrinks_refl)
    moreover have "is_call (settle_all ps ?s1) c" using c1 by (simp add: is_call_def)
    ultimately show ?thesis using settles_to_keep_waiting settles_to_trans by blast
  qed
  moreover have "settles_to ?s1 (snd (final_frame c f ?s1))" using settles_to_final_frame c1 by blast
  ultimately have "settles_to ?s1 (snd (finish c f s))"
    by (simp add: finish_def Let_def split: option.split)
  then show ?thesis using s1 settles_to_trans by blast
qed

lemma bounded_outbound:
  assumes b: "bounded s"
  shows "bounded (snd (outbound cf f s))"
proof -
  have "bounded (snd (take_final i g s))" for i g
  proof (cases "map_of (ts_cancelled s) (opt_rid_key i)")
    case None
    show ?thesis
    proof (cases "map_of (ts_calls s) (opt_rid_key i)")
      case None
      with b \<open>map_of (ts_cancelled s) (opt_rid_key i) = None\<close> show ?thesis by (simp add: take_final_def Let_def)
    next
      case (Some c)
      let ?s1 = "upd_call c (\<lambda>t. t\<lparr>tc_finished := True\<rparr>) (s\<lparr>ts_calls := AList.delete (opt_rid_key i) (ts_calls s)\<rparr>)"
      have "shrinks s ?s1"
        by (intro shp shrinks_refl set_delete_subset) (simp_all add: call_ident_def)
      moreover have "is_call s c" using b map_of_SomeD [OF Some] shapedD(1) by (auto simp: bounded_def)
      ultimately have "bounded ?s1" "is_call ?s1 c" using b shrinks_bounded by (blast, simp add: shrinks_def)
      then show ?thesis
        using Some \<open>map_of (ts_cancelled s) (opt_rid_key i) = None\<close> settles_to_finish [of ?s1 c g]
        by (simp add: take_final_def Let_def settles_to_def)
    qed
  next
    case (Some x)
    then show ?thesis
      using shrinks_bounded [OF shp_fields(5) [OF shrinks_refl] b] by (simp add: take_final_def Let_def)
  qed
  with b show ?thesis by (simp add: outbound_def split: rpc_frame.split)
qed

lemma bounded_send_frame: "bounded s \<Longrightarrow> bounded (snd (send_frame f r s))"
  by (rule shrinks_bounded [OF shp_send_frame [OF shrinks_refl]])

lemma bounded_pump_outbound: "bounded s \<Longrightarrow> bounded (pump_outbound cf f s)"
  using bounded_outbound [of s cf f] bounded_send_frame
  by (auto simp: pump_outbound_def split: prod.split option.split)

text \<open>Writing to a call keeps the shape whatever it writes to its open id.\<close>

lemma settles_to_upd_call:
  assumes c: "is_call s c" and f: "\<And>t. call_ident (f t) = call_ident t"
  shows "settles_to s (upd_call c f s)"
proof -
  have id: "is_call (upd_call c f s) d = is_call s d" "call_key (upd_call c f s) d = call_key s d" for d
    using f [of "ts_call s c"] by (simp_all add: is_call_def call_key_def upd_call_def call_ident_def)
  have "shaped (upd_call c f s)" if s: "shaped s"
  proof -
    note D = shapedD [OF s]
    have "is_call s d" if "tc_current_id (ts_call (upd_call c f s) d) = Some i" for d i
      using that c D(4) [of d i] by (cases "d = c") (simp_all add: upd_call_def)
    moreover have "ts_calls (upd_call c f s) = ts_calls s" "ts_rounds (upd_call c f s) = ts_rounds s"
      "ts_idle (upd_call c f s) = ts_idle s" by (simp_all add: upd_call_def)
    ultimately show ?thesis using D(1-3) s by (intro shapedI) (auto simp: id shaped_def)
  qed
  then show ?thesis by (simp add: settles_to_def bounded_def id)
qed

lemma settles_to_accept_retry:
  assumes c: "is_call s c"
  shows "settles_to s (accept_retry cf c out i params request s)"
proof -
  let ?s1 = "settle_round (retry_responses cf s c params) (rd_awaiting out) s"
  let ?s2 = "upd_call c (\<lambda>t. t\<lparr>tc_round := None, tc_current_id := Some i,
    tc_ids := insert (rid_key i) (tc_ids t), tc_request := request\<rparr>) ?s1"
  have 1: "settles_to s ?s1" by (intro settles_to_shrinks shp shrinks_refl)
  have "is_call ?s1 c" using c by (simp add: is_call_def)
  then have 2: "settles_to ?s1 ?s2" by (rule settles_to_upd_call) (simp add: call_ident_def)
  have "settles_to ?s2 (schedule_round c ?s2)" by (intro settles_to_shrinks shp shrinks_refl)
  then show ?thesis
    using settles_to_trans [OF 1 2] settles_to_trans by (simp add: accept_retry_def Let_def) blast
qed

lemma bounded_take_retry:
  assumes b: "bounded s"
  shows "bounded (snd (take_retry cf token i params request s))"
proof (cases "map_of (ts_rounds s) token")
  case None
  then show ?thesis
    using bounded_send_frame [OF b] by (simp add: take_retry_def split: prod.split) (metis snd_conv)
next
  case (Some x)
  obtain c out where x: "x = (c, out)" by (cases x)
  let ?s0 = "s\<lparr>ts_rounds := AList.delete token (ts_rounds s)\<rparr>"
  let ?s1 = "accept_retry cf c out i params request ?s0"
  have "is_call s c" using b map_of_SomeD [OF Some] shapedD(3) unfolding x bounded_def by blast
  then have c: "is_call ?s0 c" by (simp add: is_call_def)
  have "bounded ?s0" by (rule shrinks_bounded [OF shp_dicts(3) [OF shrinks_refl set_delete_subset] b])
  then have "bounded ?s1" "is_call ?s1 c" using settles_to_accept_retry [OF c] c unfolding settles_to_def by blast+
  then have "bounded (snd (deliver_final c f ?s1))" for f
    using settles_to_deliver_final [of ?s1 c f] by (simp add: settles_to_def)
  then show ?thesis
    using Some x \<open>bounded ?s1\<close>
    by (auto simp: take_retry_def Let_def split: prod.split option.split) (metis snd_conv)
qed

lemma bounded_enter_audit: "enter_audit sid declared s = (a, s1) \<Longrightarrow> bounded s \<Longrightarrow> bounded s1"
proof -
  assume e: "enter_audit sid declared s = (a, s1)" and b: "bounded s"
  have "shrinks s s1"
    using e by (auto simp: enter_audit_def Let_def length_delete_le upd_audit_def split: option.splits intro!: shp shrinks_refl)
  then show ?thesis using b shrinks_bounded by blast
qed

lemma bounded_new_call:
  assumes b: "bounded s" and fresh: "\<And>c. is_call s c \<Longrightarrow> c < ts_fresh s"
    and t: "tc_own_numbering t \<noteq> 0" "tc_original_id t = i"
  shows "bounded (s\<lparr>ts_call := (ts_call s)(ts_fresh s := t), ts_fresh := n,
    ts_calls := AList.update (rid_key i) (ts_fresh s) (ts_calls s)\<rparr>)" (is "bounded ?s")
proof -
  have s: "shaped s" using b by (simp add: bounded_def)
  note D = shapedD [OF s]
  have old: "is_call ?s c" "call_key ?s c = call_key s c" if "is_call s c" for c
    using fresh [OF that] that by (auto simp: is_call_def call_key_def)
  have new: "is_call ?s (ts_fresh s)" "call_key ?s (ts_fresh s) = rid_key i"
    using t by (simp_all add: is_call_def call_key_def)
  have "shaped ?s"
  proof (rule shapedI)
    show "(k, c) \<in> set (ts_calls ?s) \<Longrightarrow> is_call ?s c \<and> k = call_key ?s c" for k c
      using set_update_subset [of "rid_key i" "ts_fresh s" "ts_calls s"] D(1) [of k c] old new by auto
    show "(k, c) \<in> set (ts_waiting ?s) \<Longrightarrow> is_call ?s c \<and> k = call_key ?s c" for k c
      using D(2) [of k c] old by auto
    show "(x, c, out) \<in> set (ts_rounds ?s) \<Longrightarrow> is_call ?s c" for x c out using D(3) [of x c out] old by auto
    show "tc_current_id (ts_call ?s c) = Some j \<Longrightarrow> is_call ?s c" for c j
      using D(4) [of c j] old new by (cases "c = ts_fresh s") auto
    show "length (ts_idle ?s) \<le> MAX_IDLE_SESSIONS" using s by (simp add: shaped_def)
  qed
  then show ?thesis using b by (simp add: bounded_def)
qed

lemma bounded_open_call:
  assumes b: "bounded s" and inv: "answers_inv cf log s"
  shows "bounded (open_call cf own i params request s)"
proof (cases "parse_request_meta (cf_lib cf) (dget (meta_of (JDict (params_of params))) EXTENSION_ID)")
  case None
  then show ?thesis
    using answers_invD(1) [OF inv] unfolding open_call_def Let_def by (simp add: bounded_new_call [OF b])
next
  case (Some m)
  let ?d = "params_of params"
  let ?declared = "if is_modern (cf_mcp cf) (JDict ?d)
    then capability_of (dget (meta_of (JDict ?d)) (mcp_capabilities_key (cf_mcp cf))) else ts_handshake_capability s"
  obtain a s1 where e: "enter_audit (rm_session_id m) ?declared s = (a, s1)" by force
  then show ?thesis
    using Some bounded_new_call [OF bounded_enter_audit [OF e b] answers_invD(1) [OF answers_inv_enter_audit [OF inv e]]]
    unfolding open_call_def Let_def by simp
qed

lemma bounded_inbound:
  assumes b: "bounded s" and inv: "answers_inv cf log s"
  shows "bounded (snd (inbound cf own f request s))"
proof -
  have "shrinks s (take_answer cf rid g s)" for rid g
    by (auto simp: take_answer_def split: option.split intro!: shp shrinks_refl)
  moreover have "shrinks s (snd (cancel_call params s))" for params
    by (auto simp: cancel_call_def Let_def split: option.split intro!: shp shrinks_refl)
  moreover have "shrinks s (read_handshake mc m params (s\<lparr>ts_handshake_id := j\<rparr>))" for mc m params j
    unfolding read_handshake_def Let_def by (intro shp shrinks_refl)
  ultimately have "bounded (take_answer cf rid g s)" "bounded (snd (cancel_call params s))"
    "bounded (read_handshake mc m params (s\<lparr>ts_handshake_id := j\<rparr>))" for rid g mc m params j
    using b shrinks_bounded by blast+
  then show ?thesis
    using b bounded_take_retry [OF b] bounded_open_call [OF b inv]
    by (auto simp: inbound_def take_call_def split: rpc_frame.split option.split rid.split)
qed

lemma bounded_send_attempt: "bounded s \<Longrightarrow> call_send_attempt cf c event s = (r, s') \<Longrightarrow> bounded s'"
proof -
  assume b: "bounded s" and e: "call_send_attempt cf c event s = (r, s')"
  have "shrinks s (snd (call_send_attempt cf c event s))"
    by (auto simp: call_send_attempt_def send_attempt_def send_frame_def Let_def call_ident_def split: prod.split
        intro!: shp shrinks_refl)
  then show ?thesis using b e shrinks_bounded by fastforce
qed

lemma bounded_end_round:
  assumes b: "bounded s"
  shows "bounded (end_round cf raw c s)"
proof -
  let ?s0 = "upd_call c (\<lambda>t. t\<lparr>tc_round_scheduled := False\<rparr>) s"
  let ?out = "\<lparr>rd_token = round_token (cf_instance cf) raw, rd_awaiting = tc_buffered_awaiting (ts_call ?s0 c)\<rparr>"
  let ?s1 = "upd_call c (\<lambda>t. t\<lparr>tc_buffered := [], tc_buffered_awaiting := [], tc_round := Some ?out,
      tc_current_id := None\<rparr>) ?s0"
  let ?s2 = "?s1\<lparr>ts_rounds := AList.update (round_token (cf_instance cf) raw) (c, ?out) (ts_rounds ?s1)\<rparr>"
  have 0: "shrinks s ?s0" by (auto simp: call_ident_def intro!: shp shrinks_refl)
  then have b0: "bounded ?s0" using b shrinks_bounded by blast
  have "shrinks ?s0 ?s1" by (auto simp: call_ident_def intro!: shp shrinks_refl)
  then have b1: "bounded ?s1" "is_call ?s1 c = is_call ?s0 c" using b0 shrinks_bounded by (blast, simp add: shrinks_def)
  have "bounded ?s2" if "tc_current_id (ts_call ?s0 c) = Some i" for i
  proof -
    have c: "is_call ?s1 c" using b0 that shapedD(4) b1(2) unfolding bounded_def by blast
    have s1: "shaped ?s1" using b1 by (simp add: bounded_def)
    have id: "is_call ?s2 d = is_call ?s1 d" "call_key ?s2 d = call_key ?s1 d" for d
      by (simp_all add: is_call_def call_key_def)
    have "shaped ?s2"
    proof (rule shapedI)
      show "(x, d, out) \<in> set (ts_rounds ?s2) \<Longrightarrow> is_call ?s2 d" for x d out
        using set_update_subset [of "round_token (cf_instance cf) raw" "(c, ?out)" "ts_rounds ?s1"] c
          shapedD(3) [OF s1, of x d out] unfolding id by auto
    qed (use shapedD [OF s1] s1 in \<open>auto simp: id shaped_def\<close>)
    then show ?thesis using b1 by (simp add: bounded_def)
  qed
  then show ?thesis
    using b0 bounded_send_frame [of ?s2]
    by (auto simp: end_round_def Let_def split: option.split)
qed

lemma bounded_on_close:
  assumes b: "bounded s"
  shows "bounded (tool_on_close s)"
proof -
  have ends: "shrinks s0 s \<Longrightarrow> shrinks s0 (end_calls cs s)" for s0 s :: "'a tool_seam" and cs
    by (induction cs arbitrary: s) (simp_all add: shp_end_call)
  have rounds: "shrinks s0 s \<Longrightarrow> shrinks s0 (close_rounds rs s)" for s0 s :: "'a tool_seam" and rs
  proof (induction rs arbitrary: s)
    case (Cons x rs)
    then show ?case by (cases x) (auto simp: call_ident_def intro!: Cons.IH shp)
  qed simp
  have "shrinks s (tool_on_close s)"
    unfolding tool_on_close_def Let_def by (intro shp shp_fields ends rounds shrinks_refl) simp_all
  then show ?thesis using b shrinks_bounded by blast
qed

lemma tool_run_bounded: "tool_run cf log s \<Longrightarrow> bounded s"
proof (induction rule: tool_run.induct)
  case start
  show ?case by (simp add: new_tool_seam_def no_call_def bounded_def shaped_def)
next
  case (inbound log s f own request)
  then show ?case using bounded_inbound tool_run_answers by blast
next
  case (outbound log s f)
  from outbound.IH show ?case by (rule bounded_pump_outbound)
next
  case (negotiate log s c offered)
  have "shrinks s (snd (negotiate_call cf c offered s))"
    by (auto simp: negotiate_call_def Let_def call_ident_def intro!: shp shrinks_refl)
  then show ?case using negotiate.IH shrinks_bounded by blast
next
  case (attempt log s c event r s')
  then show ?case using bounded_send_attempt by blast
next
  case (answer log s c event p rid r s')
  have "shrinks s (snd (attempt_answer cf c event p rid s))"
    by (auto simp: attempt_answer_def Let_def call_ident_def split: response.split option.split intro!: shp shrinks_refl)
  then show ?case using answer shrinks_bounded by fastforce
next
  case (outcome log s c event)
  have "shrinks s (snd (call_send_outcome cf c event s))"
    by (auto simp: call_send_outcome_def send_outcome_def Let_def call_ident_def intro!: shp shrinks_refl)
  then show ?case using outcome.IH shrinks_bounded by blast
next
  case (round log s c raw)
  then show ?case using bounded_end_round shrinks_bounded [OF shp_fields(7) [OF shrinks_refl]] by blast
next
  case (forget log s k)
  have "shrinks s (forget_cancelled k (s\<lparr>ts_tasks := remove1 (ForgetCancelled k) (ts_tasks s)\<rparr>))"
    unfolding forget_cancelled_def by (intro shp shrinks_refl)
  then show ?case using forget.IH shrinks_bounded by blast
next
  case (break log s)
  then show ?case using shrinks_bounded [OF shp_fields(8) [OF shrinks_refl]] by blast
next
  case (close log s)
  from close.IH show ?case by (rule bounded_on_close)
qed

end
