(* ===== verification/McpToolSessions.thy ===== *)
theory McpToolSessions
  imports McpToolAnswers
begin

text \<open>
  The audit sessions of the tool side: while a request of a session is in flight the session is found under its
  id, so every request that names it shares one object - its declaration, its numbering and its count.
\<close>

definition members :: "'r tool_seam \<Rightarrow> nat \<Rightarrow> nat set" where
  "members s a = {c. tc_audit (ts_call s c) = Some a \<and> \<not> tc_released (ts_call s c)}"

abbreviation sid_of :: "'r tool_seam \<Rightarrow> nat \<Rightarrow> pystr" where
  "sid_of s a \<equiv> as_session_id (ts_audit s a)"

definition sessions_inv :: "'r tool_seam \<Rightarrow> bool" where
  "sessions_inv s \<longleftrightarrow>
     (\<forall>a. finite (members s a) \<and> as_live (ts_audit s a) = int (card (members s a))) \<and>
     (\<forall>a. members s a \<noteq> {} \<longrightarrow> map_of (ts_sessions s) (sid_of s a) = Some a) \<and>
     (\<forall>k a. map_of (ts_sessions s) k = Some a \<longrightarrow> k = sid_of s a) \<and>
     (\<forall>k a. (k, a) \<in> set (ts_idle s) \<longrightarrow> map_of (ts_sessions s) k = Some a \<and> members s a = {}) \<and>
     distinct (map fst (ts_idle s)) \<and>
     (\<forall>c. tc_audit (ts_call s c) \<noteq> None \<longrightarrow> c < ts_fresh s)"

lemma sessions_invD:
  assumes "sessions_inv s"
  shows "finite (members s a)" "as_live (ts_audit s a) = int (card (members s a))"
    "members s a \<noteq> {} \<Longrightarrow> map_of (ts_sessions s) (sid_of s a) = Some a"
    "map_of (ts_sessions s) k = Some a \<Longrightarrow> k = sid_of s a"
    "(k, a) \<in> set (ts_idle s) \<Longrightarrow> map_of (ts_sessions s) k = Some a \<and> members s a = {}"
    "distinct (map fst (ts_idle s))"
    "tc_audit (ts_call s c) = Some b \<Longrightarrow> c < ts_fresh s"
  using assms unfolding sessions_inv_def by blast+

lemma sessions_invI:
  assumes "\<And>a. finite (members s a)" "\<And>a. as_live (ts_audit s a) = int (card (members s a))"
    "\<And>a. members s a \<noteq> {} \<Longrightarrow> map_of (ts_sessions s) (sid_of s a) = Some a"
    "\<And>k a. map_of (ts_sessions s) k = Some a \<Longrightarrow> k = sid_of s a"
    "\<And>k a. (k, a) \<in> set (ts_idle s) \<Longrightarrow> map_of (ts_sessions s) k = Some a \<and> members s a = {}"
    "distinct (map fst (ts_idle s))"
    "\<And>c b. tc_audit (ts_call s c) = Some b \<Longrightarrow> c < ts_fresh s"
  shows "sessions_inv s"
  using assms unfolding sessions_inv_def by blast

section \<open>Operations that touch no session\<close>

definition neutral :: "'r tool_seam \<Rightarrow> 'r tool_seam \<Rightarrow> bool" where
  "neutral s s' \<longleftrightarrow> ts_sessions s' = ts_sessions s \<and> ts_idle s' = ts_idle s \<and> ts_audit s' = ts_audit s \<and>
     ts_fresh s \<le> ts_fresh s' \<and>
     (\<forall>c. tc_audit (ts_call s' c) = tc_audit (ts_call s c) \<and> tc_released (ts_call s' c) = tc_released (ts_call s c))"

lemma neutral_sessions_inv:
  assumes "neutral s s'" "sessions_inv s"
  shows "sessions_inv s'"
proof -
  have "members s' a = members s a" for a using assms(1) by (simp add: neutral_def members_def)
  then show ?thesis
    using assms by (auto simp: neutral_def sessions_inv_def intro: less_le_trans)
qed

named_theorems neu \<open>an operation keeps the sessions invariant\<close>

abbreviation keeps_sessions :: "('r tool_seam \<Rightarrow> 'r tool_seam) \<Rightarrow> bool" where
  "keeps_sessions op \<equiv> (\<forall>s. sessions_inv s \<longrightarrow> sessions_inv (op s))"

lemma neu_fields [neu]:
  "sessions_inv s \<Longrightarrow> sessions_inv (s\<lparr>ts_handshake_id := a\<rparr>)"
  "sessions_inv s \<Longrightarrow> sessions_inv (s\<lparr>ts_handshake_capability := d, ts_handshake_seen := b\<rparr>)"
  "sessions_inv s \<Longrightarrow> sessions_inv (s\<lparr>ts_calls := e\<rparr>)"
  "sessions_inv s \<Longrightarrow> sessions_inv (s\<lparr>ts_waiting := e\<rparr>)"
  "sessions_inv s \<Longrightarrow> sessions_inv (s\<lparr>ts_rounds := f\<rparr>)"
  "sessions_inv s \<Longrightarrow> sessions_inv (s\<lparr>ts_pending := x\<rparr>)"
  "sessions_inv s \<Longrightarrow> sessions_inv (s\<lparr>ts_cancelled := i\<rparr>)"
  "sessions_inv s \<Longrightarrow> sessions_inv (s\<lparr>ts_next_id := n\<rparr>)"
  "sessions_inv s \<Longrightarrow> sessions_inv (s\<lparr>ts_tasks := j\<rparr>)"
  "sessions_inv s \<Longrightarrow> sessions_inv (s\<lparr>ts_open := b\<rparr>)"
  "sessions_inv s \<Longrightarrow> sessions_inv (s\<lparr>ts_sent := k\<rparr>)"
  "sessions_inv s \<Longrightarrow> sessions_inv (s\<lparr>ts_response := z\<rparr>)"
  "sessions_inv s \<Longrightarrow> ts_fresh s \<le> y \<Longrightarrow> sessions_inv (s\<lparr>ts_fresh := y\<rparr>)"
  by (erule neutral_sessions_inv [rotated], simp add: neutral_def)+

lemma neu_upd_call [neu]:
  "sessions_inv s \<Longrightarrow> (\<And>t. tc_audit (f t) = tc_audit t) \<Longrightarrow> (\<And>t. tc_released (f t) = tc_released t) \<Longrightarrow>
     sessions_inv (upd_call c f s)"
  by (erule neutral_sessions_inv [rotated]) (simp add: neutral_def upd_call_def)

lemma neu_settle [neu]: "sessions_inv s \<Longrightarrow> sessions_inv (settle p r s)"
  by (simp add: settle_def neu_fields)

lemma neu_settle_all [neu]: "sessions_inv s \<Longrightarrow> sessions_inv (settle_all ps s)"
  by (induction ps arbitrary: s) (simp_all add: neu_settle)

lemma neu_settle_round [neu]: "sessions_inv s \<Longrightarrow> sessions_inv (settle_round rs ps s)"
  by (induction rs ps s rule: settle_round.induct) (simp_all add: neu_settle)

lemma neu_send_frame [neu]: "sessions_inv s \<Longrightarrow> sessions_inv (snd (send_frame f r s))"
  by (simp add: send_frame_def neu_fields)

lemma neu_start_task [neu]: "sessions_inv s \<Longrightarrow> sessions_inv (start_task t s)"
  by (simp add: start_task_def neu_fields)

lemma neu_schedule_round [neu]: "sessions_inv s \<Longrightarrow> sessions_inv (schedule_round c s)"
  by (auto simp: schedule_round_def intro!: neu)

lemma neu_drop_pending [neu]: "sessions_inv s \<Longrightarrow> sessions_inv (drop_pending c ps s)"
proof (induction ps arbitrary: s)
  case (Cons x ps)
  then show ?case by (cases x) (auto intro!: Cons.IH neu)
qed simp

lemma neu_close_round [neu]: "sessions_inv s \<Longrightarrow> sessions_inv (close_round c s)"
  by (auto simp: close_round_def split: option.split intro!: neu)

lemma neu_clear_awaiting [neu]: "sessions_inv s \<Longrightarrow> sessions_inv (clear_awaiting c s)"
  by (auto simp: clear_awaiting_def intro!: neu)

section \<open>Releasing a request\<close>

text \<open>\<open>trim_idle\<close> drops a prefix of the idle sessions, and each of them from the sessions.\<close>

lemma trim_idle_splits:
  "\<exists>dropped. idle = dropped @ fst (trim_idle idle ss) \<and>
     (\<forall>k. map_of (snd (trim_idle idle ss)) k = (if k \<in> fst ` set dropped then None else map_of ss k))"
proof (induction idle ss rule: trim_idle.induct)
  case (2 x xs ss)
  show ?case
  proof (cases "length (x # xs) > MAX_IDLE_SESSIONS")
    case True
    from 2 [OF True] obtain d where d: "xs = d @ fst (trim_idle xs (AList.delete (fst x) ss))"
      "\<forall>k. map_of (snd (trim_idle xs (AList.delete (fst x) ss))) k =
        (if k \<in> fst ` set d then None else map_of (AList.delete (fst x) ss) k)" by blast
    show ?thesis
      by (rule exI [of _ "x # d"]) (use True d in \<open>auto simp: delete_conv'\<close>)
  next
    case False
    then show ?thesis by (intro exI [of _ "[]"]) simp
  qed
qed simp

lemma sessions_inv_keep_idle:
  assumes inv: "sessions_inv s" and a: "members s a = {}" "map_of (ts_sessions s) (sid_of s a) = Some a"
  shows "sessions_inv (keep_idle a s)"
proof -
  note D = sessions_invD [OF inv]
  let ?sid = "sid_of s a" and ?idle = "AList.delete (sid_of s a) (ts_idle s) @ [(sid_of s a, a)]"
  obtain idle ss where t: "trim_idle ?idle (ts_sessions s) = (idle, ss)" by force
  then obtain d where d: "?idle = d @ idle" "\<And>k. map_of ss k = (if k \<in> fst ` set d then None else map_of (ts_sessions s) k)"
    using trim_idle_splits [of ?idle "ts_sessions s"] by auto
  have dist: "distinct (map fst ?idle)"
    using D(6) by (auto simp: AList.delete_eq distinct_map_filter)
  have in_idle: "map_of (ts_sessions s) k = Some b \<and> members s b = {}" if "(k, b) \<in> set ?idle" for k b
    using that D(5) [of k b] a by (auto simp: AList.delete_eq)
  have disj: "k \<notin> fst ` set d" if "(k, b) \<in> set idle" for k b
    using dist that unfolding d(1) by (force simp: image_iff)
  let ?s = "s\<lparr>ts_idle := idle, ts_sessions := ss\<rparr>"
  have m: "members ?s b = members s b" for b by (simp add: members_def)
  have "sessions_inv ?s"
  proof (rule sessions_invI)
    show "map_of (ts_sessions ?s) (sid_of ?s b) = Some b" if "members ?s b \<noteq> {}" for b
    proof -
      have b: "map_of (ts_sessions s) (sid_of s b) = Some b" using that D(3) by (simp add: m)
      have "sid_of s b \<notin> fst ` set d"
      proof
        assume "sid_of s b \<in> fst ` set d"
        then obtain x where "(sid_of s b, x) \<in> set d" by auto
        then have "(sid_of s b, x) \<in> set ?idle" unfolding d(1) by simp
        from in_idle [OF this] b that show False by (simp add: m)
      qed
      then show ?thesis using b d(2) by simp
    qed
    show "map_of (ts_sessions ?s) k = Some b \<Longrightarrow> k = sid_of ?s b" for k b
      using D(4) d(2) by (auto split: if_splits)
    show "(k, b) \<in> set (ts_idle ?s) \<Longrightarrow> map_of (ts_sessions ?s) k = Some b \<and> members ?s b = {}" for k b
      using disj [of k b] in_idle [of k b] d by (auto simp: m)
    show "distinct (map fst (ts_idle ?s))" using dist unfolding d(1) by simp
  qed (use D(1,2,7) in \<open>auto simp: m\<close>)
  then show ?thesis using t by (simp add: keep_idle_def Let_def)
qed

lemma sessions_inv_drop_session:
  assumes inv: "sessions_inv s" and a: "members s a = {}" "map_of (ts_sessions s) (sid_of s a) = Some a"
  shows "sessions_inv (s\<lparr>ts_sessions := AList.delete (sid_of s a) (ts_sessions s),
    ts_idle := AList.delete (sid_of s a) (ts_idle s)\<rparr>)" (is "sessions_inv ?s")
proof -
  note D = sessions_invD [OF inv]
  have m: "members ?s b = members s b" for b by (simp add: members_def)
  show ?thesis
  proof (rule sessions_invI)
    show "map_of (ts_sessions ?s) (sid_of ?s b) = Some b" if "members ?s b \<noteq> {}" for b
    proof -
      have b: "map_of (ts_sessions s) (sid_of s b) = Some b" "b \<noteq> a" using that D(3) a by (auto simp: m)
      then have "sid_of s b \<noteq> sid_of s a" using a(2) by (metis option.inject)
      with b show ?thesis by (simp add: delete_conv')
    qed
    show "map_of (ts_sessions ?s) k = Some b \<Longrightarrow> k = sid_of ?s b" for k b
      using D(4) [of k b] by (auto simp: delete_conv' split: if_splits)
    show "map_of (ts_sessions ?s) k = Some b \<and> members ?s b = {}" if "(k, b) \<in> set (ts_idle ?s)" for k b
    proof -
      have "(k, b) \<in> set (ts_idle s)" "k \<noteq> sid_of s a" using that by (auto simp: AList.delete_eq)
      then show ?thesis using D(5) [of k b] by (simp add: m delete_conv')
    qed
    show "distinct (map fst (ts_idle ?s))" using D(6) by (auto simp: AList.delete_eq distinct_map_filter)
  qed (use D(1,2,7) in \<open>auto simp: m\<close>)
qed

lemma sessions_inv_release [neu]:
  assumes inv: "sessions_inv s"
  shows "sessions_inv (release c final s)"
proof (cases "tc_audit (ts_call s c)")
  case None
  then show ?thesis using inv by (simp add: release_def)
next
  case (Some a)
  show ?thesis
  proof (cases "tc_released (ts_call s c)")
    case True
    then show ?thesis using inv Some by (simp add: release_def)
  next
    case False
    note D = sessions_invD [OF inv]
    let ?s2 = "upd_audit a (\<lambda>x. x\<lparr>as_live := as_live x - 1\<rparr>) (upd_call c (\<lambda>t. t\<lparr>tc_released := True\<rparr>) s)"
    have c: "c \<in> members s a" using Some False by (simp add: members_def)
    have m: "members ?s2 b = (if b = a then members s a - {c} else members s b)" for b
      using Some by (auto simp: members_def upd_call_def upd_audit_def)
    have f: "ts_sessions ?s2 = ts_sessions s" "ts_idle ?s2 = ts_idle s" "ts_fresh ?s2 = ts_fresh s"
      "\<And>b. sid_of ?s2 b = sid_of s b" "\<And>d. tc_audit (ts_call ?s2 d) = tc_audit (ts_call s d)"
      by (simp_all add: upd_call_def upd_audit_def)
    have live: "as_live (ts_audit ?s2 b) = as_live (ts_audit s b) - (if b = a then 1 else 0)" for b
      by (simp add: upd_call_def upd_audit_def)
    have "card (members s a - {c}) + 1 = card (members s a)"
      using card_Suc_Diff1 [OF D(1) c] by simp
    then have card: "as_live (ts_audit ?s2 b) = int (card (members ?s2 b))" for b
      using D(2) [of b] unfolding live m by (auto split: if_split)
    have s2: "sessions_inv ?s2"
    proof (rule sessions_invI)
      show "map_of (ts_sessions ?s2) (sid_of ?s2 b) = Some b" if "members ?s2 b \<noteq> {}" for b
        using that D(3) [of b] by (auto simp: m f split: if_splits)
      show "(k, b) \<in> set (ts_idle ?s2) \<Longrightarrow> map_of (ts_sessions ?s2) k = Some b \<and> members ?s2 b = {}" for k b
        using D(5) [of k b] by (auto simp: m f split: if_splits)
    qed (use D card in \<open>auto simp: m f\<close>)
    have ses: "map_of (ts_sessions ?s2) (sid_of ?s2 a) = Some a" using D(3) [of a] c by (auto simp: f)
    have none: "members ?s2 a = {}" if "\<not> as_live (ts_audit ?s2 a) > 0"
    proof -
      have "card (members ?s2 a) = 0" using that unfolding card by simp
      then show ?thesis using sessions_invD(1) [OF s2] by simp
    qed
    show ?thesis
      unfolding release_def Some option.case Let_def using False
      by (auto intro: s2 sessions_inv_keep_idle [OF s2 none ses] sessions_inv_drop_session [OF s2 none ses])
  qed
qed

lemma neu_end_call [neu]: "sessions_inv s \<Longrightarrow> sessions_inv (end_call c final s)"
  unfolding end_call_def Let_def by (intro neu) simp_all

lemma neu_evict_waiting [neu]: "sessions_inv s \<Longrightarrow> sessions_inv (evict_waiting n s)"
  by (induction n arbitrary: s) (auto split: list.split intro: neu)

lemma neu_keep_waiting [neu]: "sessions_inv s \<Longrightarrow> sessions_inv (keep_waiting c f s)"
  unfolding keep_waiting_def Let_def by (intro neu) simp_all

lemma neu_conclude_waiting [neu]: "sessions_inv s \<Longrightarrow> sessions_inv (conclude_waiting c s)"
  unfolding conclude_waiting_def Let_def by (intro neu) simp_all

lemma neu_final_frame [neu]: "sessions_inv s \<Longrightarrow> sessions_inv (snd (final_frame c f s))"
  by (auto simp: final_frame_def Let_def split: option.split rpc_frame.split intro!: neu)

lemma neu_deliver_final [neu]: "sessions_inv s \<Longrightarrow> sessions_inv (snd (deliver_final c f s))"
  using neu_final_frame [of s c f] by (auto simp: deliver_final_def split: option.split prod.split intro!: neu)

lemma neu_finish [neu]: "sessions_inv s \<Longrightarrow> sessions_inv (snd (finish c f s))"
  by (auto simp: finish_def Let_def split: option.split intro!: neu)

lemma neu_take_final [neu]: "sessions_inv s \<Longrightarrow> sessions_inv (snd (take_final i f s))"
  by (auto simp: take_final_def Let_def split: option.split intro!: neu)

lemma neu_pump_outbound [neu]: "sessions_inv s \<Longrightarrow> sessions_inv (pump_outbound cf f s)"
proof -
  assume s: "sessions_inv s"
  then have "sessions_inv (snd (outbound cf f s))"
    by (auto simp: outbound_def split: rpc_frame.split intro!: neu)
  then show ?thesis by (auto simp: pump_outbound_def split: prod.split option.split intro!: neu)
qed

lemma neu_accept_retry [neu]: "sessions_inv s \<Longrightarrow> sessions_inv (accept_retry cf c out i params request s)"
  by (auto simp: accept_retry_def Let_def intro!: neu)

lemma neu_take_retry [neu]:
  assumes s: "sessions_inv s"
  shows "sessions_inv (snd (take_retry cf token i params request s))"
proof (cases "map_of (ts_rounds s) token")
  case None
  then show ?thesis using neu_send_frame [OF s] by (simp add: take_retry_def split: prod.split) (metis snd_conv)
next
  case (Some x)
  obtain c out where x: "x = (c, out)" by (cases x)
  let ?s1 = "accept_retry cf c out i params request (s\<lparr>ts_rounds := AList.delete token (ts_rounds s)\<rparr>)"
  have s1: "sessions_inv ?s1" using s by (intro neu)
  have "sessions_inv (snd (take_retry cf token i params request s)) \<longleftrightarrow>
      sessions_inv (case tc_final (ts_call ?s1 c) of None \<Rightarrow> ?s1 | Some f \<Rightarrow> snd (deliver_final c f ?s1))"
    using Some x by (simp add: take_retry_def Let_def split: option.split prod.split)
  then show ?thesis using s1 by (auto split: option.split intro: neu)
qed

section \<open>New requests\<close>

text \<open>Entering a session leaves every invariant true but the count, which is one ahead until the call exists.\<close>

definition one_ahead :: "(nat \<Rightarrow> nat set) \<Rightarrow> nat \<Rightarrow> 'r tool_seam \<Rightarrow> bool" where
  "one_ahead mem a s \<longleftrightarrow> map_of (ts_sessions s) (sid_of s a) = Some a \<and> (\<forall>k. (k, a) \<notin> set (ts_idle s)) \<and>
     (\<forall>b. as_live (ts_audit s b) = int (card (mem b)) + (if b = a then 1 else 0)) \<and>
     (\<forall>b. mem b \<noteq> {} \<longrightarrow> map_of (ts_sessions s) (sid_of s b) = Some b) \<and>
     (\<forall>k b. map_of (ts_sessions s) k = Some b \<longrightarrow> k = sid_of s b) \<and>
     (\<forall>k b. (k, b) \<in> set (ts_idle s) \<longrightarrow> map_of (ts_sessions s) k = Some b \<and> mem b = {}) \<and>
     distinct (map fst (ts_idle s))"

lemma one_aheadD:
  assumes "one_ahead mem a s"
  shows "map_of (ts_sessions s) (sid_of s a) = Some a" "(k, a) \<notin> set (ts_idle s)"
    "as_live (ts_audit s b) = int (card (mem b)) + (if b = a then 1 else 0)"
    "mem b \<noteq> {} \<Longrightarrow> map_of (ts_sessions s) (sid_of s b) = Some b"
    "map_of (ts_sessions s) k = Some b \<Longrightarrow> k = sid_of s b"
    "(k, b) \<in> set (ts_idle s) \<Longrightarrow> map_of (ts_sessions s) k = Some b \<and> mem b = {}"
    "distinct (map fst (ts_idle s))"
  using assms unfolding one_ahead_def by blast+

lemma one_aheadI:
  assumes "map_of (ts_sessions s) (sid_of s a) = Some a" "\<And>k. (k, a) \<notin> set (ts_idle s)"
    "\<And>b. as_live (ts_audit s b) = int (card (mem b)) + (if b = a then 1 else 0)"
    "\<And>b. mem b \<noteq> {} \<Longrightarrow> map_of (ts_sessions s) (sid_of s b) = Some b"
    "\<And>k b. map_of (ts_sessions s) k = Some b \<Longrightarrow> k = sid_of s b"
    "\<And>k b. (k, b) \<in> set (ts_idle s) \<Longrightarrow> map_of (ts_sessions s) k = Some b \<and> mem b = {}"
    "distinct (map fst (ts_idle s))"
  shows "one_ahead mem a s"
  using assms unfolding one_ahead_def by blast

lemma sessions_inv_enter_audit:
  assumes inv: "sessions_inv s" and ans: "answers_inv cf log s" and e: "enter_audit sid declared s = (a, s1)"
  shows "one_ahead (members s) a s1"
proof -
  note D = sessions_invD [OF inv] and A = answers_invD [OF ans]
  have idle: "(k, b) \<in> set (AList.delete sid (ts_idle s)) \<Longrightarrow>
      k \<noteq> sid \<and> map_of (ts_sessions s) k = Some b \<and> members s b = {}" for k b
    using D(5) [of k b] by (auto simp: AList.delete_eq)
  have dist: "distinct (map fst (AList.delete sid (ts_idle s)))"
    using D(6) by (auto simp: AList.delete_eq distinct_map_filter)
  show ?thesis
  proof (cases "map_of (ts_sessions s) sid")
    case (Some b)
    then have ab: "b = a" and s1: "s1 = upd_audit a (\<lambda>x. x\<lparr>as_live := as_live x + 1\<rparr>) (s\<lparr>ts_idle := AList.delete sid (ts_idle s)\<rparr>)"
      using e by (auto simp: enter_audit_def)
    have f: "ts_sessions s1 = ts_sessions s" "ts_idle s1 = AList.delete sid (ts_idle s)" "\<And>b. sid_of s1 b = sid_of s b"
      "\<And>b. as_live (ts_audit s1 b) = as_live (ts_audit s b) + (if b = a then 1 else 0)"
      by (simp_all add: s1 upd_audit_def)
    have sid: "sid = sid_of s a" using D(4) Some ab by simp
    have "(k, a) \<notin> set (ts_idle s1)" for k using idle [of k a] D(4) [of k a] sid unfolding f by blast
    moreover have "map_of (ts_sessions s) k = Some b \<and> members s b = {}" if "(k, b) \<in> set (AList.delete sid (ts_idle s))" for k b
      using idle [OF that] by blast
    moreover have "map_of (ts_sessions s1) (sid_of s1 a) = Some a" using Some ab sid by (simp add: f)
    moreover have "as_live (ts_audit s1 b) = int (card (members s b)) + (if b = a then 1 else 0)" for b
      using D(2) [of b] by (simp add: f)
    moreover have "members s b \<noteq> {} \<Longrightarrow> map_of (ts_sessions s1) (sid_of s1 b) = Some b" for b
      using D(3) unfolding f by blast
    moreover have "map_of (ts_sessions s1) k = Some b \<Longrightarrow> k = sid_of s1 b" for k b using D(4) unfolding f by blast
    ultimately show ?thesis using dist by (intro one_aheadI) (unfold f, blast+)
  next
    case None
    then have a: "a = ts_fresh s" and f: "ts_sessions s1 = AList.update sid a (ts_sessions s)"
        "ts_idle s1 = AList.delete sid (ts_idle s)"
        "ts_audit s1 = (ts_audit s)(a := \<lparr>as_session_id = sid, as_host_capability = declared, as_numbering = Suc a, as_live = 1\<rparr>)"
      using e by (auto simp: enter_audit_def Let_def)
    have none: "members s a = {}" using A(2) unfolding a members_def by fastforce
    have old: "b \<noteq> a" if "map_of (ts_sessions s) k = Some b" for k b
      using A(8) map_of_SomeD [OF that] unfolding a by fastforce
    have "map_of (ts_sessions s1) (sid_of s1 b) = Some b" if "members s b \<noteq> {}" for b
    proof -
      have "map_of (ts_sessions s) (sid_of s b) = Some b" "b \<noteq> a" using that D(3) none by auto
      with None show ?thesis by (auto simp: f update_conv')
    qed
    moreover have "k = sid_of s1 b" if "map_of (ts_sessions s1) k = Some b" for k b
      using that D(4) [of k b] old [of k b] by (auto simp: f update_conv' split: if_splits)
    moreover have "map_of (ts_sessions s1) k = Some b \<and> members s b = {}" if "(k, b) \<in> set (ts_idle s1)" for k b
      using idle [of k b] that by (simp add: f update_conv')
    moreover have "(k, a) \<notin> set (ts_idle s1)" for k using idle [of k a] old [of k a] by (auto simp: f)
    moreover have "as_live (ts_audit s1 b) = int (card (members s b)) + (if b = a then 1 else 0)" for b
      using D(2) [of b] none by (auto simp: f)
    moreover have "map_of (ts_sessions s1) (sid_of s1 a) = Some a" by (simp add: f update_conv')
    moreover have "distinct (map fst (ts_idle s1))" using dist by (simp add: f)
    ultimately show ?thesis by (intro one_aheadI) blast+
  qed
qed

lemma sessions_inv_new_call:
  assumes fin: "\<And>b. finite (members s b)"
    and call: "\<And>d b. tc_audit (ts_call s d) = Some b \<Longrightarrow> d < ts_fresh s"
    and t: "tc_audit t = Some a" "\<not> tc_released t"
    and e: "one_ahead (members s) a s"
  shows "sessions_inv (s\<lparr>ts_call := (ts_call s)(ts_fresh s := t), ts_fresh := Suc (Suc (ts_fresh s)), ts_calls := cs\<rparr>)"
    (is "sessions_inv ?s")
proof (rule sessions_invI)
  let ?c = "ts_fresh s"
  note E = one_aheadD [OF e]
  have m: "members ?s b = (if b = a then insert ?c (members s b) else members s b)" for b
    using t call [of ?c] by (auto simp: members_def)
  have c: "?c \<notin> members s b" for b using call by (auto simp: members_def)
  show "finite (members ?s b)" for b using fin by (simp add: m)
  show "as_live (ts_audit ?s b) = int (card (members ?s b))" for b
    using E(3) [of b] fin [of b] c [of b] by (cases "b = a") (simp_all add: m)
  show "map_of (ts_sessions ?s) (sid_of ?s b) = Some b" if "members ?s b \<noteq> {}" for b
    using E(1,4) that by (cases "b = a") (simp_all add: m)
  show "map_of (ts_sessions ?s) k = Some b \<Longrightarrow> k = sid_of ?s b" for k b using E(5) by simp
  show "map_of (ts_sessions ?s) k = Some b \<and> members ?s b = {}" if "(k, b) \<in> set (ts_idle ?s)" for k b
    using E(2) [of k] E(6) [of k b] that by (cases "b = a") (simp_all add: m)
  show "distinct (map fst (ts_idle ?s))" using E(7) by simp
  show "tc_audit (ts_call ?s d) = Some b \<Longrightarrow> d < ts_fresh ?s" for d b
    using call [of d b] by (auto split: if_splits)
qed

lemma sessions_inv_open_call:
  assumes inv: "sessions_inv s" and ans: "answers_inv cf log s"
  shows "sessions_inv (open_call cf own i params request s)"
proof (cases "parse_request_meta (cf_lib cf) (dget (meta_of (JDict (params_of params))) EXTENSION_ID)")
  case None
  have "sessions_inv (s\<lparr>ts_call := (ts_call s)(ts_fresh s := t), ts_fresh := Suc (Suc (ts_fresh s)), ts_calls := cs\<rparr>)"
    if t: "tc_audit t = None" for t cs
  proof -
    note D = sessions_invD [OF inv]
    have "tc_audit (ts_call s (ts_fresh s)) = None"
      using D(7) [of "ts_fresh s"] by (cases "tc_audit (ts_call s (ts_fresh s))") auto
    then have m: "members (s\<lparr>ts_call := (ts_call s)(ts_fresh s := t), ts_fresh := Suc (Suc (ts_fresh s)), ts_calls := cs\<rparr>) b
        = members s b" for b
      using t by (auto simp: members_def)
    show ?thesis
      by (rule sessions_invI) (use D t in \<open>auto simp: m less_Suc_eq split: if_splits\<close>)
  qed
  then show ?thesis using None unfolding open_call_def Let_def by simp
next
  case (Some m)
  let ?d = "params_of params"
  let ?declared = "if is_modern (cf_mcp cf) (JDict ?d)
    then capability_of (dget (meta_of (JDict ?d)) (mcp_capabilities_key (cf_mcp cf))) else ts_handshake_capability s"
  obtain a s1 where e: "enter_audit (rm_session_id m) ?declared s = (a, s1)" by force
  note F = enter_audit_fields [OF e] and D = sessions_invD [OF inv]
  have mem: "members s1 = members s" by (simp add: members_def F(1) fun_eq_iff)
  have "sessions_inv (s1\<lparr>ts_call := (ts_call s1)(ts_fresh s1 := t), ts_fresh := Suc (Suc (ts_fresh s1)), ts_calls := cs\<rparr>)"
    if t: "tc_audit t = Some a" "\<not> tc_released t" for t cs
  proof (rule sessions_inv_new_call [OF _ _ t])
    show "finite (members s1 b)" for b using D(1) by (simp add: mem)
    show "tc_audit (ts_call s1 d) = Some b \<Longrightarrow> d < ts_fresh s1" for d b
      using D(7) [of d b] F(6) by (simp add: F(1))
    show "one_ahead (members s1) a s1" using sessions_inv_enter_audit [OF inv ans e] by (simp add: mem)
  qed
  then show ?thesis using Some e unfolding open_call_def Let_def by simp
qed

lemma tool_run_sessions: "tool_run cf log s \<Longrightarrow> Closed \<notin> set log \<Longrightarrow> sessions_inv s"
proof (induction rule: tool_run.induct)
  case start
  show ?case
    by (rule sessions_invI) (simp_all add: new_tool_seam_def no_call_def no_audit_def members_def)
next
  case (inbound log s f own request)
  then have s: "sessions_inv s" by simp
  then have "sessions_inv (take_answer cf rid g s)" "sessions_inv (snd (cancel_call params s))"
    "sessions_inv (read_handshake mc m params (s\<lparr>ts_handshake_id := j\<rparr>))" for rid g mc m params j
    by (auto simp: take_answer_def cancel_call_def read_handshake_def Let_def split: option.split intro!: neu)
  then show ?case
    using s neu_take_retry [OF s] sessions_inv_open_call [OF s tool_run_answers [OF inbound.hyps]]
    by (auto simp: inbound_def take_call_def split: rpc_frame.split option.split rid.split)
next
  case (outbound log s f)
  then show ?case by (intro neu)
next
  case (negotiate log s c offered)
  then show ?case by (auto simp: negotiate_call_def Let_def intro!: neu)
next
  case (attempt log s c event r s')
  then have "sessions_inv s" by simp
  then have "sessions_inv (snd (call_send_attempt cf c event s))"
    by (auto simp: call_send_attempt_def send_attempt_def send_frame_def Let_def split: prod.split intro!: neu)
  then show ?case using attempt by simp
next
  case (answer log s c event p rid r s')
  then have "sessions_inv s" by simp
  then have "sessions_inv (snd (attempt_answer cf c event p rid s))"
    by (auto simp: attempt_answer_def Let_def split: response.split option.split intro!: neu)
  then show ?case using answer by simp
next
  case (outcome log s c event)
  then show ?case by (auto simp: call_send_outcome_def send_outcome_def Let_def intro!: neu)
next
  case (round log s c raw)
  then have "sessions_inv s" by simp
  then show ?case by (auto simp: end_round_def Let_def split: option.split intro!: neu)
next
  case (forget log s k)
  then show ?case by (auto simp: forget_cancelled_def intro!: neu)
next
  case (break log s)
  then show ?case by (intro neu) simp
next
  case (close log s)
  then show ?case by simp
qed

end
