(* ===== verification/McpToolOutcomes.thy ===== *)
theory McpToolOutcomes
  imports McpToolSessions
begin

text \<open>
  What the operations of the tool side leave of the buffer of a call and of the session id it answers under:
  \<open>holds\<close> is that neither changes and the streams stay as they are. Only \<open>end_round\<close> and \<open>final_frame\<close> empty a
  buffer, and what they take out goes to the peer or back into it.
\<close>

definition holds :: "'r tool_seam \<Rightarrow> 'r tool_seam \<Rightarrow> bool" where
  "holds s s' \<longleftrightarrow> ts_open s' = ts_open s \<and> set (ts_sent s) \<subseteq> set (ts_sent s') \<and>
     (\<forall>c. tc_buffered (ts_call s' c) = tc_buffered (ts_call s c) \<and> call_session_id s' c = call_session_id s c)"

definition delivered :: "pystr \<Rightarrow> jobj \<Rightarrow> 'r tool_seam \<Rightarrow> bool" where
  "delivered sid event s \<longleftrightarrow> (\<exists>i result events. (Response i result, None) \<in> set (ts_sent s) \<and>
     dget (meta_of (JDict result)) EXTENSION_ID = JDict (result_meta_to_wire sid events) \<and> event \<in> set events)"

named_theorems hld \<open>an operation leaves the buffers\<close>

lemma holds_refl: "holds s s"
  by (simp add: holds_def)

lemma holds_trans: "holds s t \<Longrightarrow> holds t u \<Longrightarrow> holds s u"
  by (auto simp: holds_def)

lemma session_id_fields [simp]:
  "call_session_id (s\<lparr>ts_handshake_id := v0\<rparr>) c = call_session_id s c"
  "call_session_id (s\<lparr>ts_handshake_seen := v1\<rparr>) c = call_session_id s c"
  "call_session_id (s\<lparr>ts_handshake_capability := v2\<rparr>) c = call_session_id s c"
  "call_session_id (s\<lparr>ts_calls := v3\<rparr>) c = call_session_id s c"
  "call_session_id (s\<lparr>ts_rounds := v4\<rparr>) c = call_session_id s c"
  "call_session_id (s\<lparr>ts_sessions := v5\<rparr>) c = call_session_id s c"
  "call_session_id (s\<lparr>ts_idle := v6\<rparr>) c = call_session_id s c"
  "call_session_id (s\<lparr>ts_pending := v7\<rparr>) c = call_session_id s c"
  "call_session_id (s\<lparr>ts_waiting := v8\<rparr>) c = call_session_id s c"
  "call_session_id (s\<lparr>ts_cancelled := v9\<rparr>) c = call_session_id s c"
  "call_session_id (s\<lparr>ts_next_id := v10\<rparr>) c = call_session_id s c"
  "call_session_id (s\<lparr>ts_response := v11\<rparr>) c = call_session_id s c"
  "call_session_id (s\<lparr>ts_tasks := v12\<rparr>) c = call_session_id s c"
  "call_session_id (s\<lparr>ts_open := v13\<rparr>) c = call_session_id s c"
  "call_session_id (s\<lparr>ts_sent := v14\<rparr>) c = call_session_id s c"
  by (simp_all add: call_session_id_def split: option.split)

lemma hld_fields [hld]:
  "holds s0 s \<Longrightarrow> holds s0 (s\<lparr>ts_calls := e\<rparr>)"
  "holds s0 s \<Longrightarrow> holds s0 (s\<lparr>ts_calls := e, ts_waiting := f\<rparr>)"
  "holds s0 s \<Longrightarrow> holds s0 (s\<lparr>ts_handshake_id := a\<rparr>)"
  "holds s0 s \<Longrightarrow> holds s0 (s\<lparr>ts_handshake_capability := d, ts_handshake_seen := b\<rparr>)"
  "holds s0 s \<Longrightarrow> holds s0 (s\<lparr>ts_idle := g\<rparr>)"
  "holds s0 s \<Longrightarrow> holds s0 (s\<lparr>ts_sessions := g\<rparr>)"
  "holds s0 s \<Longrightarrow> holds s0 (s\<lparr>ts_sessions := g, ts_idle := h\<rparr>)"
  "holds s0 s \<Longrightarrow> holds s0 (s\<lparr>ts_idle := h, ts_sessions := g\<rparr>)"
  "holds s0 s \<Longrightarrow> holds s0 (s\<lparr>ts_waiting := f\<rparr>)"
  "holds s0 s \<Longrightarrow> holds s0 (s\<lparr>ts_cancelled := i\<rparr>)"
  "holds s0 s \<Longrightarrow> holds s0 (s\<lparr>ts_pending := i2\<rparr>)"
  "holds s0 s \<Longrightarrow> holds s0 (s\<lparr>ts_rounds := i3\<rparr>)"
  "holds s0 s \<Longrightarrow> holds s0 (s\<lparr>ts_tasks := j\<rparr>)"
  by (simp_all add: holds_def)

lemma session_id_objects:
  "(\<And>x. as_session_id (g x) = as_session_id x) \<Longrightarrow> call_session_id (upd_audit a g s) d = call_session_id s d"
  "\<lbrakk>\<And>t. tc_audit (f t) = tc_audit t; \<And>t. tc_negotiated (f t) = tc_negotiated t;
    \<And>t. tc_own_session_id (f t) = tc_own_session_id t\<rbrakk> \<Longrightarrow> call_session_id (upd_call c f s) d = call_session_id s d"
  by (simp_all add: call_session_id_def upd_audit_def upd_call_def split: option.split)

lemma hld_upd_call [hld]:
  assumes "holds s0 s" "\<And>t. tc_buffered (f t) = tc_buffered t" "\<And>t. tc_audit (f t) = tc_audit t"
    "\<And>t. tc_negotiated (f t) = tc_negotiated t" "\<And>t. tc_own_session_id (f t) = tc_own_session_id t"
  shows "holds s0 (upd_call c f s)"
  using assms session_id_objects(2) [of f c s] by (simp add: holds_def) (simp add: upd_call_def)

lemma hld_upd_audit [hld]:
  "holds s0 s \<Longrightarrow> (\<And>x. as_session_id (f x) = as_session_id x) \<Longrightarrow> holds s0 (upd_audit a f s)"
  using session_id_objects(1) [of f a s] by (simp add: holds_def) (simp add: upd_audit_def)

lemma hld_settle [hld]: "holds s0 s \<Longrightarrow> holds s0 (settle p r s)"
  by (simp add: holds_def settle_def)

lemma hld_settle_all [hld]: "holds s0 s \<Longrightarrow> holds s0 (settle_all ps s)"
  by (induction ps arbitrary: s) (simp_all add: hld_settle)

lemma hld_settle_round [hld]: "holds s0 s \<Longrightarrow> holds s0 (settle_round rs ps s)"
  by (induction rs ps s rule: settle_round.induct) (simp_all add: hld_settle)

lemma hld_send_frame [hld]: "holds s0 s \<Longrightarrow> holds s0 (snd (send_frame f r s))"
  by (auto simp: send_frame_def holds_def)

lemma hld_start_task [hld]: "holds s0 s \<Longrightarrow> holds s0 (start_task t s)"
  by (simp add: start_task_def hld_fields)

lemma hld_schedule_round [hld]: "holds s0 s \<Longrightarrow> holds s0 (schedule_round c s)"
  by (auto simp: schedule_round_def intro!: hld)

lemma hld_keep_idle [hld]: "holds s0 s \<Longrightarrow> holds s0 (keep_idle a s)"
  by (auto simp: keep_idle_def Let_def split: prod.split intro!: hld)

lemma hld_release [hld]: "holds s0 s \<Longrightarrow> holds s0 (release c final s)"
  by (auto simp: release_def Let_def split: option.split intro!: hld)

lemma hld_drop_pending [hld]: "holds s0 s \<Longrightarrow> holds s0 (drop_pending c ps s)"
proof (induction ps arbitrary: s)
  case (Cons x ps)
  obtain rid p owner where x: "x = (rid, p, owner)" by (cases x)
  show ?case using Cons.prems by (auto simp: x intro!: Cons.IH hld)
qed simp

lemma hld_close_round [hld]: "holds s0 s \<Longrightarrow> holds s0 (close_round c s)"
  by (auto simp: close_round_def split: option.split intro!: hld)

lemma hld_clear_awaiting [hld]: "holds s0 s \<Longrightarrow> holds s0 (clear_awaiting c s)"
  by (auto simp: clear_awaiting_def intro!: hld)

lemma hld_end_call [hld]: "holds s0 s \<Longrightarrow> holds s0 (end_call c final s)"
  by (auto simp: end_call_def Let_def intro!: hld)

lemma hld_evict_waiting [hld]: "holds s0 s \<Longrightarrow> holds s0 (evict_waiting n s)"
  by (induction n arbitrary: s) (auto split: list.split intro!: hld)

lemma hld_keep_waiting [hld]: "holds s0 s \<Longrightarrow> holds s0 (keep_waiting c f s)"
  unfolding keep_waiting_def Let_def by (rule hld_evict_waiting) (auto intro!: hld)

lemma hld_conclude_waiting [hld]: "holds s0 s \<Longrightarrow> holds s0 (conclude_waiting c s)"
  by (auto simp: conclude_waiting_def Let_def intro!: hld)

lemma hld_cancel_call [hld]: "holds s0 s \<Longrightarrow> holds s0 (snd (cancel_call params s))"
  by (auto simp: cancel_call_def Let_def split: option.split intro!: hld)

lemma hld_take_answer [hld]: "holds s0 s \<Longrightarrow> holds s0 (take_answer cf rid f s)"
  by (auto simp: take_answer_def split: option.split intro!: hld)

lemma hld_accept_retry [hld]: "holds s0 s \<Longrightarrow> holds s0 (accept_retry cf c out i params request s)"
  by (auto simp: accept_retry_def Let_def intro!: hld)

lemma hld_read_handshake [hld]: "holds s0 s \<Longrightarrow> holds s0 (read_handshake mc meth params s)"
  by (simp add: read_handshake_def Let_def hld_fields)

section \<open>The operations that empty a buffer\<close>

text \<open>Where a buffered outcome is after a step that may have taken it.\<close>

definition kept_or_sent :: "pystr \<Rightarrow> jobj \<Rightarrow> nat \<Rightarrow> 'r tool_seam \<Rightarrow> bool" where
  "kept_or_sent sid event c s \<longleftrightarrow> event \<in> set (tc_buffered (ts_call s c)) \<or> delivered sid event s"

lemma kept_holds: "kept_or_sent sid event c s \<Longrightarrow> holds s s' \<Longrightarrow> kept_or_sent sid event c s'"
  unfolding kept_or_sent_def delivered_def holds_def by (metis subsetD)

lemma with_outcomes_meta:
  "evs \<noteq> [] \<Longrightarrow> dget (meta_of (JDict (with_outcomes sid evs result))) EXTENSION_ID = JDict (result_meta_to_wire sid evs)"
  by (simp add: with_outcomes_def meta_of_def)

lemma delivered_send:
  assumes "ts_open s" "dget (meta_of (JDict result)) EXTENSION_ID = JDict (result_meta_to_wire sid events)" "event \<in> set events"
  shows "delivered sid event (snd (send_frame (Response i result) None s))"
  using assms unfolding delivered_def send_frame_def by auto

definition send_result :: "rpc_frame option \<times> 'r tool_seam \<Rightarrow> 'r tool_seam" where
  "send_result x = (case fst x of None \<Rightarrow> snd x | Some g \<Rightarrow> snd (send_frame g None (snd x)))"

lemma final_frame_keeps:
  assumes "ts_open s" "event \<in> set (tc_buffered (ts_call s c))" "\<not> is_attempt (JDict event)"
  shows "kept_or_sent (call_session_id s c) event c (send_result (final_frame d f s))"
proof (cases "tc_current_id (ts_call s d)")
  case None
  then show ?thesis using assms by (simp add: final_frame_def send_result_def kept_or_sent_def)
next
  case (Some i)
  let ?cut = "\<lambda>e s. upd_call d (\<lambda>t. t\<lparr>tc_buffered := e\<rparr>) s"
  let ?out = "outcomes_of (tc_buffered (ts_call s d))"
  let ?s1 = "clear_awaiting d (?cut [] s)"
  have cut: "call_session_id (?cut e s') x = call_session_id s' x" "ts_open (?cut e s') = ts_open s'"
    "tc_buffered (ts_call (?cut e s') x) = (if x = d then e else tc_buffered (ts_call s' x))" for e s' x
    by (simp_all add: session_id_objects(2)) (simp_all add: upd_call_def)
  have s1: "holds (?cut [] s) ?s1" by (intro hld holds_refl)
  then have sid: "call_session_id ?s1 x = call_session_id s x" "ts_open ?s1 = ts_open s"
    "c \<noteq> d \<Longrightarrow> event \<in> set (tc_buffered (ts_call ?s1 c))" for x
    using assms(2) by (simp_all add: holds_def cut)
  have mine: "event \<in> set ?out" if "c = d" using assms(2,3) that by (simp add: outcomes_of_def)
  have others: "kept_or_sent (call_session_id s c) event c s'" if "c \<noteq> d" "holds ?s1 s'" for s'
    using sid(3) [OF that(1)] that(2) by (simp add: kept_or_sent_def holds_def)
  show ?thesis
  proof (cases f)
    case (Response j result)
    let ?s2 = "conclude_waiting d ?s1"
    have eq: "send_result (final_frame d f s) = snd (send_frame (Response i (with_outcomes (call_session_id s d) ?out result)) None ?s2)"
      using Some Response sid by (simp add: final_frame_def send_result_def Let_def)
    have s2: "holds ?s1 ?s2" by (intro hld holds_refl)
    then have "ts_open ?s2" using assms(1) sid(2) by (simp add: holds_def)
    have "kept_or_sent (call_session_id s c) event c (send_result (final_frame d f s))" if "c = d"
    proof -
      have "?out \<noteq> []" using mine [OF that] by auto
      from delivered_send [OF \<open>ts_open ?s2\<close> with_outcomes_meta [OF this] mine [OF that]] show ?thesis
        unfolding kept_or_sent_def eq that by (rule disjI2)
    qed
    moreover have "kept_or_sent (call_session_id s c) event c (send_result (final_frame d f s))" if "c \<noteq> d"
      unfolding eq by (rule others [OF that]) (intro hld holds_refl)
    ultimately show ?thesis by blast
  next
    case (Error j e)
    show ?thesis
    proof (cases "?out = []")
      case True
      then have "c \<noteq> d" using mine by auto
      moreover have "send_result (final_frame d f s) = snd (send_frame (Error (Some i) e) None (conclude_waiting d ?s1))"
        using Some Error True by (simp add: final_frame_def send_result_def Let_def)
      ultimately show ?thesis by (auto intro!: others hld holds_refl)
    next
      case False
      let ?s2 = "?cut ?out ?s1"
      have eq: "send_result (final_frame d f s) = schedule_round d (keep_waiting d f ?s2)"
        using Some Error False by (simp add: final_frame_def send_result_def Let_def)
      have "event \<in> set (tc_buffered (ts_call ?s2 c))" using mine sid(3) by (simp add: cut)
      moreover have "holds ?s2 (schedule_round d (keep_waiting d f ?s2))" by (intro hld holds_refl)
      ultimately show ?thesis unfolding eq kept_or_sent_def by (simp add: holds_def)
    qed
  qed (use assms Some in \<open>simp_all add: final_frame_def send_result_def kept_or_sent_def Let_def\<close>)
qed

lemma kept_from:
  assumes "holds s s1" "ts_open s1 \<Longrightarrow> event \<in> set (tc_buffered (ts_call s1 c)) \<Longrightarrow> kept_or_sent (call_session_id s1 c) event c s'"
    and "ts_open s" "event \<in> set (tc_buffered (ts_call s c))"
  shows "kept_or_sent (call_session_id s c) event c s'"
  using assms by (simp add: holds_def)

lemma finish_keeps:
  assumes "ts_open s" "event \<in> set (tc_buffered (ts_call s c))" "\<not> is_attempt (JDict event)"
  shows "kept_or_sent (call_session_id s c) event c (send_result (finish d f s))"
proof (rule kept_from [OF _ _ assms(1,2)])
  let ?s1 = "release d (\<not> continues f) s"
  show "holds s ?s1" by (intro hld holds_refl)
  assume a: "ts_open ?s1" "event \<in> set (tc_buffered (ts_call ?s1 c))"
  show "kept_or_sent (call_session_id ?s1 c) event c (send_result (finish d f s))"
  proof (cases "tc_modern (ts_call ?s1 d) \<and> tc_round (ts_call ?s1 d) = None")
    case True
    then show ?thesis using final_frame_keeps [OF a assms(3)] by (simp add: finish_def Let_def)
  next
    case False
    then have "holds ?s1 (send_result (finish d f s))"
      by (auto simp: finish_def Let_def send_result_def split: option.split intro!: hld holds_refl)
    then show ?thesis using a(2) by (simp add: holds_def kept_or_sent_def)
  qed
qed

lemma pump_outbound_keeps:
  assumes "ts_open s" "event \<in> set (tc_buffered (ts_call s c))" "\<not> is_attempt (JDict event)"
  shows "kept_or_sent (call_session_id s c) event c (pump_outbound cf f s)"
proof -
  have pump: "pump_outbound cf f s = send_result (outbound cf f s)"
    by (simp add: pump_outbound_def send_result_def case_prod_beta split: option.split)
  have final: "kept_or_sent (call_session_id s c) event c (send_result (take_final i f s))" for i
  proof -
    consider "map_of (ts_cancelled s) (opt_rid_key i) = None" "\<exists>d. map_of (ts_calls s) (opt_rid_key i) = Some d"
      | "map_of (ts_cancelled s) (opt_rid_key i) \<noteq> None \<or> map_of (ts_calls s) (opt_rid_key i) = None" by auto
    then show ?thesis
    proof cases
      case 1
      then obtain d where d: "map_of (ts_calls s) (opt_rid_key i) = Some d" by blast
      let ?s1 = "upd_call d (\<lambda>t. t\<lparr>tc_finished := True\<rparr>) (s\<lparr>ts_calls := AList.delete (opt_rid_key i) (ts_calls s)\<rparr>)"
      have eq: "take_final i f s = finish d f ?s1" using 1 d by (simp add: take_final_def Let_def)
      have "holds s ?s1" by (auto intro!: hld holds_refl)
      then show ?thesis
        unfolding eq by (rule kept_from [OF _ _ assms(1,2)]) (rule finish_keeps [OF _ _ assms(3)])
    next
      case 2
      then have "holds s (send_result (take_final i f s))"
        by (auto simp: take_final_def Let_def send_result_def split: option.split intro!: hld holds_refl)
      then show ?thesis using assms(2) by (simp add: holds_def kept_or_sent_def)
    qed
  qed
  have same: "kept_or_sent (call_session_id s c) event c (send_result (Some g, s))" for g
    using assms(2) hld_send_frame [OF holds_refl [of s], of g None]
    by (simp add: send_result_def kept_or_sent_def holds_def)
  show ?thesis
    unfolding pump using final same by (cases f) (simp_all add: outbound_def)
qed

lemma end_round_keeps:
  assumes "ts_open s" "event \<in> set (tc_buffered (ts_call s c))"
  shows "kept_or_sent (call_session_id s c) event c (end_round cf raw d s)"
proof -
  let ?s0 = "upd_call d (\<lambda>t. t\<lparr>tc_round_scheduled := False\<rparr>) s"
  have s0: "holds s ?s0" by (auto intro!: hld holds_refl)
  let ?t = "ts_call ?s0 d" and ?token = "round_token (cf_instance cf) raw"
  show ?thesis
  proof (cases "tc_current_id ?t = None \<or> tc_ended ?t \<or> tc_round ?t \<noteq> None \<or> tc_buffered ?t = []")
    case True
    then have "end_round cf raw d s = ?s0" by (auto simp: end_round_def Let_def split: option.split)
    then show ?thesis using s0 assms(2) by (simp add: kept_or_sent_def holds_def)
  next
    case False
    then obtain i where i: "tc_current_id ?t = Some i" by auto
    let ?out = "\<lparr>rd_token = ?token, rd_awaiting = tc_buffered_awaiting ?t\<rparr>"
    let ?s1 = "upd_call d (\<lambda>t. t\<lparr>tc_buffered := [], tc_buffered_awaiting := [], tc_round := Some ?out,
        tc_current_id := None\<rparr>) ?s0"
    let ?s2 = "?s1\<lparr>ts_rounds := AList.update ?token (d, ?out) (ts_rounds ?s1)\<rparr>"
    have eq: "end_round cf raw d s =
        snd (send_frame (Response i (round_result ?token (call_session_id ?s2 d) (tc_buffered ?t))) None ?s2)"
      using False i by (simp add: end_round_def Let_def)
    have s2: "call_session_id ?s2 x = call_session_id s x" "ts_open ?s2"
      "tc_buffered (ts_call ?s2 x) = (if x = d then [] else tc_buffered (ts_call s x))" "tc_buffered ?t = tc_buffered (ts_call s d)" for x
      using assms(1) by (simp_all add: session_id_objects(2)) (simp_all add: upd_call_def)
    have meta: "dget (meta_of (JDict (round_result token sid evs))) EXTENSION_ID = JDict (result_meta_to_wire sid evs)" for token sid evs
      by (simp add: round_result_def meta_of_def)
    show ?thesis
    proof (cases "c = d")
      case True
      then show ?thesis
        unfolding eq kept_or_sent_def s2(1) s2(4) using delivered_send [OF s2(2) meta assms(2)] by blast
    next
      case False
      then have "event \<in> set (tc_buffered (ts_call ?s2 c))" using assms(2) s2(3) by simp
      then show ?thesis
        unfolding eq kept_or_sent_def using hld_send_frame [OF holds_refl [of ?s2]] by (simp add: holds_def)
    qed
  qed
qed

lemma deliver_final_keeps:
  assumes "ts_open s" "event \<in> set (tc_buffered (ts_call s c))" "\<not> is_attempt (JDict event)"
  shows "kept_or_sent (call_session_id s c) event c (snd (deliver_final d f s))"
proof -
  have "snd (deliver_final d f s) = send_result (final_frame d f s)"
    by (simp add: deliver_final_def send_result_def case_prod_beta split: option.split)
  then show ?thesis using final_frame_keeps [OF assms] by simp
qed

lemma take_retry_keeps:
  assumes "ts_open s" "event \<in> set (tc_buffered (ts_call s c))" "\<not> is_attempt (JDict event)"
  shows "kept_or_sent (call_session_id s c) event c (snd (take_retry cf token i params request s))"
proof (cases "map_of (ts_rounds s) token")
  case None
  then have "holds s (snd (take_retry cf token i params request s))"
    by (simp add: take_retry_def case_prod_beta hld_send_frame [OF holds_refl])
  then show ?thesis using assms(2) by (simp add: holds_def kept_or_sent_def)
next
  case (Some x)
  obtain d out where x: "x = (d, out)" by (cases x)
  let ?s1 = "accept_retry cf d out i params request (s\<lparr>ts_rounds := AList.delete token (ts_rounds s)\<rparr>)"
  have "holds s ?s1" by (intro hld holds_refl)
  then show ?thesis
  proof (rule kept_from [OF _ _ assms(1,2)])
    assume a: "ts_open ?s1" "event \<in> set (tc_buffered (ts_call ?s1 c))"
    show "kept_or_sent (call_session_id ?s1 c) event c (snd (take_retry cf token i params request s))"
    proof (cases "tc_final (ts_call ?s1 d)")
      case None
      then show ?thesis using Some x a(2) by (simp add: take_retry_def kept_or_sent_def)
    next
      case (Some f)
      then show ?thesis
        using \<open>map_of (ts_rounds s) token = Some x\<close> x deliver_final_keeps [OF a assms(3), of d f]
        by (simp add: take_retry_def case_prod_beta Let_def)
    qed
  qed
qed

lemma open_call_holds:
  assumes inv: "answers_inv cf' log s" and c: "is_call s c"
  shows "tc_buffered (ts_call (open_call cf own i params request s) c) = tc_buffered (ts_call s c)"
proof -
  have "c < ts_fresh s" using answers_invD(1) [OF inv c] .
  then show ?thesis
    by (auto simp: open_call_def enter_audit_def Let_def upd_audit_def split: option.split prod.split)
qed

lemma inbound_keeps:
  assumes "answers_inv cf' log s" "is_call s c"
    and "ts_open s" "event \<in> set (tc_buffered (ts_call s c))" "\<not> is_attempt (JDict event)"
  shows "kept_or_sent (call_session_id s c) event c (snd (inbound cf own f request s))"
proof -
  have same: "holds s s' \<Longrightarrow> kept_or_sent (call_session_id s c) event c s'" for s'
    using assms(4) by (simp add: holds_def kept_or_sent_def)
  have opened: "kept_or_sent (call_session_id s c) event c (open_call cf own i params request s)" for i params
    using open_call_holds [OF assms(1,2)] assms(4) by (simp add: kept_or_sent_def)
  show ?thesis
  proof (cases f)
    case (Request i meth params)
    then show ?thesis
      using opened take_retry_keeps [OF assms(3-5)]
      by (auto simp: inbound_def take_call_def split: option.split intro!: same hld holds_refl)
  next
    case (Notification meth params)
    then show ?thesis by (auto simp: inbound_def intro!: same hld holds_refl)
  next
    case (Response i result)
    then show ?thesis by (cases i) (auto simp: inbound_def intro!: same hld holds_refl)
  next
    case (Error i e)
    then show ?thesis by (auto simp: inbound_def split: option.split rid.split intro!: same hld holds_refl)
  qed
qed

end
