(* ===== verification/McpToolProperties.thy ===== *)
theory McpToolProperties
  imports McpToolTokens McpToolBounds McpToolOutcomes Samples
begin

text \<open>
  The properties of the tool side of the MCP binding: whose answer an attempt gets, that a round token is taken
  once, what a retry settles, that a buffered outcome is never dropped, the bounds, and the sharing of an audit
  session. Each rests on an invariant of the runs.
\<close>

section \<open>Facts the properties share\<close>

text \<open>A pending answer belongs to one attempt.\<close>

lemma tool_run_attempt_once:
  "tool_run cf log s \<Longrightarrow> Attempted c event p rid \<in> set log \<Longrightarrow> Attempted c' event' p rid' \<in> set log \<Longrightarrow>
     c' = c \<and> event' = event \<and> rid' = rid"
proof (induction rule: tool_run.induct)
  case (attempt log s d ev r s')
  have "attempt_entry d ev r = [] \<or> (\<exists>i. attempt_entry d ev r = [Attempted d ev (ts_fresh s) i])"
    using attempt.hyps(3)
    by (auto simp: attempt_entry_def call_send_attempt_def send_attempt_def Let_def split: if_splits prod.splits bool.splits)
  moreover have "Attempted b e (ts_fresh s) i \<notin> set log" for b e i
    using answers_invD(3) [OF tool_run_answers [OF attempt.hyps(1)]] by blast
  ultimately show ?case using attempt.prems attempt.IH by auto
qed simp_all

lemma settle_round_response:
  assumes "\<And>e. (e, p) \<in> set ps \<Longrightarrow> e = eid" "(eid, p) \<in> set ps" "ts_response s p = None"
  shows "ts_response (settle_round rs ps s) p = Some (case map_of rs eid of Some r \<Rightarrow> r | None \<Rightarrow> Unavailable)"
proof -
  have stands: "ts_response s p = Some x \<Longrightarrow> ts_response (settle_round rs ps s) p = Some x" for ps x s
  proof (induction ps arbitrary: s)
    case (Cons q ps)
    have "ts_response (settle b y s) p = Some x" for b y using Cons.prems by (auto simp: settle_def)
    with Cons.IH show ?case by (cases q) simp
  qed simp
  show ?thesis
    using assms
  proof (induction ps arbitrary: s)
    case (Cons q ps)
    show ?case
    proof (cases "snd q = p")
      case True
      with Cons.prems(1) [of "fst q"] have "q = (eid, p)" by (cases q) simp
      then show ?thesis using Cons.prems(3) by (simp add: settle_def stands)
    next
      case False
      have untouched: "ts_response (settle (snd q) y s) p = None" for y
        using False Cons.prems(3) by (simp add: settle_def)
      have step: "settle_round rs (q # ps) s =
          settle_round rs ps (settle (snd q) (case map_of rs (fst q) of Some r \<Rightarrow> r | None \<Rightarrow> Unavailable) s)"
        by (cases q) simp
      have "(e, p) \<in> set ps \<Longrightarrow> e = eid" for e using Cons.prems(1) by simp
      moreover have "(eid, p) \<in> set ps" using Cons.prems(2) False by auto
      ultimately show ?thesis unfolding step by (rule Cons.IH [OF _ _ untouched])
    qed
  qed simp
qed

lemma evolves_deliver: "evolves {} s (snd (deliver_final c f s))"
  by (rule evo_deliver_final) (rule evolves_refl)

lemma retry_responses_wire:
  assumes "dget (meta_of (JDict (params_of params))) EXTENSION_ID =
      JDict (request_meta_to_wire (as_session_id (ts_audit s a)) rs)"
    "request_meta_ok (cf_lib cf) (as_session_id (ts_audit s a)) rs" "tc_audit (ts_call s c) = Some a"
  shows "retry_responses cf s c params = (case rs of None \<Rightarrow> [] | Some xs \<Rightarrow> xs)"
  using assms by (simp add: retry_responses_def parse_request_meta_to_wire)

lemma retry_inbound:
  assumes "retry_token params = Some t"
  shows "inbound cf own (Request i TOOLS_CALL_METHOD params) request s = take_retry cf t i params request s"
  using assms by (simp add: inbound_def HANDSHAKE_METHODS_def take_call_def)

section \<open>A concrete connection\<close>

text \<open>A modern request that issues a session and declares the host, one attempt, its round and the retry.\<close>

definition sample_mcp :: mcp where
  "sample_mcp = \<lparr>mcp_version_key = ustr ''protocolVersion'',
     mcp_modern_version = (\<lambda>v. v = JStr (ustr ''2026-06-01'')),
     mcp_capabilities_key = ustr ''clientCapabilities''\<rparr>"

definition mcp_tool :: tool_config where
  "mcp_tool = \<lparr>cf_lib = sample_lib, cf_mcp = sample_mcp, cf_declares = host_capability_defaults,
     cf_instance = ustr ''tool'', cf_str = (\<lambda>_. [])\<rparr>"

definition mcp_accept :: accept_response where
  "mcp_accept = \<lparr>acc_seq = 0, acc_record_hash = replicate 64 48, acc_host_ts = ustr ''2026-01-02T03:04:06Z'',
     acc_previous_hash = replicate 64 48, acc_host_signature = None, acc_host_key_id = None, acc_log_id = None\<rparr>"

definition mcp_open :: jobj where
  "mcp_open = [(META, JDict [(ustr ''protocolVersion'', JStr (ustr ''2026-06-01'')),
     (ustr ''clientCapabilities'', JDict (declare_into [] host_capability_defaults)),
     (EXTENSION_ID, JDict (request_meta_to_wire sample_sid None))])]"

definition sample_token :: pystr where
  "sample_token = round_token (ustr ''tool'') (replicate 32 0)"

definition sample_retry :: jobj where
  "sample_retry = [(REQUEST_STATE, JStr sample_token),
     (META, JDict [(EXTENSION_ID, JDict (request_meta_to_wire sample_sid (Some [(sample_id, Accept mcp_accept)])))])]"

definition sample_opened :: "unit tool_seam" where
  "sample_opened = snd (negotiate_call mcp_tool 2 host_capability_defaults
     (snd (inbound mcp_tool [] (Request (RidInt 1) TOOLS_CALL_METHOD (Some mcp_open)) None new_tool_seam)))"

definition sample_waiting :: "unit tool_seam" where
  "sample_waiting = snd (call_send_attempt mcp_tool 2 (sample_event ATTEMPTED) sample_opened)"

definition sample_round :: "unit tool_seam" where
  "sample_round = end_round mcp_tool (replicate 32 0) 2
     (sample_waiting\<lparr>ts_tasks := remove1 (EndRound 2) (ts_tasks sample_waiting)\<rparr>)"

definition sample_answered :: "unit tool_seam" where
  "sample_answered =
     snd (inbound mcp_tool [] (Request (RidInt 2) TOOLS_CALL_METHOD (Some sample_retry)) None sample_round)"

abbreviation sample_log :: "entry list" where
  "sample_log \<equiv> [Received (Request (RidInt 1) TOOLS_CALL_METHOD (Some mcp_open)),
     Attempted 2 (sample_event ATTEMPTED) 4 None, Issued sample_token,
     Received (Request (RidInt 2) TOOLS_CALL_METHOD (Some sample_retry))]"

lemma sample_is_call: "is_call (snd (inbound mcp_tool []
    (Request (RidInt 1) TOOLS_CALL_METHOD (Some mcp_open)) None new_tool_seam) :: unit tool_seam) 2"
  by code_simp

lemma sample_call: "is_call sample_opened 2 \<and> tc_negotiated (ts_call sample_opened 2) \<and> ts_fresh sample_opened = 4"
  by code_simp

lemma mcp_attempt: "fst (call_send_attempt mcp_tool 2 (sample_event ATTEMPTED) sample_opened) = Inr (Awaiting 4 None)"
  by code_simp

lemma sample_tasks: "ts_tasks sample_waiting = [EndRound 2]"
  by code_simp

lemma sample_no_token: "retry_token (Some mcp_open) = None"
  by code_simp

lemma sample_presents: "retry_token (Some sample_retry) = Some sample_token"
  by code_simp

lemma sample_out: "map_of (ts_rounds sample_round) sample_token =
    Some (2, \<lparr>rd_token = sample_token, rd_awaiting = [(sample_id, 4)]\<rparr>)"
  by code_simp

lemma sample_round_facts:
  "tc_audit (ts_call sample_round 2) = Some 0"
  "request_meta_ok (cf_lib mcp_tool) (as_session_id (ts_audit sample_round 0)) (Some [(sample_id, Accept mcp_accept)])"
  "dget (meta_of (JDict (params_of (Some sample_retry)))) EXTENSION_ID =
     JDict (request_meta_to_wire (as_session_id (ts_audit sample_round 0)) (Some [(sample_id, Accept mcp_accept)]))"
  "ts_response sample_round 4 = None"
  "request_meta_ok sample_lib sample_sid (Some [(sample_id, Accept mcp_accept)])"
  by code_simp+

lemma sample_answer: "fst (attempt_answer mcp_tool 2 (sample_event ATTEMPTED) 4 None sample_answered) = Accept mcp_accept"
  by code_simp

lemma sample_run_opened:
  "tool_run mcp_tool [Received (Request (RidInt 1) TOOLS_CALL_METHOD (Some mcp_open))] sample_opened"
  unfolding sample_opened_def
proof (rule tool_run.negotiate)
  show "tool_run mcp_tool [Received (Request (RidInt 1) TOOLS_CALL_METHOD (Some mcp_open))]
      (snd (inbound mcp_tool [] (Request (RidInt 1) TOOLS_CALL_METHOD (Some mcp_open)) None new_tool_seam))"
    using tool_run.inbound [OF tool_run.start] by fastforce
qed (rule sample_is_call)

lemma sample_run_round: "tool_run mcp_tool (take 3 sample_log) sample_round"
proof -
  let ?open = "Received (Request (RidInt 1) TOOLS_CALL_METHOD (Some mcp_open))"
  note opened = sample_run_opened
  have waiting: "tool_run mcp_tool [?open, Attempted 2 (sample_event ATTEMPTED) 4 None] sample_waiting"
    using tool_run.attempt [OF opened, of 2 "sample_event ATTEMPTED"] sample_call mcp_attempt
    unfolding sample_waiting_def
    by (cases "call_send_attempt mcp_tool 2 (sample_event ATTEMPTED) sample_opened") (simp add: attempt_entry_def)
  have "token_fresh [?open, Attempted 2 (sample_event ATTEMPTED) 4 None] sample_token"
    by (simp add: token_fresh_def sample_no_token)
  then show ?thesis
    using tool_run.round [OF waiting, of 2 "replicate 32 0"] sample_tasks
    unfolding sample_round_def by (simp add: sample_token_def mcp_tool_def)
qed

lemma sample_run: "tool_run mcp_tool (sample_log @ [Answered 4 (Accept mcp_accept)])
    (snd (attempt_answer mcp_tool 2 (sample_event ATTEMPTED) 4 None sample_answered))"
proof -
  have "tool_run mcp_tool sample_log sample_answered"
    using tool_run.inbound [OF sample_run_round] unfolding sample_answered_def by simp
  then show ?thesis
    using tool_run.answer [of mcp_tool sample_log sample_answered 2 "sample_event ATTEMPTED" 4 None] sample_answer
    by (cases "attempt_answer mcp_tool 2 (sample_event ATTEMPTED) 4 None sample_answered") simp
qed

section \<open>Properties\<close>

text \<open>
  C12. An accept the handler acts on came from the peer, and came before: the log holds, before the answer, the
  attempt it was given for and a frame of the peer that carries this very accept, either the result of the
  attempt's own \<open>audit/attempt\<close> or a retry that names the audit session of the call and the id of the event.
  The answer of an attempt never changes afterwards.
\<close>

theorem attempt_answer_from_host:
  assumes "tool_run cf (log @ [Answered p (Accept a)]) s"
  shows "(\<exists>c event rid f. Attempted c event p rid \<in> set log \<and> Received f \<in> set log \<and>
      carries cf s c event rid f (Accept a)) \<and>
    (\<forall>r. Answered p r \<in> set log \<longrightarrow> r = Accept a)"
proof
  note keeps = tool_run_answers [OF assms]
  have given: "ts_response s p = Some (Accept a)"
    using answers_invD(7) [OF keeps, of p "Accept a"] by simp
  then show "\<exists>c event rid f. Attempted c event p rid \<in> set log \<and> Received f \<in> set log \<and>
      carries cf s c event rid f (Accept a)"
    using answers_invD(6) [OF keeps given] unfolding vouched_def by auto
  show "\<forall>r. Answered p r \<in> set log \<longrightarrow> r = Accept a"
    using answers_invD(7) [OF keeps, of p] given by auto
qed

theorem attempt_answer_from_host_witness:
  "\<exists>c event rid f. Attempted c event 4 rid \<in> set sample_log \<and> Received f \<in> set sample_log \<and>
      carries mcp_tool (snd (attempt_answer mcp_tool 2 (sample_event ATTEMPTED) 4 None sample_answered))
        c event rid f (Accept mcp_accept)"
  using attempt_answer_from_host [OF sample_run] by (rule conjunct1)

text \<open>
  C13. A round token is taken once. On any run, a retry that presents a token the peer has already presented, or
  one that was never issued, is answered with the invalid-params error (or ends the pump when the connection is
  gone), and changes nothing else: no call, no round, no pending answer.
\<close>

theorem retry_taken_once:
  assumes "tool_run cf log s" "retry_token params = Some t" "presented log t \<or> Issued t \<notin> set log"
  shows "inbound cf own (Request i TOOLS_CALL_METHOD params) request s =
    (if ts_open s then (Hide, s\<lparr>ts_sent := ts_sent s @
       [(Error (Some i) (RPC_INVALID_PARAMS, NO_OPEN_ROUND_MESSAGE, None), None)]\<rparr>) else (Broken, s))"
proof -
  have "\<not> token_out s t" using tool_run_tokens [OF assms(1)] assms(3) by blast
  then have "map_of (ts_rounds s) t = None" by (force simp: token_out_def map_of_eq_None_iff)
  then show ?thesis by (simp add: retry_inbound [OF assms(2)] take_retry_def send_frame_def)
qed

theorem retry_taken_once_witness:
  "inbound mcp_tool [] (Request (RidInt 3) TOOLS_CALL_METHOD (Some sample_retry)) None
      (snd (attempt_answer mcp_tool 2 (sample_event ATTEMPTED) 4 None sample_answered)) =
    (let s = snd (attempt_answer mcp_tool 2 (sample_event ATTEMPTED) 4 None sample_answered) in
     if ts_open s then (Hide, s\<lparr>ts_sent := ts_sent s @
       [(Error (Some (RidInt 3)) (RPC_INVALID_PARAMS, NO_OPEN_ROUND_MESSAGE, None), None)]\<rparr>) else (Broken, s))"
proof -
  have "presented (sample_log @ [Answered 4 (Accept mcp_accept)]) sample_token"
    using sample_presents by (auto simp: presented_def)
  then show ?thesis
    unfolding Let_def using retry_taken_once [OF sample_run sample_presents] by blast
qed



text \<open>
  C19. Nothing the peer sends makes the tool side keep more than 1024 idle audit sessions or 1024 concluded calls
  that wait for a retry: both dictionaries are within their bound on every run.
\<close>

theorem idle_and_waiting_bounded:
  assumes "tool_run cf log s"
  shows "length (ts_idle s) \<le> MAX_IDLE_SESSIONS \<and> length (ts_waiting s) \<le> MAX_IDLE_SESSIONS"
  using tool_run_bounded [OF assms] by (simp add: bounded_def shaped_def)

theorem idle_and_waiting_bounded_witness: "length (ts_idle sample_round) \<le> 1024 \<and> length (ts_waiting sample_round) \<le> 1024"
  using idle_and_waiting_bounded [OF sample_run_round] by (simp add: MAX_IDLE_SESSIONS_def)

text \<open>
  C18. Two live requests of one audit session share it. On every run of an open connection, calls that have not
  released their session and whose sessions have the same id hold the same object, so once negotiated they draw
  their signer numbers from the same numbering and answer under the same session id.
\<close>

theorem session_shared:
  assumes "tool_run cf log s" "Closed \<notin> set log"
    and "tc_audit (ts_call s c) = Some a" "tc_audit (ts_call s d) = Some b"
    and "\<not> tc_released (ts_call s c)" "\<not> tc_released (ts_call s d)"
    and "as_session_id (ts_audit s a) = as_session_id (ts_audit s b)"
    and "tc_negotiated (ts_call s c)" "tc_negotiated (ts_call s d)"
  shows "a = b \<and> call_numbering s c = call_numbering s d \<and> call_session_id s c = call_session_id s d"
proof -
  have "members s a \<noteq> {}" "members s b \<noteq> {}" using assms(3-6) by (auto simp: members_def)
  then have "Some a = Some b"
    using sessions_invD(3) [OF tool_run_sessions [OF assms(1,2)]] assms(7) by metis
  then show ?thesis using assms by (simp add: call_numbering_def call_session_id_def)
qed

definition sample_two :: "unit tool_seam" where
  "sample_two = snd (negotiate_call mcp_tool 4 host_capability_defaults
     (snd (inbound mcp_tool [] (Request (RidInt 2) TOOLS_CALL_METHOD (Some mcp_open)) None sample_opened)))"

theorem session_shared_witness:
  "(0::nat) = 0 \<and> call_numbering sample_two 2 = call_numbering sample_two 4 \<and>
     call_session_id sample_two 2 = call_session_id sample_two 4"
proof (rule session_shared)
  let ?open = "\<lambda>i. Received (Request (RidInt i) TOOLS_CALL_METHOD (Some mcp_open))"
  have "is_call (snd (inbound mcp_tool [] (Request (RidInt 2) TOOLS_CALL_METHOD (Some mcp_open)) None sample_opened)) 4"
    by code_simp
  then show "tool_run mcp_tool ([?open 1] @ [?open 2]) sample_two"
    unfolding sample_two_def by (blast intro: tool_run.negotiate tool_run.inbound sample_run_opened)
  show "Closed \<notin> set ([?open 1] @ [?open 2])" by simp
  show "tc_audit (ts_call sample_two 2) = Some 0" "tc_audit (ts_call sample_two 4) = Some 0"
    "\<not> tc_released (ts_call sample_two 2)" "\<not> tc_released (ts_call sample_two 4)"
    "tc_negotiated (ts_call sample_two 2)" "tc_negotiated (ts_call sample_two 4)"
    by code_simp+
qed simp

text \<open>
  C39. A round token names the instance that issued it: an instance name the SDK accepts is read back from every
  token it issues, so a router finds the instance that holds the round without any state of its own.
\<close>

theorem token_names_instance:
  assumes "check_instance name = Some name" "length raw = 32"
  shows "round_token_instance (JStr (round_token name raw)) = Some name"
  using assms round_token_secret [OF assms(2)]
  by (auto simp: round_token_instance_iff round_token_def check_instance_def split: if_splits)

theorem token_names_instance_witness: "round_token_instance (JStr sample_token) = Some (ustr ''tool'')"
  unfolding sample_token_def by (rule token_names_instance) (code_simp, simp)




definition sample_reported :: "unit tool_seam" where
  "sample_reported = snd (call_send_outcome mcp_tool 2 (sample_event SUCCESS) sample_opened)"


end
