(* ===== verification/McpToolIds.thy ===== *)
theory McpToolIds
  imports McpToolOutcomes
begin

text \<open>
  The ids the tool side gives its own \<open>audit/attempt\<close> requests: each is new, so an id names one attempt.
\<close>

lemma next_id_simps [simp]:
  "ts_next_id (upd_call c f s) = ts_next_id s" "ts_next_id (upd_audit a g s) = ts_next_id s"
  "ts_next_id (settle p r s) = ts_next_id s" "ts_next_id (snd (send_frame fr rel s)) = ts_next_id s"
  "ts_next_id (start_task t s) = ts_next_id s"
  by (simp_all add: upd_call_def upd_audit_def settle_def send_frame_def start_task_def)

lemma next_id_loops [simp]:
  "ts_next_id (settle_all ps s) = ts_next_id s" "ts_next_id (settle_round rs qs s) = ts_next_id s"
  "ts_next_id (drop_pending c xs s) = ts_next_id s"
proof -
  show "ts_next_id (settle_all ps s) = ts_next_id s" by (induction ps arbitrary: s) simp_all
  show "ts_next_id (settle_round rs qs s) = ts_next_id s" by (induction rs qs s rule: settle_round.induct) simp_all
  show "ts_next_id (drop_pending c xs s) = ts_next_id s" by (induction c xs s rule: drop_pending.induct) simp_all
qed

lemma next_id_ends [simp]:
  "ts_next_id (schedule_round c s) = ts_next_id s" "ts_next_id (keep_idle a s) = ts_next_id s"
  "ts_next_id (close_round c s) = ts_next_id s" "ts_next_id (clear_awaiting c s) = ts_next_id s"
  "ts_next_id (conclude_waiting c s) = ts_next_id s" "ts_next_id (accept_retry cf c out i params rq s) = ts_next_id s"
  by (simp_all add: schedule_round_def keep_idle_def close_round_def clear_awaiting_def conclude_waiting_def
      accept_retry_def Let_def split: option.split prod.split)

lemma next_id_release [simp]: "ts_next_id (release c final s) = ts_next_id s"
  by (simp add: release_def Let_def split: option.split)

lemma next_id_end_call [simp]: "ts_next_id (end_call c final s) = ts_next_id s"
  by (simp add: end_call_def Let_def)

lemma next_id_evict_waiting [simp]: "ts_next_id (evict_waiting n s) = ts_next_id s"
  by (induction n arbitrary: s) (simp_all split: list.split prod.split)

lemma next_id_keep_waiting [simp]: "ts_next_id (keep_waiting c f s) = ts_next_id s"
  by (simp add: keep_waiting_def Let_def del: evict_waiting.simps)

lemma next_id_final_frame [simp]: "ts_next_id (snd (final_frame c f s)) = ts_next_id s"
  by (simp add: final_frame_def Let_def split: option.split rpc_frame.split)

lemma next_id_deliver_final [simp]: "ts_next_id (snd (deliver_final c f s)) = ts_next_id s"
  by (simp add: deliver_final_def case_prod_beta split: option.split)

lemma next_id_finish [simp]: "ts_next_id (snd (finish c f s)) = ts_next_id s"
  by (simp add: finish_def Let_def split: option.split)

lemma next_id_pump_outbound [simp]: "ts_next_id (pump_outbound cf f s) = ts_next_id s"
proof -
  have "ts_next_id (snd (outbound cf f s)) = ts_next_id s"
    by (simp add: outbound_def take_final_def Let_def split: rpc_frame.split option.split)
  then show ?thesis by (simp add: pump_outbound_def case_prod_beta split: option.split)
qed

lemma next_id_inbound [simp]: "ts_next_id (snd (inbound cf own f rq s)) = ts_next_id s"
proof -
  have "ts_next_id (snd (take_retry cf t i params rq s)) = ts_next_id s" for t i params
    by (simp add: take_retry_def Let_def case_prod_beta split: option.split)
  moreover have "ts_next_id (open_call cf own i params rq s) = ts_next_id s" for i params
    by (simp add: open_call_def enter_audit_def Let_def split: option.split prod.split)
  moreover have "ts_next_id (snd (cancel_call params s)) = ts_next_id s" for params
    by (simp add: cancel_call_def Let_def split: option.split)
  moreover have "ts_next_id (take_answer cf rid f s) = ts_next_id s" for rid
    by (simp add: take_answer_def split: option.split)
  ultimately show ?thesis
    by (simp add: inbound_def take_call_def read_handshake_def Let_def
        split: rpc_frame.split option.split rid.split)
qed

lemma next_id_rest [simp]:
  "ts_next_id (snd (negotiate_call cf c offered s)) = ts_next_id s"
  "ts_next_id (snd (attempt_answer cf c event p rid s)) = ts_next_id s"
  "ts_next_id (snd (call_send_outcome cf c event s)) = ts_next_id s"
  "ts_next_id (end_round cf raw c s) = ts_next_id s" "ts_next_id (forget_cancelled k s) = ts_next_id s"
  by (simp_all add: negotiate_call_def attempt_answer_def call_send_outcome_def send_outcome_def end_round_def
      forget_cancelled_def Let_def split: option.split response.split)

lemma next_id_close_loops [simp]:
  "ts_next_id (end_calls cs s) = ts_next_id s" "ts_next_id (close_rounds rs s) = ts_next_id s"
proof -
  show "ts_next_id (end_calls cs s) = ts_next_id s" by (induction cs arbitrary: s) simp_all
  show "ts_next_id (close_rounds rs s) = ts_next_id s" by (induction rs s rule: close_rounds.induct) simp_all
qed

lemma next_id_on_close [simp]: "ts_next_id (tool_on_close s) = ts_next_id s"
  by (simp add: tool_on_close_def Let_def)

definition ids_used :: "entry list \<Rightarrow> nat \<Rightarrow> bool" where
  "ids_used log n \<longleftrightarrow>
     (\<forall>c event p i. Attempted c event p (Some i) \<in> set log \<longrightarrow> (\<exists>m \<le> n. i = new_seam_id m)) \<and>
     (\<forall>c event p d e q i. Attempted c event p (Some i) \<in> set log \<longrightarrow> Attempted d e q (Some i) \<in> set log \<longrightarrow>
        c = d \<and> event = e \<and> p = q)"

lemma ids_used_log:
  assumes "ids_used log n" "\<And>c event p rid. x \<noteq> Attempted c event p rid"
  shows "ids_used (log @ [x]) n"
proof -
  have "Attempted c event p rid \<in> set (log @ [x]) \<longleftrightarrow> Attempted c event p rid \<in> set log" for c event p rid
    using assms(2) [of c event p rid] by auto
  then show ?thesis using assms(1) unfolding ids_used_def by blast
qed

lemma new_seam_id_inj: "new_seam_id m = new_seam_id n \<Longrightarrow> m = n"
  by (metis new_seam_id_def read_decimal_decimal same_append_eq)

lemma attempt_entry_cases:
  assumes "call_send_attempt cf c event s = (r, s')"
  obtains "attempt_entry c event r = []" "ts_next_id s \<le> ts_next_id s'"
    | p where "attempt_entry c event r = [Attempted c event p None]" "ts_next_id s' = ts_next_id s"
    | p where "attempt_entry c event r = [Attempted c event p (Some (new_seam_id (Suc (ts_next_id s))))]"
        "ts_next_id s' = Suc (ts_next_id s)"
proof -
  let ?t = "ts_call s c"
  consider "\<not> tc_negotiated ?t \<or> tc_finished ?t \<or> tc_ended ?t"
    | "tc_negotiated ?t" "\<not> tc_finished ?t" "\<not> tc_ended ?t" "tc_modern ?t"
    | "tc_negotiated ?t" "\<not> tc_finished ?t" "\<not> tc_ended ?t" "\<not> tc_modern ?t" "ts_open s"
    | "tc_negotiated ?t" "\<not> tc_finished ?t" "\<not> tc_ended ?t" "\<not> tc_modern ?t" "\<not> ts_open s" by blast
  then show ?thesis
  proof cases
    case 1
    then show ?thesis
      using assms by (intro that(1)) (auto simp: call_send_attempt_def send_attempt_def attempt_entry_def split: if_splits)
  next
    case 2
    then show ?thesis
      using assms
      by (intro that(2) [of "ts_fresh s"]) (auto simp: call_send_attempt_def send_attempt_def attempt_entry_def Let_def)
  next
    case 3
    then show ?thesis
      using assms
      by (intro that(3) [of "ts_fresh s"])
        (auto simp: call_send_attempt_def send_attempt_def send_frame_def attempt_entry_def Let_def)
  next
    case 4
    then show ?thesis
      using assms
      by (intro that(1)) (auto simp: call_send_attempt_def send_attempt_def send_frame_def attempt_entry_def Let_def)
  qed
qed

lemma ids_used_mono: "ids_used log n \<Longrightarrow> n \<le> m \<Longrightarrow> ids_used log m"
  unfolding ids_used_def by (meson order_trans)

lemma tool_run_ids: "tool_run cf log s \<Longrightarrow> ids_used log (ts_next_id s)"
proof (induction rule: tool_run.induct)
  case start
  show ?case by (simp add: ids_used_def)
next
  case (attempt log s c event r s')
  show ?case
    using attempt.hyps(3)
  proof (cases rule: attempt_entry_cases)
    case 1
    then show ?thesis using ids_used_mono [OF attempt.IH] by simp
  next
    case (2 p)
    then show ?thesis using attempt.IH unfolding ids_used_def by simp
  next
    case (3 p)
    have used: "\<exists>m \<le> ts_next_id s. i = new_seam_id m" if "Attempted d e q (Some i) \<in> set log" for d e q i
      using attempt.IH that unfolding ids_used_def by blast
    have fresh: "Attempted d e q (Some (new_seam_id (Suc (ts_next_id s)))) \<notin> set log" for d e q
      using used [of d e q] new_seam_id_inj by (metis Suc_n_not_le_n)
    show ?thesis
      using ids_used_mono [OF attempt.IH, of "Suc (ts_next_id s)"] fresh
      unfolding 3 ids_used_def by auto
  qed
next
  case (answer log s c event p rid r s')
  then have "ts_next_id s' = ts_next_id s" by (metis next_id_rest(2) snd_conv)
  then show ?case using answer.IH by (simp add: ids_used_log)
qed (simp_all add: ids_used_log)

end
