(* ===== verification/McpHostProperties.thy ===== *)
theory McpHostProperties
  imports McpHostSessions McpToolProperties McpToolIds
begin

text \<open>
  The properties of the host side of the MCP binding, and of the two sides together: an accept the tool acts on was
  decided by the endpoint of the host, for that attempt.
\<close>

section \<open>Facts the properties share\<close>

lemma parse_accept_wire:
  assumes "parse_response L (JDict (response_to_wire r)) = Some (Accept a)"
  shows "r = Accept a"
proof (cases r)
  case (Accept b)
  then have "accept_error L b = None \<and> read_accept (accept_to_wire b) = a"
    using assms by (auto simp: parse_response_def response_status accept_error_def split: if_splits)
      (simp_all add: response_to_wire_def)
  then show ?thesis using Accept read_accept_to_wire by auto
next
  case (Reject c)
  then show ?thesis
    using assms by (auto simp: parse_response_def response_status read_reject_def split: if_splits)
next
  case Unavailable
  then show ?thesis using assms by (simp add: parse_response_def response_status split: if_splits)
qed

lemma parse_request_meta_dict:
  assumes "parse_request_meta L v = Some m"
  shows "\<exists>d. v = JDict d \<and> rm_session_id m = str_member d SESSION_ID \<and>
    rm_responses m = (case dget d RESPONSES of JDict rs \<Rightarrow> Some (read_responses L rs) | _ \<Rightarrow> None)"
  using assms by (auto simp: parse_request_meta_def split: if_splits json.splits)

lemma read_responses_accept:
  assumes "map_of (read_responses L rs) eid = Some (Accept a)"
  shows "\<exists>v. (eid, v) \<in> set rs \<and> parse_response L v = Some (Accept a)"
  using assms by (induction rs) (auto simp: read_responses_def split: if_splits option.splits)

text \<open>The accepts a frame of the host carries for a tool: an answer by request id, or in the members of a retry.\<close>

lemma sent_retry_accept:
  assumes "sent_from tr (Request i meth params)"
    and "parse_request_meta L (dget (meta_of (JDict (params_of params))) EXTENSION_ID) = Some m"
    and "rm_responses m = Some rs" "map_of rs eid = Some (Accept a)"
  shows "\<exists>event. Decided event (rm_session_id m) (Some (Accept a)) \<in> set tr \<and> dget event ID = JStr eid"
proof -
  obtain d where d: "dget (meta_of (JDict (params_of params))) EXTENSION_ID = JDict d"
      "rm_session_id m = str_member d SESSION_ID"
      "rm_responses m = (case dget d RESPONSES of JDict rs \<Rightarrow> Some (read_responses L rs) | _ \<Rightarrow> None)"
    using parse_request_meta_dict [OF assms(2)] by blast
  have "dget [(SESSION_ID, JStr sid)] RESPONSES = JNull" for sid by simp
  then obtain sid ws where ws: "d = answers_meta sid ws" "responses_from tr sid ws"
    using assms(1) d(1,3) assms(3) unfolding sent_from_def answer_meta_from_def by auto
  then have "rs = read_responses L ws" "rm_session_id m = sid"
    using d(2,3) assms(3) by (simp_all add: answers_meta_def str_member_def)
  then obtain v where v: "(eid, v) \<in> set ws" "parse_response L v = Some (Accept a)"
    using read_responses_accept assms(4) by blast
  then obtain r where r: "v = JDict (response_to_wire r)" "decided tr sid eid r"
    using ws(2) unfolding responses_from_def by blast
  then have "r = Accept a" using parse_accept_wire v(2) by blast
  then show ?thesis using r(2) \<open>rm_session_id m = sid\<close> unfolding decided_def by auto
qed

lemma sent_answer_accept:
  assumes "sent_from tr (Response i result)" "\<not> own_id i" "parse_response L (JDict result) = Some (Accept a)"
  shows "\<exists>d sid. AttemptReceived i d sid \<in> set tr \<and> Decided d sid (Some (Accept a)) \<in> set tr"
proof -
  obtain d sid r where "AttemptReceived i d sid \<in> set tr" "result = response_to_wire r"
      "r = Unavailable \<or> Decided d sid (Some r) \<in> set tr"
    using assms(1,2) unfolding sent_from_def by auto
  moreover have "r = Accept a" using assms(3) \<open>result = response_to_wire r\<close> parse_accept_wire by blast
  ultimately show ?thesis by auto
qed

lemma trace_close_sessions: "x \<in> set (hs_trace s) \<Longrightarrow> x \<in> set (hs_trace (close_sessions cs s))"
  by (induction cs arbitrary: s) (simp_all add: Let_def traced_def)

lemma without_audit_exact:
  "dget (meta_of (JDict (without_audit result))) EXTENSION_ID = JNull \<and>
     (\<forall>k. k \<noteq> META \<longrightarrow> dget (without_audit result) k = dget result k) \<and>
     (\<forall>k. k \<noteq> EXTENSION_ID \<longrightarrow>
        dget (meta_of (JDict (without_audit result))) k = dget (meta_of (JDict result)) k)"
proof (cases "dget result META")
  case (JDict m)
  have "dget m k = JNull" if "AList.delete EXTENSION_ID m = []" "k \<noteq> EXTENSION_ID" for k
    using dget_delete [of EXTENSION_ID m k] that by simp
  moreover have "dget m EXTENSION_ID = JNull" if "\<not> has_key m EXTENSION_ID"
    using that by (simp add: has_key_def dget_def split: option.split)
  ultimately show ?thesis
    using JDict by (simp add: without_audit_def meta_of_def Let_def)
qed (simp_all add: without_audit_def meta_of_def)

section \<open>A concrete connection\<close>

definition mcp_host :: host_config where
  "mcp_host = \<lparr>hf_mcp = sample_mcp, hf_capability = host_capability_defaults\<rparr>"

definition client_open :: jobj where
  "client_open = [(META, JDict [(ustr ''protocolVersion'', JStr (ustr ''2026-06-01'')),
     (ustr ''clientCapabilities'', JDict [])])]"

definition round_frame :: rpc_frame where
  "round_frame = Response (RidInt 1) (round_result sample_token sample_sid [sample_event ATTEMPTED])"

definition host_opened :: host_seam where
  "host_opened = host_pump_outbound mcp_host sample_sid (Request (RidInt 1) TOOLS_CALL_METHOD (Some client_open)) None
     new_host_seam"

definition host_following :: host_seam where
  "host_following = take_job 0 (host_pump_inbound None round_frame host_opened)"

definition host_decided :: host_seam where
  "host_decided = work_finish 1 (Some (Accept mcp_accept)) (work_take 1 host_following)"

definition host_retried :: host_seam where
  "host_retried = follow_end (Some 0) 0 (round_result sample_token sample_sid [sample_event ATTEMPTED]) 1 host_decided"

lemma host_opened_sent: "hs_sent host_opened =
    [(Request (RidInt 1) TOOLS_CALL_METHOD (Some mcp_open), Some (with_affinity_header None sample_sid))]"
  by code_simp

lemma host_decided_running: "hs_running host_decided =
    [(Some 0, Following 0 (round_result sample_token sample_sid [sample_event ATTEMPTED]) 1)]"
  by code_simp

lemma host_idle: "lane_idle 0 (host_pump_inbound None round_frame host_opened)"
  by code_simp

lemma host_opened_run: "host_run mcp_host host_opened"
  unfolding host_opened_def
proof (rule host_run.outbound [OF host_run.start])
  show "client_frame (Request (RidInt 1) TOOLS_CALL_METHOD (Some client_open))"
    "id_free (Request (RidInt 1) TOOLS_CALL_METHOD (Some client_open)) new_host_seam"
    by code_simp+
qed

lemma host_retried_run: "host_run mcp_host host_retried"
  unfolding host_retried_def
proof (rule host_run.follow)
  show "host_run mcp_host host_decided"
    unfolding host_decided_def host_following_def
    by (intro host_run.work_finish host_run.work_take host_run.job host_run.inbound host_opened_run host_idle)
qed (simp add: host_decided_running)

definition mcp_retry_params :: jobj where
  "mcp_retry_params = (case hs_sent host_retried of [_, (Request i m (Some d), _)] \<Rightarrow> d | _ \<Rightarrow> [])"

lemma host_retried_sent: "map fst (hs_sent host_retried) =
    [Request (RidInt 1) TOOLS_CALL_METHOD (Some mcp_open),
     Request (RidStr (ustr ''amcp-1'')) TOOLS_CALL_METHOD (Some mcp_retry_params)]"
  by code_simp

lemma host_retried_trace: "hs_trace host_retried =
    [SessionOpened sample_sid, HandedOver (sample_event ATTEMPTED) sample_sid,
     Decided (sample_event ATTEMPTED) sample_sid (Some (Accept mcp_accept))]"
  by code_simp

lemma mcp_keys_apart: "mcp_capabilities_key (hf_mcp mcp_host) \<noteq> EXTENSION_ID"
  by code_simp

definition host_retry_frame :: rpc_frame where
  "host_retry_frame = Request (RidStr (ustr ''amcp-1'')) TOOLS_CALL_METHOD (Some mcp_retry_params)"

definition tool_answered :: "unit tool_seam" where
  "tool_answered = snd (inbound mcp_tool [] host_retry_frame None sample_round)"

abbreviation both_log :: "entry list" where
  "both_log \<equiv> [Received (Request (RidInt 1) TOOLS_CALL_METHOD (Some mcp_open)),
     Attempted 2 (sample_event ATTEMPTED) 4 None, Issued sample_token, Received host_retry_frame]"

lemma tool_answer: "fst (attempt_answer mcp_tool 2 (sample_event ATTEMPTED) 4 None tool_answered) = Accept mcp_accept"
  by code_simp

lemma both_run: "tool_run mcp_tool (both_log @ [Answered 4 (Accept mcp_accept)])
    (snd (attempt_answer mcp_tool 2 (sample_event ATTEMPTED) 4 None tool_answered))"
proof -
  have "tool_run mcp_tool both_log tool_answered"
    using tool_run.inbound [OF sample_run_round] unfolding tool_answered_def by simp
  then show ?thesis
    using tool_run.answer [of mcp_tool both_log tool_answered 2 "sample_event ATTEMPTED" 4 None] tool_answer
    by (cases "attempt_answer mcp_tool 2 (sample_event ATTEMPTED) 4 None tool_answered") simp
qed

section \<open>Properties\<close>

text \<open>
  C5. End to end, over both forms of the wire. A tool and a host run on one connection: the tool receives only
  frames the host sent, and the host only attempts the tool sent. Then an accept the tool's handler gets was
  decided by the endpoint of the host, as that accept: for this very event where it travelled as \<open>audit/attempt\<close>,
  and for an event with its id, in the audit session of the call, where it travelled in a round.
\<close>

theorem accept_decided_by_endpoint:
  assumes tool: "tool_run cf (log @ [Answered p (Accept a)]) s"
    and host: "host_run hf h" "mcp_capabilities_key (hf_mcp hf) \<noteq> EXTENSION_ID"
    and wire: "\<And>f. Received f \<in> set log \<Longrightarrow> f \<in> set (map fst (hs_sent h))"
    and returned: "\<And>i d sid. AttemptReceived i d sid \<in> set (hs_trace h) \<Longrightarrow>
      \<exists>c q rid. i = RidStr rid \<and> Attempted c d q (Some rid) \<in> set log"
  shows "\<exists>c event rid d sid. Attempted c event p rid \<in> set log \<and> Decided d sid (Some (Accept a)) \<in> set (hs_trace h) \<and>
    (case rid of
       Some i \<Rightarrow> d = event
     | None \<Rightarrow> dget d ID = JStr (event_key cf event) \<and>
         (\<exists>x. tc_audit (ts_call s c) = Some x \<and> sid = as_session_id (ts_audit s x)))"
proof -
  have "ts_response s p = Some (Accept a)"
    using answers_invD(7) [OF tool_run_answers [OF tool], of p "Accept a"] by simp
  then obtain c event rid f where f: "Attempted c event p rid \<in> set log" "Received f \<in> set log"
      "carries cf s c event rid f (Accept a)"
    using answers_invD(6) [OF tool_run_answers [OF tool]] unfolding vouched_def by fastforce
  then have sent: "sent_from (hs_trace h) f"
    using wire answers_holdD(1) [OF host_run_inv [OF host]] by fastforce
  show ?thesis
  proof (cases rid)
    case None
    then obtain i params m x rs where m: "f = Request i TOOLS_CALL_METHOD params"
        "parse_request_meta (cf_lib cf) (dget (meta_of (JDict (params_of params))) EXTENSION_ID) = Some m"
        "tc_audit (ts_call s c) = Some x" "rm_session_id m = as_session_id (ts_audit s x)" "rm_responses m = Some rs"
        "map_of rs (event_key cf event) = Some (Accept a)"
      using f(3) unfolding carries_def by auto
    obtain d where d: "Decided d (rm_session_id m) (Some (Accept a)) \<in> set (hs_trace h)"
        "dget d ID = JStr (event_key cf event)"
      using sent_retry_accept [OF sent [unfolded m(1)] m(2,5,6)] by blast
    show ?thesis
      by (rule exI [of _ c], rule exI [of _ event], rule exI [of _ None], rule exI [of _ d],
          rule exI [of _ "rm_session_id m"]) (use d f(1) None m(3,4) in simp)
  next
    case (Some i)
    note ids = tool_run_ids [OF tool, unfolded ids_used_def]
    obtain result where r: "f = Response (RidStr i) result"
        "parse_response (cf_lib cf) (JDict result) = Some (Accept a)"
      using f(3) Some unfolding carries_def by auto
    have "\<not> own_id (RidStr i)" using ids f(1) Some by (force simp: own_id_def new_seam_id_def)
    then obtain d sid where d: "AttemptReceived (RidStr i) d sid \<in> set (hs_trace h)"
        "Decided d sid (Some (Accept a)) \<in> set (hs_trace h)"
      using sent_answer_accept [OF sent [unfolded r(1)] _ r(2)] by blast
    then have "d = event" using returned [OF d(1)] ids f(1) Some by fastforce
    show ?thesis
      by (rule exI [of _ c], rule exI [of _ event], rule exI [of _ "Some i"], rule exI [of _ d],
          rule exI [of _ sid]) (use d(2) f(1) Some \<open>d = event\<close> in simp)
  qed
qed

theorem accept_decided_by_endpoint_witness:
  "\<exists>c event rid d sid. Attempted c event 4 rid \<in> set both_log \<and>
    Decided d sid (Some (Accept mcp_accept)) \<in> set (hs_trace host_retried) \<and>
    (case rid of
       Some i \<Rightarrow> d = event
     | None \<Rightarrow> dget d ID = JStr (event_key mcp_tool event) \<and>
         (\<exists>x. tc_audit (ts_call (snd (attempt_answer mcp_tool 2 (sample_event ATTEMPTED) 4 None tool_answered)) c) = Some x \<and>
            sid = as_session_id (ts_audit (snd (attempt_answer mcp_tool 2 (sample_event ATTEMPTED) 4 None tool_answered)) x)))"
proof (rule accept_decided_by_endpoint [OF both_run host_retried_run mcp_keys_apart])
  show "Received f \<in> set both_log \<Longrightarrow> f \<in> set (map fst (hs_sent host_retried))" for f
    unfolding host_retried_sent by (auto simp: host_retry_frame_def)
  show "AttemptReceived i d sid \<in> set (hs_trace host_retried) \<Longrightarrow>
      \<exists>c q rid. i = RidStr rid \<and> Attempted c d q (Some rid) \<in> set both_log" for i d sid
    by (simp add: host_retried_trace)
qed

text \<open>
  C16. The host answers for its endpoint and for nothing else. Whatever the interleaving of frames, decisions,
  deadlines, evictions and retries, an accept in a \<open>tools/call\<close> the host has sent, under an event id, is one the
  endpoint decided, in the session the request names, for an attempt with that id.
\<close>

theorem host_retry_from_endpoint:
  assumes "host_run hf h" "mcp_capabilities_key (hf_mcp hf) \<noteq> EXTENSION_ID"
    and "(Request i meth (Some d), hs) \<in> set (hs_sent h)"
    and "parse_request_meta L (dget (meta_of (JDict d)) EXTENSION_ID) = Some m"
    and "rm_responses m = Some rs" "map_of rs eid = Some (Accept a)"
  shows "\<exists>event. Decided event (rm_session_id m) (Some (Accept a)) \<in> set (hs_trace h) \<and> dget event ID = JStr eid"
  using sent_retry_accept [of "hs_trace h" i meth "Some d" L m rs eid a] assms(4-6)
    answers_holdD(1) [OF host_run_inv [OF assms(1,2)] assms(3)]
  by (simp add: params_of_def)

theorem host_retry_from_endpoint_witness:
  "\<exists>event. Decided event sample_sid (Some (Accept mcp_accept)) \<in> set (hs_trace host_retried) \<and> dget event ID = JStr sample_id"
proof -
  obtain hs where "(Request (RidStr (ustr ''amcp-1'')) TOOLS_CALL_METHOD (Some mcp_retry_params), hs) \<in> set (hs_sent host_retried)"
    using host_retried_sent by (auto simp: map_eq_Cons_conv)
  moreover have "parse_request_meta sample_lib (dget (meta_of (JDict mcp_retry_params)) EXTENSION_ID) =
      Some \<lparr>rm_session_id = sample_sid, rm_responses = Some [(sample_id, Accept mcp_accept)]\<rparr>"
    by code_simp
  ultimately show ?thesis
    using host_retry_from_endpoint [OF host_retried_run mcp_keys_apart, of _ _ mcp_retry_params _ sample_lib] by fastforce
qed

lemma close_begin_quiet:
  "hs_calls (host_close_begin s) = [] \<and> set (hs_concluding (host_close_begin s)) \<subseteq> set (hs_waited (host_close_begin s))"
  by (auto simp: host_close_begin_def Let_def)





end
