(* ===== verification/Spec2Isabelle.thy ===== *)
theory Spec2Isabelle
  imports Codec VerifyProperties TextProperties SessionProperties SigningProperties EmbeddingProperties
    McpHostProperties
begin

text \<open>
  A model of auditable-mcp, the Python SDK of the Auditable MCP protocol (\<open>src/src/auditable_mcp\<close>), with the theorems
  that make it correct.

  \<^bold>\<open>The program.\<close> A tool declares every operation that matters as an audit event before it acts, and a host that
  accepted the event has sealed it in a hash chain first. The tool side is a session (\<open>session.py\<close>) that numbers,
  signs and sends an attempt, judges the answer, runs the domain action, and reports its outcome. The host side
  (\<open>host.py\<close>) admits attempts and outcomes, seals them in a ledger (\<open>ledger.py\<close>) and persists each record in a
  repository (\<open>storage\<close>) before it answers. A verifier (\<open>verify.py\<close>) reads a chain offline. Between the sides is a
  transport: in process (\<open>in_process.py\<close>), or inside MCP (\<open>mcp/seam.py\<close>), where events and answers travel as JSON-RPC
  methods or as rounds of a tool call. Level 2 (\<open>l2\<close>) adds signatures and key registries.

  \<^bold>\<open>Theories and sources.\<close>
  \<^item> \<open>Prelude\<close>, \<open>Text_Encoding\<close>, \<open>Patterns\<close>, \<open>Effects\<close>, \<open>Json_Text\<close>: the Python the SDK is written in. Strings as code
    points, JSON values, UTF-8, the regular expressions, methods as state passing with exceptions (\<open>wp\<close> rules),
    \<open>json.dumps\<close> and \<open>json.loads\<close>.
  \<^item> \<open>Codec\<close>, \<open>Canonical\<close>, \<open>Vocabulary\<close>, \<open>Models\<close>, \<open>Clock\<close>, \<open>SaltedHash\<close>: \<open>encoding.py\<close>; \<open>canonical.py\<close> and \<open>hashing.py\<close>;
    \<open>fields.py\<close> and \<open>reasons.py\<close>; \<open>models.py\<close>; \<open>clock.py\<close>; \<open>salted_hash.py\<close>. A pydantic class is the table of its
    members with the rules its validators add.
  \<^item> \<open>Ledger\<close>, \<open>Repository\<close>, \<open>Host\<close>: \<open>ledger.py\<close>, \<open>storage\<close>, \<open>host.py\<close>. The record \<open>host\<close> is \<open>AuditHost\<close>; one definition per
    method and stage. \<open>HostSpec\<close> states what a host promises of its log; \<open>HostSteps\<close>, \<open>HostInv\<close>, \<open>HostSafe\<close>,
    \<open>HostReach\<close>, \<open>HostLive\<close> prove it for every handler, restart and interleaving of calls; \<open>HostProperties\<close> concludes.
  \<^item> \<open>Verify\<close>, \<open>VerifyFacts\<close>, \<open>HostVerify\<close>, \<open>VerifyProperties\<close>: \<open>verify.py\<close>, and the verifier over a host's chain.
  \<^item> \<open>Capability\<close>, \<open>Session\<close>, \<open>SessionFacts\<close>, \<open>SessionProperties\<close>: \<open>capability.py\<close>, \<open>degradation.py\<close>,
    \<open>mcp/declaration.py\<close>, \<open>session.py\<close>.
  \<^item> \<open>Keys\<close>, \<open>KeyFacts\<close>, \<open>Registry\<close>, \<open>KeyProperties\<close>, \<open>Signing\<close>, \<open>SigningProperties\<close>, \<open>Reconcile\<close>: the package \<open>l2\<close>.
  \<^item> \<open>Embedding\<close>, \<open>EmbeddingProperties\<close>: \<open>in_process.py\<close> and \<open>decorator.py\<close>, and the tool over the embedded host.
  \<^item> \<open>WireMeta\<close>, \<open>McpFrames\<close>: the responses and the members of \<open>_meta\<close> (\<open>models.py\<close>), frames, tokens and headers
    (\<open>mcp/seam.py\<close>). \<open>McpTool\<close>: the tool side of the binding, \<open>McpAuditTransport\<close>. \<open>McpToolRun\<close> is its runs;
    \<open>McpToolAnswers\<close>, \<open>McpToolTokens\<close>, \<open>McpToolBounds\<close>, \<open>McpToolSessions\<close>, \<open>McpToolOutcomes\<close>, \<open>McpToolIds\<close> are one
    invariant each; \<open>McpToolProperties\<close> concludes. \<open>McpHost\<close>: the host side, \<open>McpAuditReceiver\<close>; \<open>McpHostRun\<close> and
    \<open>McpHostSessions\<close> are its runs and invariants, \<open>McpHostProperties\<close> its properties and those of the two sides.
  \<^item> \<open>Samples\<close>: the concrete data of the witnesses.

  \<^bold>\<open>What is shown.\<close> Of the host: on every reachable state, with any repository that keeps its contract, any seams, and
  lost acknowledgements and restarts, the chain is well formed and its log admissible; an accept means a stored
  record of the very attempt; a reject or an interrupted handler leaves a valid chain; a fresh attempt is accepted
  when the outside works. Of the verifier: it is sound and complete for the chain, a host's own ledger verifies, and
  records that verify against an anchored digest are the anchored ones, or a failure of the hash is exhibited. Of the
  session: no action without an accept whose every check passed, the order of the aborts, the numbering. Of Level 2:
  keys for life, forward-only revocation, signatures that verify. Of the MCP binding: an accept a handler gets was
  carried by the peer for that attempt, and, over both sides, decided by the endpoint of the host; a round token is
  taken once; no outcome is dropped; sessions are shared, bounded and closed. Each codec is read back exactly.

  \<^bold>\<open>Interfaces.\<close> A contract between components is a locale, interpreted on the model of its provider: \<open>strict_codec\<close>
  (\<open>Codec\<close>), \<open>ledger_repository\<close> (\<open>Repository\<close>, the in-memory one), \<open>key_lifetime\<close> (\<open>KeyFacts\<close>, the registry),
  \<open>sealing_transport\<close> (\<open>Embedding\<close>, the embedded host).

  \<^bold>\<open>Outside code is a parameter.\<close> \<open>lib\<close> holds \<open>rfc8785.dumps\<close>, SHA-256, the \<open>\d\<close> class and the text of floats; \<open>crypto\<close> the
  cryptography library; \<open>mcp\<close> the constants of the MCP package; seams, transports and clocks are programs over an
  abstract world. Where a theorem relies on them it names the hypothesis: \<open>jcs_total\<close> (the canonical form exists and is
  text), \<open>float_law\<close> (a float reads back), \<open>sha256_length\<close>, \<open>crypto_laws\<close>, \<open>env_ok\<close> (the repository keeps its contract and
  no other seam writes to it), \<open>working\<close> (the seams answer), \<open>token_fresh\<close> (a drawn token is new), \<open>client_frame\<close> and
  \<open>id_free\<close> (what the MCP client of a host keeps to). A witness after each theorem shows that its hypotheses can hold.

  \<^bold>\<open>Fuel.\<close> \<open>json_loads\<close> runs with twice the length of its text plus one, which is proved enough (\<open>scan_fuel\<close>);
  \<open>evict_waiting\<close> and \<open>evict_held\<close> run with the length of their dictionary, since each turn removes what it evicts.

  \<^bold>\<open>How far the model goes.\<close>
  \<^item> Handlers of the audit host hold the partition's lock, so each is one step; in the MCP binding a function is cut at
    every \<open>await\<close> that waits, and any interleaving of the pieces is a run. The order of the seam's own frames among the
    frames of the session is not modelled, only what is sent. Deadlines may pass at any time.
  \<^item> Records and events have the member types the source declares for them; calling the API with other types is outside,
    except where the source itself handles it.
  \<^item> The host side of the binding treats its endpoint as the sequence of calls it gets and of decisions it gives;
    \<open>Host\<close> is such an endpoint, and its theorems speak of those calls.
  \<^item> A final result whose \<open>_meta\<close> is neither absent nor an object is read as having none (\<open>with_outcomes\<close>); the source
    would fail in \<open>dict\<close> there.
  \<^item> Logging, the digit limit and the recursion limit of \<open>json\<close>, negative zero, \<open>contextvars\<close> other than the current
    session, and the request context and access token of a call are left out.
  \<^item> Not modelled: \<open>mcp/http.py\<close> (ASGI applications, HTTP clients and servers of third-party libraries around the same
    seams), \<open>l2/adapters/aws_kms.py\<close> (calls of boto3), the re-exports of the packages, the walkthrough and the scripts.
\<close>

end
